theory Spec2Isabelle
  imports Main "HOL-Library.Product_Lexorder"
begin

section \<open>Task input records and errors\<close>

text \<open>
  \<^verbatim>\<open>TaskInputData\<close> (types/reclaim.ts) is an interface whose fields are all optional; an absent
  field and a field holding \<^verbatim>\<open>undefined\<close> are both \<open>None\<close>. JavaScript numbers are modelled as
  \<open>int\<close>: the tool schema (zod \<^verbatim>\<open>.number().int()\<close>) only lets integers through.
  \<^verbatim>\<open>deadline\<close> and \<^verbatim>\<open>snoozeUntil\<close> are \<^verbatim>\<open>number | string\<close>.
\<close>

datatype time_input = Days int | DateStr string

record TaskInputData =
  title :: "string option"
  notes_field :: "string option"
  eventCategory :: "string option"
  eventSubType :: "string option"
  priority :: "string option"
  timeChunksRequired :: "int option"
  minChunkSize :: "int option"
  maxChunkSize :: "int option"
  onDeck :: "bool option"
  alwaysPrivate :: "bool option"
  timeSchemeId :: "string option"
  status :: "string option"
  deadline :: "time_input option"
  snoozeUntil :: "time_input option"
  eventColor :: "string option"
  due :: "time_input option"

text \<open>
  \<^verbatim>\<open>type TaskToolInput = TaskInputData & {startTime?, durationMinutes?, ...}\<close>
  (tools/taskCrud.ts).
\<close>

record TaskToolInput = TaskInputData +
  startTime :: "string option"
  durationMinutes :: "int option"
  minDurationMinutes :: "int option"
  maxDurationMinutes :: "int option"
  lockChunkSizeToDuration :: "bool option"
  timeZone :: "string option"
  timezone :: "string option"

text \<open>
  Every \<^verbatim>\<open>throw\<close> of the modelled code is one constructor, named after the message it carries.
\<close>

datatype error =
    NotMultipleOfChunk string int
  | LockRequiresDuration
  | ChunkSizeConflict int int
  | InvalidDateTime string
  | InvalidMonth string
  | InvalidDay string
  | InvalidHour string
  | InvalidMinute string
  | InvalidSecond string
  | InvalidMilliseconds string
  | InvalidTimeZone string
  | InvalidDateFormat string
  | RangeError
  | NothingToUpdate

section \<open>Minute to chunk conversion (tools/taskCrud.ts)\<close>

definition CHUNK_MINUTES :: int where
  "CHUNK_MINUTES = 15"

text \<open>
  \<^verbatim>\<open>if (value % CHUNK_MINUTES !== 0) throw ...; return value / CHUNK_MINUTES;\<close>
  On integers the JavaScript remainder is zero exactly when 15 divides the value, and then the
  quotient is the exact integer quotient.
\<close>

definition minutesToChunks :: "int \<Rightarrow> string \<Rightarrow> error + int" where
  "minutesToChunks v field =
     (if v mod CHUNK_MINUTES \<noteq> 0 then Inl (NotMultipleOfChunk field v)
      else Inr (v div CHUNK_MINUTES))"

text \<open>Sequencing of steps that may throw: the first error ends the computation.\<close>

definition and_then :: "error + 'a \<Rightarrow> ('a \<Rightarrow> error + 'b) \<Rightarrow> error + 'b" where
  "and_then m f = (case m of Inl e \<Rightarrow> Inl e | Inr x \<Rightarrow> f x)"

text \<open>
  \<^verbatim>\<open>normalizeChunkInputs\<close>: the three conversions in source order, then the lock, then the seven
  \<^verbatim>\<open>delete\<close>s. The cast to \<^verbatim>\<open>TaskInputData\<close> does nothing at run time.
\<close>

definition convert_duration :: "TaskToolInput \<Rightarrow> error + TaskToolInput" where
  "convert_duration data =
     (case durationMinutes data of
        None \<Rightarrow> Inr data
      | Some v \<Rightarrow> and_then (minutesToChunks v ''durationMinutes'')
                   (\<lambda>c. Inr (data\<lparr>timeChunksRequired := Some c\<rparr>)))"

definition convert_min :: "TaskToolInput \<Rightarrow> error + TaskToolInput" where
  "convert_min data =
     (case minDurationMinutes data of
        None \<Rightarrow> Inr data
      | Some v \<Rightarrow> and_then (minutesToChunks v ''minDurationMinutes'')
                   (\<lambda>c. Inr (data\<lparr>minChunkSize := Some c\<rparr>)))"

definition convert_max :: "TaskToolInput \<Rightarrow> error + TaskToolInput" where
  "convert_max data =
     (case maxDurationMinutes data of
        None \<Rightarrow> Inr data
      | Some v \<Rightarrow> and_then (minutesToChunks v ''maxDurationMinutes'')
                   (\<lambda>c. Inr (data\<lparr>maxChunkSize := Some c\<rparr>)))"

definition apply_lock :: "TaskToolInput \<Rightarrow> error + TaskToolInput" where
  "apply_lock data =
     (if lockChunkSizeToDuration data = Some True
      then (case timeChunksRequired data of
              None \<Rightarrow> Inl LockRequiresDuration
            | Some c \<Rightarrow> Inr (data\<lparr>minChunkSize := Some c, maxChunkSize := Some c\<rparr>))
      else Inr data)"

definition delete_tool_fields :: "TaskToolInput \<Rightarrow> TaskToolInput" where
  "delete_tool_fields data =
     data\<lparr>durationMinutes := None, minDurationMinutes := None, maxDurationMinutes := None,
          lockChunkSizeToDuration := None, startTime := None, timeZone := None,
          timezone := None\<rparr>"

definition normalizeChunkInputs :: "TaskToolInput \<Rightarrow> error + TaskToolInput" where
  "normalizeChunkInputs input =
     and_then (convert_duration input) (\<lambda>d1.
     and_then (convert_min d1) (\<lambda>d2.
     and_then (convert_max d2) (\<lambda>d3.
     and_then (apply_lock d3) (\<lambda>d4.
     Inr (delete_tool_fields d4)))))"

text \<open>An input with every field absent, to build concrete inputs from.\<close>

definition emptyInput :: TaskToolInput where
  "emptyInput =
     \<lparr>title = None, notes_field = None, eventCategory = None, eventSubType = None,
      priority = None, timeChunksRequired = None, minChunkSize = None, maxChunkSize = None,
      onDeck = None, alwaysPrivate = None, timeSchemeId = None, status = None,
      deadline = None, snoozeUntil = None, eventColor = None, due = None,
      startTime = None, durationMinutes = None, minDurationMinutes = None,
      maxDurationMinutes = None, lockChunkSizeToDuration = None,
      timeZone = None, timezone = None\<rparr>"

section \<open>Enumerated fields (reclaim-client.ts)\<close>

text \<open>
  Strings are ASCII here: a string of the model stands for a JavaScript string whose characters
  are all below U+0080, and strings with other characters (the no-break space U+00A0 and the
  other Unicode white space that \<^verbatim>\<open>trim\<close> and \<^verbatim>\<open>\\s\<close> also take, letters outside a..z) are
  outside the model. On ASCII, \<^verbatim>\<open>trim\<close> and the class \<^verbatim>\<open>\\s\<close> see the six white-space
  characters, and \<^verbatim>\<open>toUpperCase\<close> maps a..z to A..Z.
\<close>

definition is_space :: "char \<Rightarrow> bool" where
  "is_space c = (c \<in> set [CHR 0x09, CHR 0x0A, CHR 0x0B, CHR 0x0C, CHR 0x0D, CHR 0x20])"

definition trim :: "string \<Rightarrow> string" where
  "trim s = rev (dropWhile is_space (rev (dropWhile is_space s)))"

definition toUpperCase_char :: "char \<Rightarrow> char" where
  "toUpperCase_char c =
     (case map_of (zip ''abcdefghijklmnopqrstuvwxyz'' ''ABCDEFGHIJKLMNOPQRSTUVWXYZ'') c of
        None \<Rightarrow> c
      | Some u \<Rightarrow> u)"

definition toUpperCase :: "string \<Rightarrow> string" where
  "toUpperCase s = map toUpperCase_char s"

text \<open>\<^verbatim>\<open>.replace(/[\\s-]+/g, "_")\<close>: every maximal run of white space and hyphens becomes one underscore.\<close>

fun replace_runs_from :: "bool \<Rightarrow> string \<Rightarrow> string" where
  "replace_runs_from in_run [] = []"
| "replace_runs_from in_run (c # cs) =
     (if is_space c \<or> c = CHR ''-''
      then (if in_run then replace_runs_from True cs else CHR ''_'' # replace_runs_from True cs)
      else c # replace_runs_from False cs)"

definition replace_runs :: "string \<Rightarrow> string" where
  "replace_runs s = replace_runs_from False s"

text \<open>A string is truthy when it is present and not empty.\<close>

definition truthy :: "string option \<Rightarrow> bool" where
  "truthy v = (case v of None \<Rightarrow> False | Some s \<Rightarrow> s \<noteq> [])"

definition normalizeEnumValue :: "string option \<Rightarrow> string option" where
  "normalizeEnumValue v =
     (if \<not> truthy v then None
      else Some (replace_runs (toUpperCase (trim (the v)))))"

text \<open>\<^verbatim>\<open>a ?? b\<close>\<close>

definition nullish :: "'a option \<Rightarrow> 'a option \<Rightarrow> 'a option" where
  "nullish a b = (case a of None \<Rightarrow> b | Some x \<Rightarrow> Some x)"

definition EVENT_CATEGORIES :: "string list" where
  "EVENT_CATEGORIES = [''WORK'', ''PERSONAL'']"

definition EVENT_SUBTYPES :: "string list" where
  "EVENT_SUBTYPES =
     [''ONE_ON_ONE'', ''STAFF_MEETING'', ''OP_REVIEW'', ''EXTERNAL'', ''IDEATION'', ''FOCUS'',
      ''PRODUCTIVITY'', ''TRAVEL'', ''FLIGHT'', ''TRAIN'', ''RECLAIM'', ''VACATION'', ''HEALTH'',
      ''ERRAND'', ''OTHER_PERSONAL'', ''UNKNOWN'']"

definition EVENT_SUBTYPE_ALIASES :: "(string \<times> string) list" where
  "EVENT_SUBTYPE_ALIASES =
     [(''MEETING'', ''STAFF_MEETING''), (''1ON1'', ''ONE_ON_ONE''), (''ONEONONE'', ''ONE_ON_ONE''),
      (''ONE-ON-ONE'', ''ONE_ON_ONE''), (''ONE_ON_ONE'', ''ONE_ON_ONE''),
      (''PERSONAL'', ''OTHER_PERSONAL''), (''ERRANDS'', ''ERRAND''), (''FOCUS_TIME'', ''FOCUS'')]"

definition PERSONAL_SUBTYPES :: "string list" where
  "PERSONAL_SUBTYPES = [''OTHER_PERSONAL'', ''ERRAND'', ''HEALTH'', ''VACATION'']"

definition normalizeEventCategory :: "string option \<Rightarrow> string option \<Rightarrow> string" where
  "normalizeEventCategory v fallback =
     (let normalized = normalizeEnumValue (nullish v fallback)
      in if truthy normalized \<and> the normalized \<in> set EVENT_CATEGORIES then the normalized
         else ''WORK'')"

definition inferCategoryFromSubType :: "string option \<Rightarrow> string option" where
  "inferCategoryFromSubType subType =
     (let normalized = normalizeEnumValue subType
      in if truthy normalized \<and> the normalized \<in> set PERSONAL_SUBTYPES then Some ''PERSONAL''
         else None)"

definition is_P :: "string option \<Rightarrow> bool" where
  "is_P v = (v = Some ''P1'' \<or> v = Some ''P2'' \<or> v = Some ''P3'' \<or> v = Some ''P4'')"

definition normalizePriority :: "string option \<Rightarrow> string option \<Rightarrow> string" where
  "normalizePriority v fallback =
     (let normalized = normalizeEnumValue (nullish v fallback)
      in if truthy normalized then
           (if is_P normalized then the normalized
            else if normalized = Some ''DEFAULT'' \<and> is_P (normalizeEnumValue fallback)
              then the (normalizeEnumValue fallback)
            else if normalized = Some ''PRIORITIZE'' then ''P1''
            else ''P3'')
         else ''P3'')"

definition normalizeEventSubType :: "string option \<Rightarrow> string \<Rightarrow> string" where
  "normalizeEventSubType v eventCategory' =
     (let normalized = normalizeEnumValue v;
          dflt = (if eventCategory' = ''PERSONAL'' then ''OTHER_PERSONAL'' else ''FOCUS'')
      in if truthy normalized then
           (if the normalized \<in> set EVENT_SUBTYPES then the normalized
            else (case map_of EVENT_SUBTYPE_ALIASES (the normalized) of
                    Some alias \<Rightarrow> if alias \<noteq> [] \<and> alias \<in> set EVENT_SUBTYPES then alias else dflt
                  | None \<Rightarrow> dflt))
         else dflt)"

section \<open>Defaults and clamping (reclaim-client.ts)\<close>

text \<open>
  \<^verbatim>\<open>TaskDefaults\<close>, the fields the code reads. The field names carry a suffix because a
  record field is a constant and \<^verbatim>\<open>TaskInputData\<close> has the same names. A \<^verbatim>\<open>null\<close> or a value of
  another type fails every \<^verbatim>\<open>typeof\<close> test of the code, as \<open>None\<close> does.
\<close>

record TaskDefaults =
  timeChunksRequired_default :: "int option"
  dueInDays_default :: "int option"
  category_default :: "string option"
  alwaysPrivate_default :: "bool option"
  minChunkSize_default :: "int option"
  maxChunkSize_default :: "int option"
  timeSchemeId_default :: "string option"
  priority_default :: "string option"
  onDeck_default :: "bool option"

text \<open>\<^verbatim>\<open>defaults?.field\<close>\<close>

definition opt_field :: "('d \<Rightarrow> 'a option) \<Rightarrow> 'd option \<Rightarrow> 'a option" where
  "opt_field f defaults = (case defaults of None \<Rightarrow> None | Some d \<Rightarrow> f d)"

text \<open>\<^verbatim>\<open>typeof x === "number" && x > 0\<close>\<close>

definition positive_number :: "int option \<Rightarrow> bool" where
  "positive_number v = (case v of None \<Rightarrow> False | Some n \<Rightarrow> n > 0)"

definition or_zero :: "int option \<Rightarrow> int" where
  "or_zero v = (case v of None \<Rightarrow> 0 | Some n \<Rightarrow> n)"

text \<open>
  The clamp both functions end with: each bound is capped at the total when the total is
  present, then a maximum below the minimum is raised to it.
\<close>

definition clamp_chunks :: "'a TaskInputData_scheme \<Rightarrow> 'a TaskInputData_scheme" where
  "clamp_chunks output =
     (let o1 = (case timeChunksRequired output of
                  None \<Rightarrow> output
                | Some t \<Rightarrow>
                    (let oa = (case minChunkSize output of
                                 None \<Rightarrow> output
                               | Some mn \<Rightarrow> output\<lparr>minChunkSize := Some (min mn t)\<rparr>)
                     in (case maxChunkSize oa of
                           None \<Rightarrow> oa
                         | Some mx \<Rightarrow> oa\<lparr>maxChunkSize := Some (min mx t)\<rparr>)))
      in (case (minChunkSize o1, maxChunkSize o1) of
            (Some mn, Some mx) \<Rightarrow> if mn > mx then o1\<lparr>maxChunkSize := Some mn\<rparr> else o1
          | _ \<Rightarrow> o1))"

text \<open>
  \<^verbatim>\<open>applyTaskDefaultsForCreate\<close> is a straight line of assignments to \<^verbatim>\<open>output\<close>; it is cut here
  into four blocks in source order, followed by the clamp.
\<close>

definition fill_enums ::
  "TaskDefaults option \<Rightarrow> 'a TaskInputData_scheme \<Rightarrow> 'a TaskInputData_scheme" where
  "fill_enums defaults output =
     (let inferredCategory =
            (if eventCategory output = None then inferCategoryFromSubType (eventSubType output)
             else None);
          normalizedCategory =
            normalizeEventCategory (eventCategory output)
              (nullish inferredCategory (opt_field category_default defaults))
      in output\<lparr>eventCategory := Some normalizedCategory,
                eventSubType := Some (normalizeEventSubType (eventSubType output) normalizedCategory),
                priority := Some (normalizePriority (priority output)
                                    (opt_field priority_default defaults))\<rparr>)"

definition fill_flags ::
  "TaskDefaults option \<Rightarrow> 'a TaskInputData_scheme \<Rightarrow> 'a TaskInputData_scheme" where
  "fill_flags defaults output =
     output\<lparr>onDeck :=
              (if onDeck output = None \<and> opt_field onDeck_default defaults \<noteq> None
               then opt_field onDeck_default defaults else onDeck output),
            alwaysPrivate :=
              (if alwaysPrivate output = None \<and> opt_field alwaysPrivate_default defaults \<noteq> None
               then opt_field alwaysPrivate_default defaults else alwaysPrivate output),
            notes_field :=
              (if \<not> truthy (notes_field output) then Some [] else notes_field output),
            timeSchemeId :=
              (if timeSchemeId output = None
                  \<and> (case opt_field timeSchemeId_default defaults of
                        None \<Rightarrow> False | Some s \<Rightarrow> length (trim s) > 0)
               then opt_field timeSchemeId_default defaults else timeSchemeId output)\<rparr>"

definition fill_total ::
  "TaskDefaults option \<Rightarrow> 'a TaskInputData_scheme \<Rightarrow> 'a TaskInputData_scheme" where
  "fill_total defaults output =
     (let t1 = (if timeChunksRequired output = None
                   \<and> positive_number (opt_field timeChunksRequired_default defaults)
                then opt_field timeChunksRequired_default defaults
                else timeChunksRequired output);
          derived = max (or_zero (minChunkSize output)) (or_zero (maxChunkSize output));
          t2 = (if t1 = None \<and> derived > 0 then Some derived else t1);
          t3 = (if t2 = None then Some 1 else t2)
      in output\<lparr>timeChunksRequired := t3\<rparr>)"

definition fill_bounds ::
  "TaskDefaults option \<Rightarrow> 'a TaskInputData_scheme \<Rightarrow> 'a TaskInputData_scheme" where
  "fill_bounds defaults output =
     (let mn1 = (if minChunkSize output = None
                    \<and> positive_number (opt_field minChunkSize_default defaults)
                 then opt_field minChunkSize_default defaults else minChunkSize output);
          mx1 = (if maxChunkSize output = None
                    \<and> positive_number (opt_field maxChunkSize_default defaults)
                 then opt_field maxChunkSize_default defaults else maxChunkSize output);
          mn2 = (if mn1 = None then map_option (\<lambda>t. min t 1) (timeChunksRequired output) else mn1);
          mx2 = (if mx1 = None then timeChunksRequired output else mx1)
      in output\<lparr>minChunkSize := mn2, maxChunkSize := mx2\<rparr>)"

definition applyTaskDefaultsForCreate ::
  "'a TaskInputData_scheme \<Rightarrow> TaskDefaults option \<Rightarrow> 'a TaskInputData_scheme" where
  "applyTaskDefaultsForCreate taskData defaults =
     clamp_chunks (fill_bounds defaults (fill_total defaults
       (fill_flags defaults (fill_enums defaults taskData))))"

text \<open>\<^verbatim>\<open>normalizeTaskPatch\<close>: the enumerated fields that are truthy, then the clamp.\<close>

definition patch_enums ::
  "TaskDefaults option \<Rightarrow> 'a TaskInputData_scheme \<Rightarrow> 'a TaskInputData_scheme" where
  "patch_enums defaults output =
     (let cat = (if truthy (eventCategory output)
                 then Some (normalizeEventCategory (eventCategory output)
                              (opt_field category_default defaults))
                 else eventCategory output);
          sub = (if truthy (eventSubType output)
                 then (let category =
                             (if truthy cat then normalizeEventCategory cat None
                              else normalizeEventCategory None
                                     (nullish (inferCategoryFromSubType (eventSubType output))
                                        (opt_field category_default defaults)))
                       in Some (normalizeEventSubType (eventSubType output) category))
                 else eventSubType output);
          pri = (if truthy (priority output)
                 then Some (normalizePriority (priority output)
                              (opt_field priority_default defaults))
                 else priority output);
          tsi = (if timeSchemeId output = Some [] then None else timeSchemeId output)
      in output\<lparr>eventCategory := cat, eventSubType := sub, priority := pri,
                timeSchemeId := tsi\<rparr>)"

definition normalizeTaskPatch ::
  "'a TaskInputData_scheme \<Rightarrow> TaskDefaults option \<Rightarrow> 'a TaskInputData_scheme" where
  "normalizeTaskPatch taskData defaults = clamp_chunks (patch_enums defaults taskData)"

text \<open>\<^verbatim>\<open>validateChunkSizes\<close> throws when both bounds are numbers and the minimum is the larger.\<close>

definition validateChunkSizes :: "'a TaskInputData_scheme \<Rightarrow> error + unit" where
  "validateChunkSizes payload =
     (case (minChunkSize payload, maxChunkSize payload) of
        (Some mn, Some mx) \<Rightarrow> if mn > mx then Inl (ChunkSizeConflict mn mx) else Inr ()
      | _ \<Rightarrow> Inr ())"


section \<open>ECMAScript time values\<close>

text \<open>
  A \<^verbatim>\<open>Date\<close> holds a time value: milliseconds since 1970-01-01T00:00:00Z, an \<open>int\<close> here. The
  functions below are the abstract operations of the ECMAScript specification (Day,
  TimeWithinDay, DaysInYear, DayFromYear, YearFromTime, MonthFromTime, DateFromTime, MakeTime,
  MakeDay, MakeDate) that \<^verbatim>\<open>Date.UTC\<close>, the \<^verbatim>\<open>getUTC...\<close> accessors and \<^verbatim>\<open>toISOString\<close> are
  defined by. Months are 0-based in these operations, as in JavaScript.
\<close>

definition msPerDay :: int where
  "msPerDay = 86400000"

definition Day :: "int \<Rightarrow> int" where
  "Day t = t div msPerDay"

definition TimeWithinDay :: "int \<Rightarrow> int" where
  "TimeWithinDay t = t mod msPerDay"

definition DaysInYear :: "int \<Rightarrow> int" where
  "DaysInYear y =
     (if y mod 4 \<noteq> 0 then 365 else if y mod 100 \<noteq> 0 then 366
      else if y mod 400 \<noteq> 0 then 365 else 366)"

definition DayFromYear :: "int \<Rightarrow> int" where
  "DayFromYear y =
     365 * (y - 1970) + (y - 1969) div 4 - (y - 1901) div 100 + (y - 1601) div 400"

text \<open>
  Days before year \<open>1601 + n\<close> counted from 1601-01-01, for the \<open>n\<close>-th year of a 400-year
  cycle.
\<close>

definition days_before_cycle_year :: "int \<Rightarrow> int" where
  "days_before_cycle_year n = 365 * n + n div 4 - n div 100 + n div 400"

text \<open>
  The year of a day number: the specification asks for the largest \<open>y\<close> with
  \<open>DayFromYear y \<le> d\<close>. It is computed from the position in the 400-year cycle
  (146097 days); the estimate \<open>doe div 366\<close> is at most two years short
  (lemma \<open>YearFromDay_bounds\<close> below shows that the result is that largest year).
\<close>

definition YearFromDay :: "int \<Rightarrow> int" where
  "YearFromDay d =
     (let since1601 = d + 134774;
          era = since1601 div 146097;
          doe = since1601 mod 146097;
          n0 = doe div 366;
          n = (if days_before_cycle_year (n0 + 2) \<le> doe then n0 + 2
               else if days_before_cycle_year (n0 + 1) \<le> doe then n0 + 1
               else n0)
      in 1601 + 400 * era + n)"

definition YearFromTime :: "int \<Rightarrow> int" where
  "YearFromTime t = YearFromDay (Day t)"

definition InLeapYear :: "int \<Rightarrow> int" where
  "InLeapYear y = (if DaysInYear y = 366 then 1 else 0)"

definition DayWithinYear :: "int \<Rightarrow> int" where
  "DayWithinYear d = d - DayFromYear (YearFromDay d)"

text \<open>The table of the specification: the month (0..11) of a day within a year.\<close>

definition month_of_year_day :: "int \<Rightarrow> int \<Rightarrow> int" where
  "month_of_year_day leap dwy =
     (if dwy < 31 then 0
      else if dwy < 59 + leap then 1
      else if dwy < 90 + leap then 2
      else if dwy < 120 + leap then 3
      else if dwy < 151 + leap then 4
      else if dwy < 181 + leap then 5
      else if dwy < 212 + leap then 6
      else if dwy < 243 + leap then 7
      else if dwy < 273 + leap then 8
      else if dwy < 304 + leap then 9
      else if dwy < 334 + leap then 10
      else 11)"

text \<open>Days of the year before the first of a month (0..11).\<close>

definition days_before_month :: "int \<Rightarrow> int \<Rightarrow> int" where
  "days_before_month leap m =
     (if m = 0 then 0
      else if m = 1 then 31
      else if m = 2 then 59 + leap
      else if m = 3 then 90 + leap
      else if m = 4 then 120 + leap
      else if m = 5 then 151 + leap
      else if m = 6 then 181 + leap
      else if m = 7 then 212 + leap
      else if m = 8 then 243 + leap
      else if m = 9 then 273 + leap
      else if m = 10 then 304 + leap
      else 334 + leap)"

definition MonthFromTime :: "int \<Rightarrow> int" where
  "MonthFromTime t =
     month_of_year_day (InLeapYear (YearFromTime t)) (DayWithinYear (Day t))"

definition DateFromTime :: "int \<Rightarrow> int" where
  "DateFromTime t =
     DayWithinYear (Day t)
       - days_before_month (InLeapYear (YearFromTime t)) (MonthFromTime t) + 1"

definition HourFromTime :: "int \<Rightarrow> int" where
  "HourFromTime t = (t div 3600000) mod 24"

definition MinFromTime :: "int \<Rightarrow> int" where
  "MinFromTime t = (t div 60000) mod 60"

definition SecFromTime :: "int \<Rightarrow> int" where
  "SecFromTime t = (t div 1000) mod 60"

definition msFromTime :: "int \<Rightarrow> int" where
  "msFromTime t = t mod 1000"

definition MakeTime :: "int \<Rightarrow> int \<Rightarrow> int \<Rightarrow> int \<Rightarrow> int" where
  "MakeTime h m s milli = h * 3600000 + m * 60000 + s * 1000 + milli"

definition MakeDay :: "int \<Rightarrow> int \<Rightarrow> int \<Rightarrow> int" where
  "MakeDay y m dt =
     (let ym = y + m div 12; mn = m mod 12
      in DayFromYear ym + days_before_month (InLeapYear ym) mn + dt - 1)"

definition MakeDate :: "int \<Rightarrow> int \<Rightarrow> int" where
  "MakeDate dy tm = dy * msPerDay + tm"

text \<open>
  \<^verbatim>\<open>Date.UTC(year, month, day, hours, minutes, seconds, ms)\<close>: a year from 0 to 99 means
  1900 + year. The final TimeClip (beyond 8.64e15 ms the result is NaN) is left out: every call
  in the modelled code passes a year of at most four digits and components of at most three,
  far inside that range.
\<close>

definition Date_UTC :: "int \<Rightarrow> int \<Rightarrow> int \<Rightarrow> int \<Rightarrow> int \<Rightarrow> int \<Rightarrow> int \<Rightarrow> int" where
  "Date_UTC y m dt h mi s milli =
     (let yr = (if 0 \<le> y \<and> y \<le> 99 then 1900 + y else y)
      in MakeDate (MakeDay yr m dt) (MakeTime h mi s milli))"

text \<open>The number of days of a month (1..12) of a year, for the statements about valid dates.\<close>

definition days_in_month :: "int \<Rightarrow> int \<Rightarrow> int" where
  "days_in_month y m =
     (if m = 2 then 28 + InLeapYear y
      else if m = 4 \<or> m = 6 \<or> m = 9 \<or> m = 11 then 30
      else 31)"

section \<open>Wall-clock rendering in a time zone (reclaim-client.ts)\<close>

text \<open>
  The IANA time-zone database behind \<^verbatim>\<open>Intl.DateTimeFormat\<close> belongs to the platform, not to
  the repository. A zone is given here by what the formatter needs of it: its UTC offset, in
  milliseconds, at each instant. The formatter is taken to render hours as 00..23 (the
  repository's own test of a date-only input at midnight depends on it).
\<close>

type_synonym zone = "int \<Rightarrow> int"

record TimeParts =
  year :: int
  month :: int
  day :: int
  hour :: int
  minute :: int
  second :: int

text \<open>
  \<^verbatim>\<open>getZonedParts(date, timeZone)\<close>: the six numeric parts the formatter prints for the instant;
  the milliseconds are not printed.
\<close>

definition getZonedParts :: "int \<Rightarrow> zone \<Rightarrow> TimeParts" where
  "getZonedParts date tz =
     (let local = date + tz date
      in \<lparr>year = YearFromTime local, month = MonthFromTime local + 1,
          day = DateFromTime local, hour = HourFromTime local,
          minute = MinFromTime local, second = SecFromTime local\<rparr>)"

definition partsToUtcMillis :: "TimeParts \<Rightarrow> int" where
  "partsToUtcMillis parts =
     Date_UTC (year parts) (month parts - 1) (day parts) (hour parts) (minute parts)
       (second parts) 0"

definition partsMatch :: "TimeParts \<Rightarrow> TimeParts \<Rightarrow> bool" where
  "partsMatch a b =
     (year a = year b \<and> month a = month b \<and> day a = day b \<and> hour a = hour b
      \<and> minute a = minute b \<and> second a = second b)"

definition getTimeZoneOffset :: "int \<Rightarrow> zone \<Rightarrow> int" where
  "getTimeZoneOffset date tz = partsToUtcMillis (getZonedParts date tz) - date"

section \<open>zonedTimeToUtc\<close>

text \<open>\<^verbatim>\<open>Set.add\<close>: a \<^verbatim>\<open>Set\<close> keeps its elements in insertion order, without duplicates.\<close>

definition set_add :: "int list \<Rightarrow> int \<Rightarrow> int list" where
  "set_add xs x = (if x \<in> set xs then xs else xs @ [x])"

text \<open>
  The body of \<^verbatim>\<open>for (const offset of Array.from(offsets))\<close>. The loop runs over a copy of the
  set taken before the loop, which holds the first offset only.
\<close>

definition probe_offsets :: "int \<Rightarrow> zone \<Rightarrow> int list \<Rightarrow> int \<Rightarrow> int list" where
  "probe_offsets utcGuessMillis tz offsets offset =
     (let candidate = utcGuessMillis - offset;
          offsets = set_add offsets (getTimeZoneOffset candidate tz);
          offsets = set_add offsets (getTimeZoneOffset (candidate + 3600000) tz);
          offsets = set_add offsets (getTimeZoneOffset (candidate - 3600000) tz)
      in offsets)"

definition candidate_offsets :: "int \<Rightarrow> zone \<Rightarrow> int list" where
  "candidate_offsets utcGuessMillis tz =
     (let offsets = set_add [] (getTimeZoneOffset utcGuessMillis tz)
      in foldl (probe_offsets utcGuessMillis tz) offsets offsets)"

text \<open>A candidate is \<^verbatim>\<open>{date, parts}\<close>.\<close>

definition candidate_of :: "int \<Rightarrow> zone \<Rightarrow> int \<Rightarrow> int \<times> TimeParts" where
  "candidate_of utcGuessMillis tz offset =
     (utcGuessMillis - offset, getZonedParts (utcGuessMillis - offset) tz)"

text \<open>
  The last loop of the function: the candidate whose wall clock is closest to the desired one,
  the first such in case of a tie. \<open>None\<close> stands for the initial \<^verbatim>\<open>Number.POSITIVE_INFINITY\<close>.
\<close>

fun closest_candidate ::
  "int \<Rightarrow> (int \<times> TimeParts) list \<Rightarrow> int \<times> TimeParts \<Rightarrow> int option \<Rightarrow> int \<times> TimeParts" where
  "closest_candidate desiredNaive [] bestCandidate bestDiff = bestCandidate"
| "closest_candidate desiredNaive (c # cs) bestCandidate bestDiff =
     (let diff = \<bar>partsToUtcMillis (snd c) - desiredNaive\<bar>
      in if (case bestDiff of None \<Rightarrow> True | Some b \<Rightarrow> diff < b)
         then closest_candidate desiredNaive cs c (Some diff)
         else closest_candidate desiredNaive cs bestCandidate bestDiff)"

text \<open>
  \<^verbatim>\<open>zonedTimeToUtc\<close>. Both \<^verbatim>\<open>sort\<close> calls order by a key (the date; the pair of delta and date),
  which \<open>sort_key\<close> does, stably.
\<close>

definition zonedTimeToUtc ::
  "int \<Rightarrow> int \<Rightarrow> int \<Rightarrow> int \<Rightarrow> int \<Rightarrow> int \<Rightarrow> int \<Rightarrow> zone \<Rightarrow> int" where
  "zonedTimeToUtc y mo d h mi s ms tz =
     (let desiredParts = \<lparr>year = y, month = mo, day = d, hour = h, minute = mi, second = s\<rparr>;
          utcGuessMillis = Date_UTC y (mo - 1) d h mi s ms;
          offsets = candidate_offsets utcGuessMillis tz;
          candidates = map (candidate_of utcGuessMillis tz) offsets;
          matching = sort_key fst (filter (\<lambda>c. partsMatch (snd c) desiredParts) candidates)
      in case matching of
           c # _ \<Rightarrow> fst c
         | [] \<Rightarrow>
           (let desiredNaive = partsToUtcMillis desiredParts;
                afterCandidates =
                  sort_key (\<lambda>c. (partsToUtcMillis (snd c) - desiredNaive, fst c))
                    (filter (\<lambda>c. partsToUtcMillis (snd c) \<ge> desiredNaive) candidates)
            in case afterCandidates of
                 c # _ \<Rightarrow> fst c
               | [] \<Rightarrow>
                   fst (closest_candidate desiredNaive candidates
                          (candidate_of utcGuessMillis tz
                             (getTimeZoneOffset utcGuessMillis tz)) None)))"

section \<open>Reading a date string\<close>

definition is_digit :: "char \<Rightarrow> bool" where
  "is_digit c = (c \<in> set ''0123456789'')"

definition digit_val :: "char \<Rightarrow> int" where
  "digit_val c =
     (case map_of (zip ''0123456789'' [0, 1, 2, 3, 4, 5, 6, 7, 8, 9]) c of
        None \<Rightarrow> 0 | Some v \<Rightarrow> v)"

text \<open>\<^verbatim>\<open>Number(raw)\<close> for a string of decimal digits.\<close>

definition Number_of :: "string \<Rightarrow> int" where
  "Number_of raw = foldl (\<lambda>acc c. acc * 10 + digit_val c) 0 raw"

text \<open>
  \<^verbatim>\<open>HAS_TIMEZONE_REGEX = /([zZ]|[+-]\d{2}:\d{2})$/\<close>: the string ends with z, Z or a
  signed hh:mm.
\<close>

definition HAS_TIMEZONE_REGEX_test :: "string \<Rightarrow> bool" where
  "HAS_TIMEZONE_REGEX_test s =
     (case rev s of
        [] \<Rightarrow> False
      | c # r \<Rightarrow>
          c = CHR ''z'' \<or> c = CHR ''Z'' \<or>
          (case r of
             d3 # col # d2 # d1 # sg # _ \<Rightarrow>
               is_digit c \<and> is_digit d3 \<and> col = CHR '':'' \<and> is_digit d2 \<and> is_digit d1
               \<and> (sg = CHR ''+'' \<or> sg = CHR ''-'')
           | _ \<Rightarrow> False))"

text \<open>
  \<^verbatim>\<open>LOCAL_DATETIME_REGEX\<close>, anchored at both ends:
  \<^verbatim>\<open>(\d{4})-(\d{2})-(\d{2})\<close>, then optionally a \<^verbatim>\<open>T\<close> or a white-space character and
  \<^verbatim>\<open>(\d{2})\<close>, then optionally \<^verbatim>\<open>:(\d{2})\<close>, then optionally \<^verbatim>\<open>:(\d{2})\<close>, then optionally
  \<^verbatim>\<open>\.(\d{1,3})\<close>. The result holds the capture groups; a group that did not take part is
  \<open>None\<close>.
\<close>

record local_match =
  yearRaw :: string
  monthRaw :: string
  dayRaw :: string
  hourRaw :: "string option"
  minuteRaw :: "string option"
  secondRaw :: "string option"
  millisecondRaw :: "string option"

definition match_fraction :: "string \<Rightarrow> string option option" where
  "match_fraction rest =
     (case rest of
        [] \<Rightarrow> Some None
      | c # ds \<Rightarrow>
          if c = CHR ''.'' \<and> 1 \<le> length ds \<and> length ds \<le> 3 \<and> list_all is_digit ds
          then Some (Some ds) else None)"

definition match_seconds :: "string \<Rightarrow> (string option \<times> string option) option" where
  "match_seconds rest =
     (case rest of
        [] \<Rightarrow> Some (None, None)
      | c # s1 # s2 # r \<Rightarrow>
          if c = CHR '':'' \<and> is_digit s1 \<and> is_digit s2
          then map_option (\<lambda>f. (Some [s1, s2], f)) (match_fraction r) else None
      | _ \<Rightarrow> None)"

definition match_minutes ::
  "string \<Rightarrow> (string option \<times> string option \<times> string option) option" where
  "match_minutes rest =
     (case rest of
        [] \<Rightarrow> Some (None, None, None)
      | c # m1 # m2 # r \<Rightarrow>
          if c = CHR '':'' \<and> is_digit m1 \<and> is_digit m2
          then map_option (\<lambda>sf. (Some [m1, m2], sf)) (match_seconds r) else None
      | _ \<Rightarrow> None)"

definition match_time ::
  "string \<Rightarrow> (string option \<times> string option \<times> string option \<times> string option) option" where
  "match_time rest =
     (case rest of
        [] \<Rightarrow> Some (None, None, None, None)
      | c # h1 # h2 # r \<Rightarrow>
          if (c = CHR ''T'' \<or> is_space c) \<and> is_digit h1 \<and> is_digit h2
          then map_option (\<lambda>msf. (Some [h1, h2], msf)) (match_minutes r) else None
      | _ \<Rightarrow> None)"

definition LOCAL_DATETIME_REGEX_match :: "string \<Rightarrow> local_match option" where
  "LOCAL_DATETIME_REGEX_match s =
     (case s of
        y1 # y2 # y3 # y4 # a # m1 # m2 # b # d1 # d2 # rest \<Rightarrow>
          if list_all is_digit [y1, y2, y3, y4, m1, m2, d1, d2] \<and> a = CHR ''-'' \<and> b = CHR ''-''
          then map_option
                 (\<lambda>(hr, mr, sr, fr).
                    \<lparr>yearRaw = [y1, y2, y3, y4], monthRaw = [m1, m2], dayRaw = [d1, d2],
                     hourRaw = hr, minuteRaw = mr, secondRaw = sr, millisecondRaw = fr\<rparr>)
                 (match_time rest)
          else None
      | _ \<Rightarrow> None)"

text \<open>\<^verbatim>\<open>raw ? Number(raw) : 0\<close>; a group that took part is never empty.\<close>

definition Number_or_zero :: "string option \<Rightarrow> int" where
  "Number_or_zero raw = (case raw of None \<Rightarrow> 0 | Some r \<Rightarrow> Number_of r)"

text \<open>\<^verbatim>\<open>millisecondRaw ? Number(millisecondRaw.padEnd(3, "0")) : 0\<close>\<close>

definition millisecond_of :: "string option \<Rightarrow> int" where
  "millisecond_of raw =
     (case raw of None \<Rightarrow> 0
      | Some r \<Rightarrow> Number_of (r @ replicate (3 - length r) CHR ''0''))"

text \<open>
  \<^verbatim>\<open>assertValidLocalDateTime\<close>. The \<^verbatim>\<open>Number.isInteger\<close> tests hold for every value that
  \<^verbatim>\<open>Number\<close> makes of a digit string, so they are not a branch here.
\<close>

definition assertValidLocalDateTime :: "TimeParts \<Rightarrow> int \<Rightarrow> string \<Rightarrow> error + unit" where
  "assertValidLocalDateTime parts millisecond originalInput =
     (if month parts < 1 \<or> month parts > 12 then Inl (InvalidMonth originalInput)
      else if day parts < 1 \<or> day parts > 31 then Inl (InvalidDay originalInput)
      else if hour parts < 0 \<or> hour parts > 23 then Inl (InvalidHour originalInput)
      else if minute parts < 0 \<or> minute parts > 59 then Inl (InvalidMinute originalInput)
      else if second parts < 0 \<or> second parts > 59 then Inl (InvalidSecond originalInput)
      else if millisecond < 0 \<or> millisecond > 999 then Inl (InvalidMilliseconds originalInput)
      else
        (let utcCheck = Date_UTC (year parts) (month parts - 1) (day parts) (hour parts)
                          (minute parts) (second parts) millisecond
         in if YearFromTime utcCheck \<noteq> year parts
               \<or> MonthFromTime utcCheck + 1 \<noteq> month parts
               \<or> DateFromTime utcCheck \<noteq> day parts
               \<or> HourFromTime utcCheck \<noteq> hour parts
               \<or> MinFromTime utcCheck \<noteq> minute parts
               \<or> SecFromTime utcCheck \<noteq> second parts
               \<or> msFromTime utcCheck \<noteq> millisecond
            then Inl (InvalidDateTime originalInput)
            else Inr ()))"

section \<open>toISOString\<close>

definition digit_char :: "int \<Rightarrow> char" where
  "digit_char n = ''0123456789'' ! nat (n mod 10)"

definition pad2 :: "int \<Rightarrow> string" where
  "pad2 n = [digit_char (n div 10), digit_char n]"

definition pad3 :: "int \<Rightarrow> string" where
  "pad3 n = [digit_char (n div 100), digit_char (n div 10), digit_char n]"

definition pad4 :: "int \<Rightarrow> string" where
  "pad4 n = [digit_char (n div 1000), digit_char (n div 100), digit_char (n div 10), digit_char n]"

definition pad6 :: "int \<Rightarrow> string" where
  "pad6 n = [digit_char (n div 100000), digit_char (n div 10000)] @ pad4 n"

text \<open>
  The text of a valid time value: \<^verbatim>\<open>YYYY-MM-DDTHH:mm:ss.sssZ\<close>, with a sign and six digits
  for a year outside 0..9999.
\<close>

definition iso_text :: "int \<Rightarrow> string" where
  "iso_text t =
     (let y = YearFromTime t
      in (if 0 \<le> y \<and> y \<le> 9999 then pad4 y
          else (if y < 0 then ''-'' else ''+'') @ pad6 \<bar>y\<bar>)
         @ ''-'' @ pad2 (MonthFromTime t + 1) @ ''-'' @ pad2 (DateFromTime t)
         @ ''T'' @ pad2 (HourFromTime t) @ '':'' @ pad2 (MinFromTime t)
         @ '':'' @ pad2 (SecFromTime t) @ ''.'' @ pad3 (msFromTime t) @ ''Z'')"

text \<open>
  A \<^verbatim>\<open>Date\<close> whose time value left the range of TimeClip is invalid, and
  \<^verbatim>\<open>toISOString\<close> throws a RangeError on it.
\<close>

definition valid_time :: "int \<Rightarrow> bool" where
  "valid_time t = (\<bar>t\<bar> \<le> 8640000000000000)"

definition toISOString :: "int \<Rightarrow> error + string" where
  "toISOString t = (if valid_time t then Inr (iso_text t) else Inl RangeError)"

section \<open>The environment of a call\<close>

text \<open>
  What \<^verbatim>\<open>parseDeadline\<close> reads besides its arguments: the clock (\<^verbatim>\<open>new Date()\<close>), the time zone
  of the executing machine (its offset at an instant, the instant of a local time value as
  the \<^verbatim>\<open>Date\<close> constructor and \<^verbatim>\<open>setDate\<close> compute it, and its name as
  \<^verbatim>\<open>Intl.DateTimeFormat().resolvedOptions().timeZone\<close> reports it), the variable
  \<^verbatim>\<open>MCP_DEFAULT_TIMEZONE\<close>, the cached account time zone, the zones the platform knows by
  name, and the engine's parser behind \<^verbatim>\<open>new Date(string)\<close> (\<open>None\<close> for an invalid date).
\<close>

record env =
  now :: int
  host_offset :: zone
  host_utc :: "int \<Rightarrow> int"
  host_zone_name :: string
  MCP_DEFAULT_TIMEZONE :: "string option"
  cachedAccountTimeZone :: "string option"
  tzdb :: "string \<Rightarrow> zone option"
  Date_parse :: "string \<Rightarrow> int option"

definition resolveTimeZone :: "env \<Rightarrow> string option \<Rightarrow> string" where
  "resolveTimeZone e tz =
     (if truthy tz \<and> length (trim (the tz)) > 0 then trim (the tz)
      else if truthy (MCP_DEFAULT_TIMEZONE e) then the (MCP_DEFAULT_TIMEZONE e)
      else if truthy (cachedAccountTimeZone e) then the (cachedAccountTimeZone e)
      else host_zone_name e)"

definition assertValidTimeZone :: "env \<Rightarrow> string \<Rightarrow> error + zone" where
  "assertValidTimeZone e tz =
     (case tzdb e tz of None \<Rightarrow> Inl (InvalidTimeZone tz) | Some z \<Rightarrow> Inr z)"

text \<open>
  \<^verbatim>\<open>d.setDate(d.getDate() + n)\<close> on a \<^verbatim>\<open>Date\<close> with time value \<open>t\<close>: the day of the month is
  read and written in the machine's local time.
\<close>

definition LocalTime :: "env \<Rightarrow> int \<Rightarrow> int" where
  "LocalTime e t = t + host_offset e t"

definition getDate :: "env \<Rightarrow> int \<Rightarrow> int" where
  "getDate e t = DateFromTime (LocalTime e t)"

definition setDate :: "env \<Rightarrow> int \<Rightarrow> int \<Rightarrow> int" where
  "setDate e t dt =
     (let lt = LocalTime e t;
          newDate = MakeDate (MakeDay (YearFromTime lt) (MonthFromTime lt) dt) (TimeWithinDay lt)
      in host_utc e newDate)"

text \<open>\<^verbatim>\<open>new Date(year, month, day, hours, minutes, seconds, ms)\<close>, in local time.\<close>

definition Date_local :: "env \<Rightarrow> int \<Rightarrow> int \<Rightarrow> int \<Rightarrow> int \<Rightarrow> int \<Rightarrow> int \<Rightarrow> int \<Rightarrow> int" where
  "Date_local e y m dt h mi s milli =
     (let yr = (if 0 \<le> y \<and> y \<le> 99 then 1900 + y else y)
      in host_utc e (MakeDate (MakeDay yr m dt) (MakeTime h mi s milli)))"

section \<open>parseDeadline\<close>

text \<open>The branch for a string that matched \<^verbatim>\<open>LOCAL_DATETIME_REGEX\<close>.\<close>

definition parse_local :: "env \<Rightarrow> string \<Rightarrow> local_match \<Rightarrow> string option \<Rightarrow> error + string" where
  "parse_local e deadlineInput m tzopt =
     (let y = Number_of (yearRaw m);
          mo = Number_of (monthRaw m);
          d = Number_of (dayRaw m);
          h = Number_or_zero (hourRaw m);
          mi = Number_or_zero (minuteRaw m);
          s = Number_or_zero (secondRaw m);
          ms = millisecond_of (millisecondRaw m)
      in and_then
           (assertValidLocalDateTime
              \<lparr>year = y, month = mo, day = d, hour = h, minute = mi, second = s\<rparr> ms
              deadlineInput)
           (\<lambda>_. let tzname = resolveTimeZone e tzopt
                in if tzname \<noteq> []
                   then and_then (assertValidTimeZone e tzname)
                          (\<lambda>z. toISOString (zonedTimeToUtc y mo d h mi s ms z))
                   else (let localDate = Date_local e y (mo - 1) d h mi s ms
                         in if \<not> valid_time localDate then Inl (InvalidDateFormat deadlineInput)
                            else toISOString localDate)))"

text \<open>\<^verbatim>\<open>new Date(trimmed)\<close>, the \<^verbatim>\<open>isNaN\<close> test and \<^verbatim>\<open>toISOString\<close>.\<close>

definition parse_with_engine :: "env \<Rightarrow> string \<Rightarrow> string \<Rightarrow> error + string" where
  "parse_with_engine e deadlineInput trimmed =
     (case Date_parse e trimmed of
        None \<Rightarrow> Inl (InvalidDateFormat deadlineInput)
      | Some t \<Rightarrow> toISOString t)"

definition parseDeadline :: "env \<Rightarrow> time_input option \<Rightarrow> string option \<Rightarrow> error + string" where
  "parseDeadline e deadlineInput tzopt =
     (case deadlineInput of
        Some (Days n) \<Rightarrow>
          if n \<le> 0 then toISOString (now e)
          else toISOString (setDate e (now e) (getDate e (now e) + n))
      | Some (DateStr str) \<Rightarrow>
          (let trimmed = trim str
           in if HAS_TIMEZONE_REGEX_test trimmed then parse_with_engine e str trimmed
              else (case LOCAL_DATETIME_REGEX_match trimmed of
                      Some m \<Rightarrow> parse_local e str m tzopt
                    | None \<Rightarrow> parse_with_engine e str trimmed))
      | None \<Rightarrow> toISOString (setDate e (now e) (getDate e (now e) + 1)))"

section \<open>The payloads of createTask, createTaskAtTime and updateTask\<close>

text \<open>
  Each function is modelled up to the HTTP request: the result is the payload it would send, or
  the error thrown before. The account defaults and the cached account time zone are what the
  two fetches left behind (\<open>None\<close> when they failed).
\<close>

text \<open>\<^verbatim>\<open>!apiPayload.due\<close>\<close>

definition falsy_time :: "time_input option \<Rightarrow> bool" where
  "falsy_time v =
     (case v of None \<Rightarrow> True | Some (Days n) \<Rightarrow> n = 0 | Some (DateStr s) \<Rightarrow> s = [])"

definition resolvedTimeZone_of :: "env \<Rightarrow> string option \<Rightarrow> string option" where
  "resolvedTimeZone_of e tzarg =
     nullish tzarg (nullish (MCP_DEFAULT_TIMEZONE e) (cachedAccountTimeZone e))"

text \<open>\<^verbatim>\<open>if (apiPayload.due !== undefined) apiPayload.due = parseDeadline(apiPayload.due, ...)\<close>\<close>

definition normalize_due ::
  "env \<Rightarrow> string option \<Rightarrow> 'a TaskInputData_scheme \<Rightarrow> error + 'a TaskInputData_scheme" where
  "normalize_due e tz p =
     (case due p of
        None \<Rightarrow> Inr p
      | Some v \<Rightarrow> and_then (parseDeadline e (Some v) tz) (\<lambda>s. Inr (p\<lparr>due := Some (DateStr s)\<rparr>)))"

definition normalize_snooze ::
  "env \<Rightarrow> string option \<Rightarrow> 'a TaskInputData_scheme \<Rightarrow> error + 'a TaskInputData_scheme" where
  "normalize_snooze e tz p =
     (case snoozeUntil p of
        None \<Rightarrow> Inr p
      | Some v \<Rightarrow> and_then (parseDeadline e (Some v) tz)
                   (\<lambda>s. Inr (p\<lparr>snoozeUntil := Some (DateStr s)\<rparr>)))"

text \<open>The deadline, when present, becomes \<^verbatim>\<open>due\<close> and is deleted.\<close>

definition deadline_to_due ::
  "env \<Rightarrow> string option \<Rightarrow> 'a TaskInputData_scheme \<Rightarrow> time_input
     \<Rightarrow> error + 'a TaskInputData_scheme" where
  "deadline_to_due e tz p v =
     and_then (parseDeadline e (Some v) tz)
       (\<lambda>s. Inr (p\<lparr>due := Some (DateStr s), deadline := None\<rparr>))"

definition validated :: "'a TaskInputData_scheme \<Rightarrow> error + 'a TaskInputData_scheme" where
  "validated p = and_then (validateChunkSizes p) (\<lambda>_. Inr p)"

text \<open>
  The middle step of \<^verbatim>\<open>createTask\<close>: a deadline becomes \<^verbatim>\<open>due\<close>; otherwise a missing \<^verbatim>\<open>due\<close> is
  filled from the account's \<^verbatim>\<open>dueInDays\<close>, or with the default of \<^verbatim>\<open>parseDeadline\<close>.
\<close>

definition ensure_due ::
  "env \<Rightarrow> string option \<Rightarrow> TaskDefaults option \<Rightarrow> 'a TaskInputData_scheme
     \<Rightarrow> error + 'a TaskInputData_scheme" where
  "ensure_due e tz defaults p =
     (case deadline p of
        Some v \<Rightarrow> deadline_to_due e tz p v
      | None \<Rightarrow>
          if falsy_time (due p)
          then and_then
                 (parseDeadline e
                    (if positive_number (opt_field dueInDays_default defaults)
                     then Some (Days (the (opt_field dueInDays_default defaults)))
                     else None) tz)
                 (\<lambda>s. Inr (p\<lparr>due := Some (DateStr s)\<rparr>))
          else Inr p)"

definition createTask ::
  "env \<Rightarrow> 'a TaskInputData_scheme \<Rightarrow> string option \<Rightarrow> TaskDefaults option
     \<Rightarrow> error + 'a TaskInputData_scheme" where
  "createTask e taskData tzarg defaults =
     (let tz = resolvedTimeZone_of e tzarg;
          normalizedInput = applyTaskDefaultsForCreate taskData defaults
      in and_then (normalize_due e tz normalizedInput) (\<lambda>p1.
         and_then (ensure_due e tz defaults p1) (\<lambda>p2.
         and_then (normalize_snooze e tz p2) validated)))"

definition addMinutes :: "int \<Rightarrow> int \<Rightarrow> int" where
  "addMinutes base minutes = base + minutes * 60000"

definition addDays :: "int \<Rightarrow> int \<Rightarrow> int" where
  "addDays base days = addMinutes base (days * 1440)"

definition deriveDefaultDue :: "int \<Rightarrow> TaskDefaults option \<Rightarrow> int" where
  "deriveDefaultDue base defaults =
     (if positive_number (opt_field dueInDays_default defaults)
      then addDays base (the (opt_field dueInDays_default defaults))
      else addDays base 1)"

text \<open>
  \<^verbatim>\<open>createTaskAtTime\<close>. \<^verbatim>\<open>new Date(startTimeIso)\<close> is the engine's parser again, on the text
  \<^verbatim>\<open>toISOString\<close> made. The result is the start time and the payload.
\<close>

definition ensure_due_at_time ::
  "env \<Rightarrow> string option \<Rightarrow> TaskDefaults option \<Rightarrow> string \<Rightarrow> 'a TaskInputData_scheme
     \<Rightarrow> error + 'a TaskInputData_scheme" where
  "ensure_due_at_time e tz defaults startTimeIso p =
     (case deadline p of
        Some v \<Rightarrow> deadline_to_due e tz p v
      | None \<Rightarrow>
          if falsy_time (due p)
          then and_then
                 (toISOString
                    (case Date_parse e startTimeIso of
                       Some startTimeDate \<Rightarrow>
                         if positive_number (timeChunksRequired p)
                         then addMinutes startTimeDate (the (timeChunksRequired p) * 15)
                         else deriveDefaultDue startTimeDate defaults
                     | None \<Rightarrow> deriveDefaultDue (now e) defaults))
                 (\<lambda>s. Inr (p\<lparr>due := Some (DateStr s)\<rparr>))
          else Inr p)"

definition createTaskAtTime ::
  "env \<Rightarrow> string \<Rightarrow> 'a TaskInputData_scheme \<Rightarrow> string option \<Rightarrow> TaskDefaults option
     \<Rightarrow> error + (string \<times> 'a TaskInputData_scheme)" where
  "createTaskAtTime e start taskData tzarg defaults =
     (let tz = resolvedTimeZone_of e tzarg;
          normalizedInput = applyTaskDefaultsForCreate taskData defaults
      in and_then (parseDeadline e (Some (DateStr start)) tz) (\<lambda>startTimeIso.
         and_then (normalize_due e tz normalizedInput) (\<lambda>p1.
         and_then (ensure_due_at_time e tz defaults startTimeIso p1) (\<lambda>p2.
         and_then (normalize_snooze e tz p2) (\<lambda>p3.
         and_then (validated p3) (\<lambda>p4. Inr (startTimeIso, p4)))))))"

text \<open>In \<^verbatim>\<open>updateTask\<close> a deadline becomes \<^verbatim>\<open>due\<close> too, but a missing \<^verbatim>\<open>due\<close> stays missing.\<close>

definition rename_deadline ::
  "env \<Rightarrow> string option \<Rightarrow> 'a TaskInputData_scheme \<Rightarrow> error + 'a TaskInputData_scheme" where
  "rename_deadline e tz p =
     (case deadline p of Some v \<Rightarrow> deadline_to_due e tz p v | None \<Rightarrow> Inr p)"

definition updateTask ::
  "env \<Rightarrow> 'a TaskInputData_scheme \<Rightarrow> string option \<Rightarrow> TaskDefaults option
     \<Rightarrow> error + 'a TaskInputData_scheme" where
  "updateTask e taskData tzarg defaults =
     (let tz = resolvedTimeZone_of e tzarg;
          apiPayload = normalizeTaskPatch taskData defaults
      in and_then (normalize_due e tz apiPayload) (\<lambda>p1.
         and_then (rename_deadline e tz p1) (\<lambda>p2.
         and_then (normalize_snooze e tz p2) validated)))"

section \<open>The tool handlers (tools/taskCrud.ts)\<close>

text \<open>
  \<^verbatim>\<open>reclaim_create_task\<close> and \<^verbatim>\<open>reclaim_update_task\<close>: the start time and the two time-zone
  arguments are taken out of the parameters, the rest is normalized and handed to the
  client. The update tool refuses an input that normalizes to an object without keys.
\<close>

definition no_keys :: "TaskToolInput \<Rightarrow> bool" where
  "no_keys p = (p = emptyInput)"

datatype 'a tool_result = Created 'a | CreatedAtTime string 'a | Updated 'a

definition reclaim_create_task ::
  "env \<Rightarrow> TaskToolInput \<Rightarrow> TaskDefaults option \<Rightarrow> error + TaskToolInput tool_result" where
  "reclaim_create_task e params defaults =
     (let taskData = params\<lparr>startTime := None, timeZone := None, timezone := None\<rparr>;
          resolvedTimeZone = nullish (timeZone params) (timezone params)
      in and_then (normalizeChunkInputs taskData) (\<lambda>normalized.
           if truthy (startTime params)
           then and_then (createTaskAtTime e (the (startTime params)) normalized
                            resolvedTimeZone defaults)
                  (\<lambda>(st, p). Inr (CreatedAtTime st p))
           else and_then (createTask e normalized resolvedTimeZone defaults)
                  (\<lambda>p. Inr (Created p))))"

definition reclaim_update_task ::
  "env \<Rightarrow> TaskToolInput \<Rightarrow> TaskDefaults option \<Rightarrow> error + TaskToolInput tool_result" where
  "reclaim_update_task e params defaults =
     (let updateData = params\<lparr>timeZone := None, timezone := None\<rparr>;
          resolvedTimeZone = nullish (timeZone params) (timezone params)
      in and_then (normalizeChunkInputs updateData) (\<lambda>normalized.
           if no_keys normalized then Inl NothingToUpdate
           else and_then (updateTask e normalized resolvedTimeZone defaults)
                  (\<lambda>p. Inr (Updated p))))"

section \<open>Auxiliary notions for the statements below\<close>

text \<open>A minute value that is present and not a multiple of 15.\<close>

definition bad_minutes :: "int option \<Rightarrow> bool" where
  "bad_minutes v = (case v of None \<Rightarrow> False | Some m \<Rightarrow> \<not> 15 dvd m)"

text \<open>The chunk count a field ends with: converted from the minutes when they are given.\<close>

definition chunks_of :: "int option \<Rightarrow> int option \<Rightarrow> int option" where
  "chunks_of minutes chunks = (case minutes of None \<Rightarrow> chunks | Some m \<Rightarrow> Some (m div 15))"

text \<open>Calendar components that name a real date and time of day (month 1..12).\<close>

definition valid_civil :: "int \<Rightarrow> int \<Rightarrow> int \<Rightarrow> int \<Rightarrow> int \<Rightarrow> int \<Rightarrow> int \<Rightarrow> bool" where
  "valid_civil y mo d h mi s ms =
     (1 \<le> mo \<and> mo \<le> 12 \<and> 1 \<le> d \<and> d \<le> days_in_month y mo \<and> 0 \<le> h \<and> h \<le> 23
      \<and> 0 \<le> mi \<and> mi \<le> 59 \<and> 0 \<le> s \<and> s \<le> 59 \<and> 0 \<le> ms \<and> ms \<le> 999)"

text \<open>The error \<^verbatim>\<open>assertValidLocalDateTime\<close> throws for components that are not valid.\<close>

definition invalid_error :: "int \<Rightarrow> int \<Rightarrow> int \<Rightarrow> int \<Rightarrow> int \<Rightarrow> int \<Rightarrow> string \<Rightarrow> error" where
  "invalid_error mo d h mi s ms str =
     (if mo < 1 \<or> mo > 12 then InvalidMonth str
      else if d < 1 \<or> d > 31 then InvalidDay str
      else if h < 0 \<or> h > 23 then InvalidHour str
      else if mi < 0 \<or> mi > 59 then InvalidMinute str
      else if s < 0 \<or> s > 59 then InvalidSecond str
      else if ms < 0 \<or> ms > 999 then InvalidMilliseconds str
      else InvalidDateTime str)"

text \<open>A create call that locks a one-hour task and also passes other bounds.\<close>

definition lockedInput :: TaskToolInput where
  "lockedInput = emptyInput\<lparr>title := Some ''Write report'', durationMinutes := Some 60,
     minChunkSize := Some 1, maxDurationMinutes := Some 30,
     lockChunkSizeToDuration := Some True\<rparr>"

text \<open>Failing with the error of \<^verbatim>\<open>validateChunkSizes\<close>.\<close>

definition is_conflict :: "error \<Rightarrow> bool" where
  "is_conflict err = (case err of ChunkSizeConflict a b \<Rightarrow> True | _ \<Rightarrow> False)"

definition fails_with_conflict :: "error + 'a \<Rightarrow> bool" where
  "fails_with_conflict r = (case r of Inl err \<Rightarrow> is_conflict err | Inr x \<Rightarrow> False)"

text \<open>The two bounds are in order when both are present.\<close>

definition bounds_ordered :: "'a TaskInputData_scheme \<Rightarrow> bool" where
  "bounds_ordered p =
     (case (minChunkSize p, maxChunkSize p) of (Some a, Some b) \<Rightarrow> a \<le> b | _ \<Rightarrow> True)"

text \<open>The payload inside the result of a tool.\<close>

definition payload_of :: "'a tool_result \<Rightarrow> 'a" where
  "payload_of r = (case r of Created p \<Rightarrow> p | CreatedAtTime st p \<Rightarrow> p | Updated p \<Rightarrow> p)"

text \<open>The create call of the example: a minimum of 60 minutes and a maximum of 30.\<close>

definition conflictInput :: TaskToolInput where
  "conflictInput = emptyInput\<lparr>title := Some ''Plan'', minDurationMinutes := Some 60,
     maxDurationMinutes := Some 30\<rparr>"

text \<open>The names of the fields that are present in a payload, as its keys.\<close>

definition present_fields :: "'a TaskInputData_scheme \<Rightarrow> string list" where
  "present_fields p =
     map fst (filter snd
       [(''title'', title p \<noteq> None), (''notes'', notes_field p \<noteq> None),
        (''eventCategory'', eventCategory p \<noteq> None), (''eventSubType'', eventSubType p \<noteq> None),
        (''priority'', priority p \<noteq> None),
        (''timeChunksRequired'', timeChunksRequired p \<noteq> None),
        (''minChunkSize'', minChunkSize p \<noteq> None), (''maxChunkSize'', maxChunkSize p \<noteq> None),
        (''onDeck'', onDeck p \<noteq> None), (''alwaysPrivate'', alwaysPrivate p \<noteq> None),
        (''timeSchemeId'', timeSchemeId p \<noteq> None), (''status'', status p \<noteq> None),
        (''deadline'', deadline p \<noteq> None), (''snoozeUntil'', snoozeUntil p \<noteq> None),
        (''eventColor'', eventColor p \<noteq> None), (''due'', due p \<noteq> None)])"

section \<open>Concrete zones and a concrete environment\<close>

text \<open>
  America/Los_Angeles around 2026: UTC-8 until 2026-03-08T10:00:00Z, UTC-7 until
  2026-11-01T09:00:00Z, UTC-8 after (right between the transitions of November 2025 and
  March 2027).
\<close>

definition tz_Los_Angeles :: zone where
  "tz_Los_Angeles t =
     (if t < 1772964000000 then - 28800000
      else if t < 1793523600000 then - 25200000
      else - 28800000)"

text \<open>
  Antarctica/Troll around 2026: UTC+0 until 2026-03-29T01:00:00Z, UTC+2 until
  2026-10-25T01:00:00Z, UTC+0 after. Its clocks go back by two hours.
\<close>

definition tz_Troll :: zone where
  "tz_Troll t =
     (if t < 1774746000000 then 0
      else if t < 1792890000000 then 7200000
      else 0)"

definition tz_UTC :: zone where
  "tz_UTC t = 0"

definition sample_tzdb :: "string \<Rightarrow> zone option" where
  "sample_tzdb name =
     (if name = ''America/Los_Angeles'' then Some tz_Los_Angeles
      else if name = ''Antarctica/Troll'' then Some tz_Troll
      else if name = ''UTC'' then Some tz_UTC
      else None)"

text \<open>
  A sample of the engine's \<^verbatim>\<open>new Date(string)\<close> for the sample environments below. It reads
  the strings of the ECMAScript date-time format with a four-digit year and at least hours and
  minutes that carry \<^verbatim>\<open>Z\<close>, \<^verbatim>\<open>z\<close> or an offset \<^verbatim>\<open>+hh:mm\<close> / \<^verbatim>\<open>-hh:mm\<close> of at most 23:59. As the
  engine does, it takes a day up to 31 in any month and lets \<^verbatim>\<open>MakeDay\<close> carry the excess into
  the next month. Every other string is an invalid date for it; expanded years and the hour
  24 are among them, so the sample is narrower than the engine there. The theorems about
  \<^verbatim>\<open>parseDeadline\<close> do not depend on it: they take the parser as a parameter of the
  environment.
\<close>

definition iso_offset :: "string \<Rightarrow> (string \<times> int) option" where
  "iso_offset s =
     (case rev s of
        [] \<Rightarrow> None
      | c # r \<Rightarrow>
          if c = CHR ''Z'' \<or> c = CHR ''z'' then Some (rev r, 0)
          else (case r of
                  d3 # col # d2 # d1 # sg # body \<Rightarrow>
                    if is_digit c \<and> is_digit d3 \<and> col = CHR '':'' \<and> is_digit d2 \<and> is_digit d1
                       \<and> (sg = CHR ''+'' \<or> sg = CHR ''-'')
                       \<and> Number_of [d1, d2] \<le> 23 \<and> Number_of [d3, c] \<le> 59
                    then Some (rev body,
                           (if sg = CHR ''-'' then - 1 else 1)
                             * (Number_of [d1, d2] * 3600000 + Number_of [d3, c] * 60000))
                    else None
                | _ \<Rightarrow> None))"

definition Date_parse_iso :: "string \<Rightarrow> int option" where
  "Date_parse_iso s =
     (case iso_offset s of
        None \<Rightarrow> None
      | Some (body, off) \<Rightarrow>
          (case LOCAL_DATETIME_REGEX_match body of
             None \<Rightarrow> None
           | Some m \<Rightarrow>
               (let y = Number_of (yearRaw m); mo = Number_of (monthRaw m);
                    d = Number_of (dayRaw m); h = Number_or_zero (hourRaw m);
                    mi = Number_or_zero (minuteRaw m); sc = Number_or_zero (secondRaw m);
                    ms = millisecond_of (millisecondRaw m)
                in if minuteRaw m = None \<or> mo < 1 \<or> mo > 12 \<or> d < 1 \<or> d > 31
                      \<or> h > 23 \<or> mi > 59 \<or> sc > 59
                   then None
                   else Some (MakeDate (MakeDay y (mo - 1) d) (MakeTime h mi sc ms) - off))))"

text \<open>
  A server whose own zone is UTC, at 2026-03-07T20:00:00Z, with no default zone configured,
  and the same machine running in America/Los_Angeles instead. In the second, a local time
  value stands for the instant the earlier of the two offsets gives, when that instant shows
  this local time, and for the instant the other offset gives otherwise.
\<close>

definition utc_env :: env where
  "utc_env =
     \<lparr>now = 1772913600000, host_offset = tz_UTC, host_utc = (\<lambda>t. t),
      host_zone_name = ''UTC'', MCP_DEFAULT_TIMEZONE = None, cachedAccountTimeZone = None,
      tzdb = sample_tzdb, Date_parse = Date_parse_iso\<rparr>"

definition Los_Angeles_utc :: "int \<Rightarrow> int" where
  "Los_Angeles_utc lt =
     (if tz_Los_Angeles (lt + 25200000) = - 25200000 then lt + 25200000 else lt + 28800000)"

definition la_env :: env where
  "la_env =
     utc_env\<lparr>host_offset := tz_Los_Angeles, host_utc := Los_Angeles_utc,
             host_zone_name := ''America/Los_Angeles''\<rparr>"

text \<open>
  The list \<^verbatim>\<open>candidates\<close> of \<^verbatim>\<open>zonedTimeToUtc\<close> for a guess: one candidate for each offset
  the probes found.
\<close>

definition candidates_of :: "int \<Rightarrow> zone \<Rightarrow> (int \<times> TimeParts) list" where
  "candidates_of utcGuessMillis tz =
     map (candidate_of utcGuessMillis tz) (candidate_offsets utcGuessMillis tz)"

text \<open>
  What a text of the form \<^verbatim>\<open>YYYY-MM-DDTHH:mm:ss.sssZ\<close> denotes: the time value of its calendar
  fields, read as UTC. The year is four digits, or a sign and six digits (the expanded years);
  fields that name no date or time of day denote nothing.
\<close>

definition digits_value :: "string \<Rightarrow> int option" where
  "digits_value ds = (if ds \<noteq> [] \<and> list_all is_digit ds then Some (Number_of ds) else None)"

definition iso_tail_fields :: "string \<Rightarrow> (int \<times> int \<times> int \<times> int \<times> int \<times> int) option" where
  "iso_tail_fields r =
     (if length r = 20 \<and> r ! 0 = CHR ''-'' \<and> r ! 3 = CHR ''-'' \<and> r ! 6 = CHR ''T''
         \<and> r ! 9 = CHR '':'' \<and> r ! 12 = CHR '':'' \<and> r ! 15 = CHR ''.'' \<and> r ! 19 = CHR ''Z''
      then (case (digits_value (take 2 (drop 1 r)), digits_value (take 2 (drop 4 r)),
                  digits_value (take 2 (drop 7 r)), digits_value (take 2 (drop 10 r)),
                  digits_value (take 2 (drop 13 r)), digits_value (take 3 (drop 16 r))) of
              (Some mo, Some d, Some h, Some mi, Some sc, Some ms) \<Rightarrow> Some (mo, d, h, mi, sc, ms)
            | _ \<Rightarrow> None)
      else None)"

definition instant_of_iso_text :: "string \<Rightarrow> int option" where
  "instant_of_iso_text s =
     (let expanded = (s \<noteq> [] \<and> (hd s = CHR ''+'' \<or> hd s = CHR ''-''));
          negative = (s \<noteq> [] \<and> hd s = CHR ''-'');
          digits = (if expanded then take 6 (tl s) else take 4 s);
          rest = (if expanded then drop 7 s else drop 4 s)
      in case (digits_value digits, iso_tail_fields rest) of
           (Some y0, Some (mo, d, h, mi, sc, ms)) \<Rightarrow>
             (let y = (if negative then - y0 else y0)
              in if length digits = (if expanded then 6 else 4)
                    \<and> valid_civil y mo d h mi sc ms
                 then Some (MakeDate (MakeDay y (mo - 1) d) (MakeTime h mi sc ms))
                 else None)
         | _ \<Rightarrow> None)"

section \<open>Properties of the chunk normalization\<close>

lemma and_then_Inr [simp]: "and_then (Inr x) f = f x"
  by (simp add: and_then_def)

lemma and_then_Inl [simp]: "and_then (Inl e) f = Inl e"
  by (simp add: and_then_def)

lemma minutesToChunks_eq:
  "minutesToChunks v f = (if 15 dvd v then Inr (v div 15) else Inl (NotMultipleOfChunk f v))"
  by (simp add: minutesToChunks_def CHUNK_MINUTES_def dvd_eq_mod_eq_0)

text \<open>The whole of \<^verbatim>\<open>normalizeChunkInputs\<close> as one case table.\<close>

lemma convert_duration_eq:
  "convert_duration d =
     (if bad_minutes (durationMinutes d)
      then Inl (NotMultipleOfChunk ''durationMinutes'' (the (durationMinutes d)))
      else Inr (d\<lparr>timeChunksRequired := chunks_of (durationMinutes d) (timeChunksRequired d)\<rparr>))"
  by (cases "durationMinutes d")
     (simp_all add: convert_duration_def bad_minutes_def chunks_of_def minutesToChunks_eq)

lemma convert_min_eq:
  "convert_min d =
     (if bad_minutes (minDurationMinutes d)
      then Inl (NotMultipleOfChunk ''minDurationMinutes'' (the (minDurationMinutes d)))
      else Inr (d\<lparr>minChunkSize := chunks_of (minDurationMinutes d) (minChunkSize d)\<rparr>))"
  by (cases "minDurationMinutes d")
     (simp_all add: convert_min_def bad_minutes_def chunks_of_def minutesToChunks_eq)

lemma convert_max_eq:
  "convert_max d =
     (if bad_minutes (maxDurationMinutes d)
      then Inl (NotMultipleOfChunk ''maxDurationMinutes'' (the (maxDurationMinutes d)))
      else Inr (d\<lparr>maxChunkSize := chunks_of (maxDurationMinutes d) (maxChunkSize d)\<rparr>))"
  by (cases "maxDurationMinutes d")
     (simp_all add: convert_max_def bad_minutes_def chunks_of_def minutesToChunks_eq)

lemma normalizeChunkInputs_eq:
  "normalizeChunkInputs d =
     (if bad_minutes (durationMinutes d)
      then Inl (NotMultipleOfChunk ''durationMinutes'' (the (durationMinutes d)))
      else if bad_minutes (minDurationMinutes d)
      then Inl (NotMultipleOfChunk ''minDurationMinutes'' (the (minDurationMinutes d)))
      else if bad_minutes (maxDurationMinutes d)
      then Inl (NotMultipleOfChunk ''maxDurationMinutes'' (the (maxDurationMinutes d)))
      else (let t = chunks_of (durationMinutes d) (timeChunksRequired d);
                mn = chunks_of (minDurationMinutes d) (minChunkSize d);
                mx = chunks_of (maxDurationMinutes d) (maxChunkSize d)
            in if lockChunkSizeToDuration d = Some True
               then (if t = None then Inl LockRequiresDuration
                     else Inr (delete_tool_fields
                            (d\<lparr>timeChunksRequired := t, minChunkSize := t, maxChunkSize := t\<rparr>)))
               else Inr (delete_tool_fields
                      (d\<lparr>timeChunksRequired := t, minChunkSize := mn, maxChunkSize := mx\<rparr>))))"
  by (cases "chunks_of (durationMinutes d) (timeChunksRequired d)")
     (simp_all add: normalizeChunkInputs_def convert_duration_eq convert_min_eq convert_max_eq
       apply_lock_def Let_def)

lemma delete_tool_fields_chunks [simp]:
  "timeChunksRequired (delete_tool_fields d) = timeChunksRequired d"
  "minChunkSize (delete_tool_fields d) = minChunkSize d"
  "maxChunkSize (delete_tool_fields d) = maxChunkSize d"
  by (simp_all add: delete_tool_fields_def)

text \<open>
  Claim C6. For each of the three minute fields: a value that is a multiple of 15 converts to
  exactly value/15 chunks, and a value that is not makes the conversion, and with it the whole
  normalization, fail with the multiple-of-15 error; nothing is rounded or truncated. When the
  normalization succeeds, every minute field that was given is a multiple of 15 and its chunk
  field holds the exact quotient (the two bounds unless the lock replaces them).
\<close>

theorem minutes_to_chunks_exact_or_rejected:
  "(15 dvd v \<longrightarrow> minutesToChunks v f = Inr (v div 15) \<and> 15 * (v div 15) = v)
   \<and> (\<not> 15 dvd v \<longrightarrow> minutesToChunks v f = Inl (NotMultipleOfChunk f v))
   \<and> ((\<exists>m. (durationMinutes input = Some m \<or> minDurationMinutes input = Some m
             \<or> maxDurationMinutes input = Some m) \<and> \<not> 15 dvd m) \<longrightarrow>
        (\<exists>g m. normalizeChunkInputs input = Inl (NotMultipleOfChunk g m) \<and> \<not> 15 dvd m))
   \<and> (\<forall>d. normalizeChunkInputs input = Inr d \<longrightarrow>
         (\<forall>m. durationMinutes input = Some m \<longrightarrow>
            15 dvd m \<and> timeChunksRequired d = Some (m div 15))
       \<and> (\<forall>m. minDurationMinutes input = Some m \<longrightarrow>
            15 dvd m \<and> (lockChunkSizeToDuration input \<noteq> Some True
                         \<longrightarrow> minChunkSize d = Some (m div 15)))
       \<and> (\<forall>m. maxDurationMinutes input = Some m \<longrightarrow>
            15 dvd m \<and> (lockChunkSizeToDuration input \<noteq> Some True
                         \<longrightarrow> maxChunkSize d = Some (m div 15))))"
proof (intro conjI impI allI)
  assume "15 dvd v"
  then show "minutesToChunks v f = Inr (v div 15)" "15 * (v div 15) = v"
    by (simp_all add: minutesToChunks_eq)
next
  assume "\<not> 15 dvd v"
  then show "minutesToChunks v f = Inl (NotMultipleOfChunk f v)"
    by (simp add: minutesToChunks_eq)
next
  assume "\<exists>m. (durationMinutes input = Some m \<or> minDurationMinutes input = Some m
             \<or> maxDurationMinutes input = Some m) \<and> \<not> 15 dvd m"
  then have bad: "bad_minutes (durationMinutes input) \<or> bad_minutes (minDurationMinutes input)
      \<or> bad_minutes (maxDurationMinutes input)"
    by (auto simp: bad_minutes_def)
  have the_bad: "\<And>x. bad_minutes x \<Longrightarrow> \<not> 15 dvd the x"
    by (simp add: bad_minutes_def split: option.splits)
  show "\<exists>g m. normalizeChunkInputs input = Inl (NotMultipleOfChunk g m) \<and> \<not> 15 dvd m"
  proof (cases "bad_minutes (durationMinutes input)")
    case True
    then show ?thesis using the_bad by (simp add: normalizeChunkInputs_eq)
  next
    case d: False
    show ?thesis
    proof (cases "bad_minutes (minDurationMinutes input)")
      case True
      then show ?thesis using d the_bad by (simp add: normalizeChunkInputs_eq)
    next
      case False
      with d bad have "bad_minutes (maxDurationMinutes input)" by simp
      then show ?thesis using d False the_bad by (simp add: normalizeChunkInputs_eq)
    qed
  qed
next
  fix d m
  assume ok: "normalizeChunkInputs input = Inr d"
  then have good: "\<not> bad_minutes (durationMinutes input)"
     "\<not> bad_minutes (minDurationMinutes input)" "\<not> bad_minutes (maxDurationMinutes input)"
    by (auto simp: normalizeChunkInputs_eq split: if_splits)
  { assume "durationMinutes input = Some m"
    then show "15 dvd m" using good by (simp add: bad_minutes_def)
  next
    assume h: "durationMinutes input = Some m"
    show "timeChunksRequired d = Some (m div 15)"
      using ok good h by (auto simp: normalizeChunkInputs_eq Let_def chunks_of_def split: if_splits)
  next
    assume "minDurationMinutes input = Some m"
    then show "15 dvd m" using good by (simp add: bad_minutes_def)
  next
    assume h: "minDurationMinutes input = Some m" "lockChunkSizeToDuration input \<noteq> Some True"
    show "minChunkSize d = Some (m div 15)"
      using ok good h by (auto simp: normalizeChunkInputs_eq Let_def chunks_of_def split: if_splits)
  next
    assume "maxDurationMinutes input = Some m"
    then show "15 dvd m" using good by (simp add: bad_minutes_def)
  next
    assume h: "maxDurationMinutes input = Some m" "lockChunkSizeToDuration input \<noteq> Some True"
    show "maxChunkSize d = Some (m div 15)"
      using ok good h by (auto simp: normalizeChunkInputs_eq Let_def chunks_of_def split: if_splits)
  }
qed

theorem minutes_to_chunks_witness:
  "minutesToChunks 60 ''durationMinutes'' = Inr 4
   \<and> minutesToChunks 50 ''durationMinutes'' = Inl (NotMultipleOfChunk ''durationMinutes'' 50)
   \<and> (\<exists>g m. normalizeChunkInputs (emptyInput\<lparr>maxDurationMinutes := Some 50\<rparr>)
               = Inl (NotMultipleOfChunk g m))
   \<and> normalizeChunkInputs (emptyInput\<lparr>durationMinutes := Some 60\<rparr>)
        = Inr (emptyInput\<lparr>timeChunksRequired := Some 4\<rparr>)
   \<and> timeChunksRequired (emptyInput\<lparr>timeChunksRequired := Some 4\<rparr>) = Some (60 div 15)"
proof -
  have a: "(15::int) dvd 60" and b: "\<not> (15::int) dvd 50" by simp_all
  have c: "maxDurationMinutes (emptyInput\<lparr>maxDurationMinutes := Some 50\<rparr>) = Some 50" by simp
  have d: "durationMinutes (emptyInput\<lparr>durationMinutes := Some 60\<rparr>) = Some 60" by simp
  have e: "normalizeChunkInputs (emptyInput\<lparr>durationMinutes := Some 60\<rparr>)
        = Inr (emptyInput\<lparr>timeChunksRequired := Some 4\<rparr>)"
    by (simp add: normalizeChunkInputs_eq bad_minutes_def chunks_of_def emptyInput_def
        delete_tool_fields_def)
  note t1 = minutes_to_chunks_exact_or_rejected
    [of 60 "''durationMinutes''" "emptyInput\<lparr>durationMinutes := Some 60\<rparr>"]
  note t2 = minutes_to_chunks_exact_or_rejected
    [of 50 "''durationMinutes''" "emptyInput\<lparr>maxDurationMinutes := Some 50\<rparr>"]
  from t1 a have 1: "minutesToChunks 60 ''durationMinutes'' = Inr 4" by simp
  from t2 b have 2: "minutesToChunks 50 ''durationMinutes''
      = Inl (NotMultipleOfChunk ''durationMinutes'' 50)" by blast
  from t2 b c have 3: "\<exists>g m. normalizeChunkInputs (emptyInput\<lparr>maxDurationMinutes := Some 50\<rparr>)
               = Inl (NotMultipleOfChunk g m)" by blast
  from t1 d e have 4: "timeChunksRequired (emptyInput\<lparr>timeChunksRequired := Some 4\<rparr>)
      = Some (60 div 15)" by blast
  from 1 2 3 4 e show ?thesis by blast
qed

text \<open>
  Claim C10 (as amended). When the lock flag is set and neither \<^verbatim>\<open>timeChunksRequired\<close> nor
  \<^verbatim>\<open>durationMinutes\<close> is given, the normalization always fails and never locks the bounds to a
  defaulted total. The error is the lock error, unless a given \<^verbatim>\<open>minDurationMinutes\<close> or
  \<^verbatim>\<open>maxDurationMinutes\<close> is not a multiple of 15: those conversions run first and their error
  is the one thrown.
\<close>

theorem lock_without_total_fails:
  assumes "lockChunkSizeToDuration input = Some True"
      and "timeChunksRequired input = None"
      and "durationMinutes input = None"
  shows "normalizeChunkInputs input =
           Inl (if (\<exists>v. minDurationMinutes input = Some v \<and> \<not> 15 dvd v)
                then NotMultipleOfChunk ''minDurationMinutes'' (the (minDurationMinutes input))
                else if (\<exists>v. maxDurationMinutes input = Some v \<and> \<not> 15 dvd v)
                then NotMultipleOfChunk ''maxDurationMinutes'' (the (maxDurationMinutes input))
                else LockRequiresDuration)"
proof -
  have b: "\<And>x. (\<exists>v. x = Some v \<and> \<not> 15 dvd v) = bad_minutes x"
    by (auto simp: bad_minutes_def split: option.splits)
  show ?thesis using assms
    by (simp add: normalizeChunkInputs_eq b chunks_of_def bad_minutes_def)
qed

theorem lock_without_total_fails_witness:
  "normalizeChunkInputs (emptyInput\<lparr>lockChunkSizeToDuration := Some True,
       minDurationMinutes := Some 30\<rparr>) = Inl LockRequiresDuration"
proof -
  let ?i = "emptyInput\<lparr>lockChunkSizeToDuration := Some True, minDurationMinutes := Some 30\<rparr>"
  have "lockChunkSizeToDuration ?i = Some True" "timeChunksRequired ?i = None"
    "durationMinutes ?i = None"
    by (simp_all add: emptyInput_def)
  from lock_without_total_fails[OF this] show ?thesis
    by (simp add: emptyInput_def)
qed

text \<open>
  Claim C10 as stated fails: with the lock set, no total given and
  \<^verbatim>\<open>minDurationMinutes = 20\<close>, the error thrown is the multiple-of-15 error of that field, not
  the lock error.
\<close>

theorem lock_other_error_first:
  "lockChunkSizeToDuration (emptyInput\<lparr>lockChunkSizeToDuration := Some True,
       minDurationMinutes := Some 20\<rparr>) = Some True
   \<and> timeChunksRequired (emptyInput\<lparr>lockChunkSizeToDuration := Some True,
       minDurationMinutes := Some 20\<rparr>) = None
   \<and> durationMinutes (emptyInput\<lparr>lockChunkSizeToDuration := Some True,
       minDurationMinutes := Some 20\<rparr>) = None
   \<and> normalizeChunkInputs (emptyInput\<lparr>lockChunkSizeToDuration := Some True,
       minDurationMinutes := Some 20\<rparr>) = Inl (NotMultipleOfChunk ''minDurationMinutes'' 20)"
  by (simp add: normalizeChunkInputs_eq bad_minutes_def emptyInput_def)

subsection \<open>The lock survives defaulting and clamping\<close>

lemma clamp_chunks_locked:
  assumes "timeChunksRequired d = Some c" "minChunkSize d = Some c" "maxChunkSize d = Some c"
  shows "timeChunksRequired (clamp_chunks d) = Some c \<and> minChunkSize (clamp_chunks d) = Some c
       \<and> maxChunkSize (clamp_chunks d) = Some c"
  using assms by (simp add: clamp_chunks_def)

lemma fill_enums_chunks [simp]:
  "timeChunksRequired (fill_enums defaults d) = timeChunksRequired d"
  "minChunkSize (fill_enums defaults d) = minChunkSize d"
  "maxChunkSize (fill_enums defaults d) = maxChunkSize d"
  by (simp_all add: fill_enums_def Let_def)

lemma fill_flags_chunks [simp]:
  "timeChunksRequired (fill_flags defaults d) = timeChunksRequired d"
  "minChunkSize (fill_flags defaults d) = minChunkSize d"
  "maxChunkSize (fill_flags defaults d) = maxChunkSize d"
  by (simp_all add: fill_flags_def)

lemma patch_enums_chunks [simp]:
  "timeChunksRequired (patch_enums defaults d) = timeChunksRequired d"
  "minChunkSize (patch_enums defaults d) = minChunkSize d"
  "maxChunkSize (patch_enums defaults d) = maxChunkSize d"
  by (simp_all add: patch_enums_def Let_def)

lemma fill_total_chunks [simp]:
  "minChunkSize (fill_total defaults d) = minChunkSize d"
  "maxChunkSize (fill_total defaults d) = maxChunkSize d"
  by (simp_all add: fill_total_def Let_def)

lemma fill_total_present:
  "timeChunksRequired d = Some c \<Longrightarrow> timeChunksRequired (fill_total defaults d) = Some c"
  by (simp add: fill_total_def Let_def)

lemma fill_bounds_total [simp]:
  "timeChunksRequired (fill_bounds defaults d) = timeChunksRequired d"
  by (simp add: fill_bounds_def Let_def)

lemma fill_bounds_present:
  "minChunkSize d = Some a \<Longrightarrow> minChunkSize (fill_bounds defaults d) = Some a"
  "maxChunkSize d = Some b \<Longrightarrow> maxChunkSize (fill_bounds defaults d) = Some b"
  by (simp_all add: fill_bounds_def Let_def)

lemma applyTaskDefaultsForCreate_locked:
  assumes "timeChunksRequired d = Some c" "minChunkSize d = Some c" "maxChunkSize d = Some c"
  shows "timeChunksRequired (applyTaskDefaultsForCreate d defaults) = Some c
       \<and> minChunkSize (applyTaskDefaultsForCreate d defaults) = Some c
       \<and> maxChunkSize (applyTaskDefaultsForCreate d defaults) = Some c"
  unfolding applyTaskDefaultsForCreate_def
  by (rule clamp_chunks_locked) (simp_all add: assms fill_total_present fill_bounds_present)

text \<open>
  Claim C7. When the lock flag is set and \<^verbatim>\<open>normalizeChunkInputs\<close> succeeds, the result has a
  total chunk count and both bounds equal to it, whatever bounds were passed separately; and
  after \<^verbatim>\<open>applyTaskDefaultsForCreate\<close> (defaulting and clamping, for any account defaults) the
  total and both bounds are still that same count.
\<close>

theorem lock_to_duration:
  assumes "lockChunkSizeToDuration input = Some True"
      and "normalizeChunkInputs input = Inr d"
  shows "\<exists>c. timeChunksRequired d = Some c \<and> minChunkSize d = Some c \<and> maxChunkSize d = Some c
           \<and> Some c = chunks_of (durationMinutes input) (timeChunksRequired input)
           \<and> timeChunksRequired (applyTaskDefaultsForCreate d defaults) = Some c
           \<and> minChunkSize (applyTaskDefaultsForCreate d defaults) = Some c
           \<and> maxChunkSize (applyTaskDefaultsForCreate d defaults) = Some c"
proof -
  from assms obtain c where c: "timeChunksRequired d = Some c" "minChunkSize d = Some c"
      "maxChunkSize d = Some c"
      "Some c = chunks_of (durationMinutes input) (timeChunksRequired input)"
    by (auto simp: normalizeChunkInputs_eq Let_def split: if_splits)
  from applyTaskDefaultsForCreate_locked[OF c(1-3), of defaults] c show ?thesis by blast
qed

theorem lock_to_duration_witness:
  "\<exists>d. normalizeChunkInputs lockedInput = Inr d
     \<and> timeChunksRequired (applyTaskDefaultsForCreate d None) = Some 4
     \<and> minChunkSize (applyTaskDefaultsForCreate d None) = Some 4
     \<and> maxChunkSize (applyTaskDefaultsForCreate d None) = Some 4"
proof -
  have l: "lockChunkSizeToDuration lockedInput = Some True"
    by (simp add: lockedInput_def)
  have "\<not> bad_minutes (Some 60)" "\<not> bad_minutes (Some 30)" "\<not> bad_minutes None"
    by (simp_all add: bad_minutes_def)
  then have "\<exists>d. normalizeChunkInputs lockedInput = Inr d"
    by (simp add: normalizeChunkInputs_eq lockedInput_def emptyInput_def chunks_of_def Let_def)
  then obtain d where d: "normalizeChunkInputs lockedInput = Inr d"
    by blast
  have "chunks_of (durationMinutes lockedInput) (timeChunksRequired lockedInput) = Some 4"
    by (simp add: lockedInput_def chunks_of_def)
  with lock_to_duration[OF l d, of None] d show ?thesis by auto
qed

section \<open>The calendar operations agree with their specification\<close>

lemma div_succ:
  fixes x k :: int
  assumes "1 < k"
  shows "(x + 1) div k = (if (x + 1) mod k = 0 then x div k + 1 else x div k)"
proof -
  define q where "q = x div k"
  define r where "r = x mod k"
  have x: "x = k * q + r" by (simp add: q_def r_def)
  have r: "0 \<le> r" "r < k" using assms by (simp_all add: r_def)
  show ?thesis
  proof (cases "r + 1 = k")
    case True
    then have "x + 1 = k * (q + 1)" using x by (simp add: algebra_simps)
    then have "(x + 1) div k = q + 1" "(x + 1) mod k = 0" using assms by simp_all
    then show ?thesis by (simp add: q_def)
  next
    case False
    define s where "s = r + 1"
    then have lt: "s < k" "0 \<le> s" "s \<noteq> 0" using r False by simp_all
    have "x + 1 = k * q + s" using x by (simp add: s_def)
    then have "(x + 1) div k = q" "(x + 1) mod k = s"
      using lt assms by (simp_all add: div_pos_pos_trivial mod_pos_pos_trivial)
    then show ?thesis using lt by (simp add: q_def)
  qed
qed

lemma mod_shift:
  fixes y :: int
  shows "(y - 1968) mod 4 = y mod 4" "(y - 1900) mod 100 = y mod 100"
    "(y - 1600) mod 400 = y mod 400"
proof -
  have "(y - 1968) mod 4 = (y + (-492) * 4) mod 4" by simp
  also have "\<dots> = y mod 4" by (rule mod_mult_self1)
  finally show "(y - 1968) mod 4 = y mod 4" .
  have "(y - 1900) mod 100 = (y + (-19) * 100) mod 100" by simp
  also have "\<dots> = y mod 100" by (rule mod_mult_self1)
  finally show "(y - 1900) mod 100 = y mod 100" .
  have "(y - 1600) mod 400 = (y + (-4) * 400) mod 400" by simp
  also have "\<dots> = y mod 400" by (rule mod_mult_self1)
  finally show "(y - 1600) mod 400 = y mod 400" .
qed

lemma leap_mods:
  fixes y :: int
  shows "y mod 400 = 0 \<Longrightarrow> y mod 100 = 0" "y mod 100 = 0 \<Longrightarrow> y mod 4 = 0"
proof -
  have a: "y mod 400 mod 100 = y mod 100" by (rule mod_mod_cancel) simp
  have b: "y mod 100 mod 4 = y mod 4" by (rule mod_mod_cancel) simp
  show "y mod 400 = 0 \<Longrightarrow> y mod 100 = 0" using a by simp
  show "y mod 100 = 0 \<Longrightarrow> y mod 4 = 0" using b by simp
qed

lemma DayFromYear_Suc: "DayFromYear (y + 1) = DayFromYear y + DaysInYear y"
proof -
  have a: "(y + 1 - 1969) div 4 = (if y mod 4 = 0 then (y - 1969) div 4 + 1 else (y - 1969) div 4)"
  proof -
    have e: "y + 1 - 1969 = (y - 1969) + 1" "y - 1969 + 1 = y - 1968" by simp_all
    show ?thesis unfolding e(1) by (subst div_succ) (simp_all add: e(2) mod_shift)
  qed
  have b: "(y + 1 - 1901) div 100
       = (if y mod 100 = 0 then (y - 1901) div 100 + 1 else (y - 1901) div 100)"
  proof -
    have e: "y + 1 - 1901 = (y - 1901) + 1" "y - 1901 + 1 = y - 1900" by simp_all
    show ?thesis unfolding e(1) by (subst div_succ) (simp_all add: e(2) mod_shift)
  qed
  have c: "(y + 1 - 1601) div 400
       = (if y mod 400 = 0 then (y - 1601) div 400 + 1 else (y - 1601) div 400)"
  proof -
    have e: "y + 1 - 1601 = (y - 1601) + 1" "y - 1601 + 1 = y - 1600" by simp_all
    show ?thesis unfolding e(1) by (subst div_succ) (simp_all add: e(2) mod_shift)
  qed
  have d: "365 * (y + 1 - 1970) = 365 * (y - 1970) + 365" by simp
  show ?thesis
  proof (cases "y mod 4 = 0")
    case False
    then have "y mod 100 \<noteq> 0 \<and> y mod 400 \<noteq> 0" using leap_mods[of y] by auto
    then show ?thesis unfolding DayFromYear_def DaysInYear_def a b c d using False by simp
  next
    case m4: True
    show ?thesis
    proof (cases "y mod 100 = 0")
      case False
      then have "y mod 400 \<noteq> 0" using leap_mods[of y] by auto
      then show ?thesis unfolding DayFromYear_def DaysInYear_def a b c d using False m4 by simp
    next
      case True
      then show ?thesis unfolding DayFromYear_def DaysInYear_def a b c d using m4 by simp
    qed
  qed
qed

lemma DayFromYear_cycle:
  "DayFromYear (1601 + 400 * e + n) = 146097 * e + days_before_cycle_year n - 134774"
proof -
  have a: "(1601 + 400 * e + n - 1969) div 4 = 100 * e + n div 4 - 92"
  proof -
    have "1601 + 400 * e + n - 1969 = n + (100 * e - 92) * 4" by simp
    then show ?thesis by (simp only: div_mult_self1)
  qed
  have b: "(1601 + 400 * e + n - 1901) div 100 = 4 * e + n div 100 - 3"
  proof -
    have "1601 + 400 * e + n - 1901 = n + (4 * e - 3) * 100" by simp
    then show ?thesis by (simp only: div_mult_self1)
  qed
  have c: "(1601 + 400 * e + n - 1601) div 400 = e + n div 400"
  proof -
    have "1601 + 400 * e + n - 1601 = n + e * 400" by simp
    then show ?thesis by (simp only: div_mult_self1)
  qed
  show ?thesis
    unfolding DayFromYear_def days_before_cycle_year_def a b c by simp
qed

lemma days_before_cycle_year_bounds:
  assumes "0 \<le> m"
  shows "365 * m \<le> days_before_cycle_year m" "days_before_cycle_year m \<le> 366 * m"
proof -
  have a: "m div 100 \<le> m div 4" "m div 400 \<le> m div 100"
    using assms by (simp_all add: zdiv_mono2)
  have b: "4 * (m div 4) \<le> m" "0 \<le> m div 4" "0 \<le> m div 400"
    using assms by simp_all
  show "365 * m \<le> days_before_cycle_year m" "days_before_cycle_year m \<le> 366 * m"
    unfolding days_before_cycle_year_def using a b by linarith+
qed

lemma YearFromDay_bounds:
  "DayFromYear (YearFromDay d) \<le> d \<and> d < DayFromYear (YearFromDay d + 1)"
proof -
  define doe where "doe = (d + 134774) mod 146097"
  define era where "era = (d + 134774) div 146097"
  define n0 where "n0 = doe div 366"
  define n where "n = (if days_before_cycle_year (n0 + 2) \<le> doe then n0 + 2
               else if days_before_cycle_year (n0 + 1) \<le> doe then n0 + 1
               else n0)"
  have y: "YearFromDay d = 1601 + 400 * era + n"
    by (simp add: YearFromDay_def Let_def doe_def era_def n0_def n_def)
  have doe: "0 \<le> doe" "doe < 146097" by (simp_all add: doe_def)
  have d: "d = 146097 * era + doe - 134774"
    by (simp add: doe_def era_def)
  have n0: "366 * n0 \<le> doe" "doe < 366 * n0 + 366" "0 \<le> n0"
    using doe by (simp_all add: n0_def) 
  have n0_small: "n0 < 730" using n0 doe by linarith
  have b0: "days_before_cycle_year n0 \<le> 366 * n0"
    using days_before_cycle_year_bounds(2)[of n0] n0 by simp
  have b3: "365 * n0 + 1095 \<le> days_before_cycle_year (n0 + 3)"
    using days_before_cycle_year_bounds(1)[of "n0 + 3"] n0 by simp
  have "days_before_cycle_year n \<le> doe \<and> doe < days_before_cycle_year (n + 1)"
  proof (cases "days_before_cycle_year (n0 + 2) \<le> doe")
    case True
    then have "n = n0 + 2" by (simp add: n_def)
    moreover have "doe < days_before_cycle_year (n0 + 3)" using b3 n0(2) n0_small by arith
    ultimately show ?thesis using True by (simp add: add.assoc)
  next
    case c2: False
    show ?thesis
    proof (cases "days_before_cycle_year (n0 + 1) \<le> doe")
      case True
      then have "n = n0 + 1" using c2 by (simp add: n_def)
      then show ?thesis using True c2 by (simp add: add.assoc)
    next
      case False
      then have "n = n0" using c2 by (simp add: n_def)
      then show ?thesis using False b0 n0 by simp
    qed
  qed
  moreover have "YearFromDay d + 1 = 1601 + 400 * era + (n + 1)" using y by simp
  ultimately show ?thesis
    unfolding y DayFromYear_cycle using d by (simp only: DayFromYear_cycle) linarith
qed

lemma DaysInYear_cases: "DaysInYear y = 365 \<or> DaysInYear y = 366"
  by (simp add: DaysInYear_def)

lemma InLeapYear_eq: "DaysInYear y = 365 + InLeapYear y"
  using DaysInYear_cases[of y] by (auto simp: InLeapYear_def)

lemma InLeapYear_cases: "InLeapYear y = 0 \<or> InLeapYear y = 1"
  by (simp add: InLeapYear_def)

lemma DayFromYear_less: "y < y' \<Longrightarrow> DayFromYear y < DayFromYear y'"
proof (induction y' rule: int_gr_induct)
  case base
  then show ?case using DayFromYear_Suc[of y] DaysInYear_cases[of y] by auto
next
  case (step i)
  then show ?case using DayFromYear_Suc[of i] DaysInYear_cases[of i] by auto
qed

lemma DayFromYear_mono: "y \<le> y' \<Longrightarrow> DayFromYear y \<le> DayFromYear y'"
  using DayFromYear_less[of y y'] by (cases "y = y'") auto

lemma YearFromDay_unique:
  assumes "DayFromYear y \<le> d" "d < DayFromYear (y + 1)"
  shows "YearFromDay d = y"
proof (rule ccontr)
  assume ne: "YearFromDay d \<noteq> y"
  note b = YearFromDay_bounds[of d]
  show False
  proof (cases "YearFromDay d < y")
    case True
    then have "DayFromYear (YearFromDay d + 1) \<le> DayFromYear y"
      by (intro DayFromYear_mono) simp
    then show False using b assms by linarith
  next
    case False
    then have "DayFromYear (y + 1) \<le> DayFromYear (YearFromDay d)"
      using ne by (intro DayFromYear_mono) simp
    then show False using b assms by linarith
  qed
qed

lemma DayWithinYear_range:
  "0 \<le> DayWithinYear d \<and> DayWithinYear d < DaysInYear (YearFromDay d)"
  using YearFromDay_bounds[of d] DayFromYear_Suc[of "YearFromDay d"]
  by (simp add: DayWithinYear_def)

lemma month_cases:
  fixes m :: int
  assumes "0 \<le> m" "m \<le> 11"
  shows "m = 0 \<or> m = 1 \<or> m = 2 \<or> m = 3 \<or> m = 4 \<or> m = 5 \<or> m = 6 \<or> m = 7 \<or> m = 8
       \<or> m = 9 \<or> m = 10 \<or> m = 11"
  using assms by arith

lemma month_of_year_day_range:
  "0 \<le> month_of_year_day leap dwy \<and> month_of_year_day leap dwy \<le> 11"
  by (simp add: month_of_year_day_def)

lemma date_of_year_day_valid:
  assumes "InLeapYear y = leap" "0 \<le> dwy" "dwy < 365 + leap"
  shows "1 \<le> dwy - days_before_month leap (month_of_year_day leap dwy) + 1
       \<and> dwy - days_before_month leap (month_of_year_day leap dwy) + 1
           \<le> days_in_month y (month_of_year_day leap dwy + 1)"
proof -
  have l: "leap = 0 \<or> leap = 1" using assms(1) InLeapYear_cases[of y] by auto
  show ?thesis
    unfolding month_of_year_day_def days_in_month_def assms(1)
    using l assms(2,3) by (simp add: days_before_month_def)
qed

lemma month_of_year_day_roundtrip:
  assumes "InLeapYear y = leap" "0 \<le> m" "m \<le> 11" "1 \<le> dt" "dt \<le> days_in_month y (m + 1)"
  shows "month_of_year_day leap (days_before_month leap m + dt - 1) = m"
proof -
  have l: "leap = 0 \<or> leap = 1" using assms(1) InLeapYear_cases[of y] by auto
  from month_cases[OF assms(2,3)] show ?thesis
    using assms(4,5) l unfolding days_in_month_def assms(1)
    by (elim disjE) (simp_all add: month_of_year_day_def days_before_month_def)
qed

lemma days_before_month_valid:
  assumes "InLeapYear y = leap" "0 \<le> m" "m \<le> 11" "1 \<le> dt" "dt \<le> days_in_month y (m + 1)"
  shows "0 \<le> days_before_month leap m + dt - 1 \<and> days_before_month leap m + dt - 1 < 365 + leap"
proof -
  have l: "leap = 0 \<or> leap = 1" using assms(1) InLeapYear_cases[of y] by auto
  from month_cases[OF assms(2,3)] show ?thesis
    using assms(4,5) l unfolding days_in_month_def assms(1)
    by (elim disjE) (simp_all add: days_before_month_def)
qed

lemma MakeDay_valid:
  assumes "0 \<le> m" "m \<le> 11"
  shows "MakeDay y m dt = DayFromYear y + days_before_month (InLeapYear y) m + dt - 1"
proof -
  have "m div 12 = 0" "m mod 12 = m" using assms by simp_all
  then show ?thesis by (simp add: MakeDay_def)
qed

lemma civil_roundtrip:
  assumes "0 \<le> m" "m \<le> 11" "1 \<le> dt" "dt \<le> days_in_month y (m + 1)"
  shows "YearFromDay (MakeDay y m dt) = y"
    and "month_of_year_day (InLeapYear y) (DayWithinYear (MakeDay y m dt)) = m"
    and "DayWithinYear (MakeDay y m dt) - days_before_month (InLeapYear y) m + 1 = dt"
proof -
  define k where "k = days_before_month (InLeapYear y) m + dt - 1"
  have k: "0 \<le> k" "k < 365 + InLeapYear y"
    using days_before_month_valid[OF refl assms] by (simp_all add: k_def)
  have md: "MakeDay y m dt = DayFromYear y + k"
    using MakeDay_valid[OF assms(1,2)] by (simp add: k_def)
  have "DayFromYear y \<le> MakeDay y m dt" "MakeDay y m dt < DayFromYear (y + 1)"
    using k md DayFromYear_Suc[of y] InLeapYear_eq[of y] by simp_all
  then show yr: "YearFromDay (MakeDay y m dt) = y" by (rule YearFromDay_unique)
  then have dwy: "DayWithinYear (MakeDay y m dt) = k" by (simp add: DayWithinYear_def md)
  show "month_of_year_day (InLeapYear y) (DayWithinYear (MakeDay y m dt)) = m"
    unfolding dwy k_def by (rule month_of_year_day_roundtrip[OF refl assms])
  show "DayWithinYear (MakeDay y m dt) - days_before_month (InLeapYear y) m + 1 = dt"
    unfolding dwy k_def by simp
qed

text \<open>Every time value has a valid calendar date.\<close>

lemma date_of_time_valid:
  "0 \<le> MonthFromTime t \<and> MonthFromTime t \<le> 11 \<and> 1 \<le> DateFromTime t
   \<and> DateFromTime t \<le> days_in_month (YearFromTime t) (MonthFromTime t + 1)"
proof -
  note r = DayWithinYear_range[of "Day t"]
  have "DayWithinYear (Day t) < 365 + InLeapYear (YearFromTime t)"
    using r InLeapYear_eq[of "YearFromDay (Day t)"] by (simp add: YearFromTime_def)
  from date_of_year_day_valid[OF refl _ this] r month_of_year_day_range
  show ?thesis by (simp add: MonthFromTime_def DateFromTime_def)
qed

lemma MakeTime_range:
  assumes "0 \<le> h" "h \<le> 23" "0 \<le> mi" "mi \<le> 59" "0 \<le> s" "s \<le> 59" "0 \<le> ms" "ms \<le> 999"
  shows "0 \<le> MakeTime h mi s ms \<and> MakeTime h mi s ms < msPerDay"
  using assms by (simp add: MakeTime_def msPerDay_def)

lemma Day_MakeDate:
  assumes "0 \<le> tm" "tm < msPerDay"
  shows "Day (MakeDate dy tm) = dy" "TimeWithinDay (MakeDate dy tm) = tm"
  using assms by (simp_all add: Day_def TimeWithinDay_def MakeDate_def msPerDay_def
      div_pos_pos_trivial mod_pos_pos_trivial)

lemma div_mod_decompose:
  fixes q r k :: int
  assumes "0 \<le> r" "r < k"
  shows "(q * k + r) div k = q" "(q * k + r) mod k = r"
  using assms by (simp_all add: div_pos_pos_trivial mod_pos_pos_trivial)

lemma time_fields_roundtrip:
  assumes "0 \<le> h" "h \<le> 23" "0 \<le> mi" "mi \<le> 59" "0 \<le> s" "s \<le> 59" "0 \<le> ms" "ms \<le> 999"
  shows "HourFromTime (MakeDate dy (MakeTime h mi s ms)) = h"
    and "MinFromTime (MakeDate dy (MakeTime h mi s ms)) = mi"
    and "SecFromTime (MakeDate dy (MakeTime h mi s ms)) = s"
    and "msFromTime (MakeDate dy (MakeTime h mi s ms)) = ms"
proof -
  define t where "t = MakeDate dy (MakeTime h mi s ms)"
  have th: "t = (dy * 24 + h) * 3600000 + (mi * 60000 + s * 1000 + ms)"
    by (simp add: t_def MakeDate_def MakeTime_def msPerDay_def algebra_simps)
  have tm: "t = (dy * 1440 + h * 60 + mi) * 60000 + (s * 1000 + ms)"
    by (simp add: t_def MakeDate_def MakeTime_def msPerDay_def algebra_simps)
  have ts: "t = (dy * 86400 + h * 3600 + mi * 60 + s) * 1000 + ms"
    by (simp add: t_def MakeDate_def MakeTime_def msPerDay_def algebra_simps)
  have "t div 3600000 = dy * 24 + h"
    unfolding th using assms by (intro div_mod_decompose(1)) simp_all
  then show "HourFromTime (MakeDate dy (MakeTime h mi s ms)) = h"
    unfolding t_def[symmetric] HourFromTime_def using assms div_mod_decompose(2)[of h 24 dy]
    by simp
  have "t div 60000 = dy * 1440 + h * 60 + mi"
    unfolding tm using assms by (intro div_mod_decompose(1)) simp_all
  then show "MinFromTime (MakeDate dy (MakeTime h mi s ms)) = mi"
    unfolding t_def[symmetric] MinFromTime_def
    using assms div_mod_decompose(2)[of mi 60 "dy * 24 + h"] by (simp add: algebra_simps)
  have "t div 1000 = dy * 86400 + h * 3600 + mi * 60 + s"
    unfolding ts using assms by (intro div_mod_decompose(1)) simp_all
  then show "SecFromTime (MakeDate dy (MakeTime h mi s ms)) = s"
    unfolding t_def[symmetric] SecFromTime_def
    using assms div_mod_decompose(2)[of s 60 "dy * 1440 + h * 60 + mi"] by (simp add: algebra_simps)
  show "msFromTime (MakeDate dy (MakeTime h mi s ms)) = ms"
    unfolding t_def[symmetric] msFromTime_def ts
    using assms by (intro div_mod_decompose(2)) simp_all
qed


subsection \<open>Date.UTC and the accessors are inverse to each other\<close>

lemma fields_of_Date_UTC:
  assumes v: "valid_civil y mo d h mi s ms" and y: "y < 0 \<or> 99 < y"
  shows "YearFromTime (Date_UTC y (mo - 1) d h mi s ms) = y"
    and "MonthFromTime (Date_UTC y (mo - 1) d h mi s ms) = mo - 1"
    and "DateFromTime (Date_UTC y (mo - 1) d h mi s ms) = d"
    and "HourFromTime (Date_UTC y (mo - 1) d h mi s ms) = h"
    and "MinFromTime (Date_UTC y (mo - 1) d h mi s ms) = mi"
    and "SecFromTime (Date_UTC y (mo - 1) d h mi s ms) = s"
    and "msFromTime (Date_UTC y (mo - 1) d h mi s ms) = ms"
proof -
  define t where "t = Date_UTC y (mo - 1) d h mi s ms"
  have t: "t = MakeDate (MakeDay y (mo - 1) d) (MakeTime h mi s ms)"
    using y by (auto simp: t_def Date_UTC_def)
  have tm: "0 \<le> MakeTime h mi s ms \<and> MakeTime h mi s ms < msPerDay"
    using v by (intro MakeTime_range) (simp_all add: valid_civil_def)
  have dy: "Day t = MakeDay y (mo - 1) d"
    unfolding t using tm by (intro Day_MakeDate) simp_all
  have m: "0 \<le> mo - 1" "mo - 1 \<le> 11" "1 \<le> d" "d \<le> days_in_month y (mo - 1 + 1)"
    using v by (simp_all add: valid_civil_def)
  note rt = civil_roundtrip[OF m]
  show yr: "YearFromTime (Date_UTC y (mo - 1) d h mi s ms) = y"
    unfolding t_def[symmetric] YearFromTime_def dy by (rule rt(1))
  show mn: "MonthFromTime (Date_UTC y (mo - 1) d h mi s ms) = mo - 1"
    unfolding t_def[symmetric] MonthFromTime_def using rt(2) yr
    by (simp add: dy t_def[symmetric])
  show "DateFromTime (Date_UTC y (mo - 1) d h mi s ms) = d"
    unfolding t_def[symmetric] DateFromTime_def using rt(3) yr mn
    by (simp add: dy t_def[symmetric])
  have hh: "0 \<le> h" "h \<le> 23" "0 \<le> mi" "mi \<le> 59" "0 \<le> s" "s \<le> 59" "0 \<le> ms" "ms \<le> 999"
    using v by (simp_all add: valid_civil_def)
  note tf = time_fields_roundtrip[OF hh]
  show "HourFromTime (Date_UTC y (mo - 1) d h mi s ms) = h"
    "MinFromTime (Date_UTC y (mo - 1) d h mi s ms) = mi"
    "SecFromTime (Date_UTC y (mo - 1) d h mi s ms) = s"
    "msFromTime (Date_UTC y (mo - 1) d h mi s ms) = ms"
    unfolding t_def[symmetric] t by (rule tf)+
qed

lemma TimeWithinDay_fields:
  "MakeTime (HourFromTime x) (MinFromTime x) (SecFromTime x) (msFromTime x) = TimeWithinDay x"
proof -
  have a: "x mod 86400000 = 3600000 * (x div 3600000 mod 24) + x mod 3600000"
    using zmod_zmult2_eq[of 24 x 3600000] by simp
  have b: "x mod 3600000 = 60000 * (x div 60000 mod 60) + x mod 60000"
    using zmod_zmult2_eq[of 60 x 60000] by simp
  have c: "x mod 60000 = 1000 * (x div 1000 mod 60) + x mod 1000"
    using zmod_zmult2_eq[of 60 x 1000] by simp
  show ?thesis
    unfolding MakeTime_def HourFromTime_def MinFromTime_def SecFromTime_def msFromTime_def
      TimeWithinDay_def msPerDay_def
    using a b c by linarith
qed

lemma MakeDay_fields:
  "MakeDay (YearFromTime x) (MonthFromTime x) (DateFromTime x) = Day x"
proof -
  have m: "0 \<le> MonthFromTime x" "MonthFromTime x \<le> 11"
    using date_of_time_valid[of x] by simp_all
  show ?thesis
    unfolding MakeDay_valid[OF m]
    by (simp add: DateFromTime_def DayWithinYear_def YearFromTime_def)
qed

lemma Date_UTC_of_fields:
  assumes "YearFromTime x < 0 \<or> 99 < YearFromTime x"
  shows "Date_UTC (YearFromTime x) (MonthFromTime x) (DateFromTime x) (HourFromTime x)
           (MinFromTime x) (SecFromTime x) (msFromTime x) = x"
proof -
  have "Date_UTC (YearFromTime x) (MonthFromTime x) (DateFromTime x) (HourFromTime x)
           (MinFromTime x) (SecFromTime x) (msFromTime x)
        = MakeDate (Day x) (TimeWithinDay x)"
    using assms by (auto simp: Date_UTC_def MakeDay_fields TimeWithinDay_fields)
  also have "\<dots> = x"
    by (simp add: MakeDate_def Day_def TimeWithinDay_def)
  finally show ?thesis .
qed

lemma Date_UTC_ms:
  "Date_UTC y m d h mi s ms = Date_UTC y m d h mi s 0 + ms"
  by (simp add: Date_UTC_def MakeDate_def MakeTime_def Let_def)

lemma valid_civil_fields:
  "valid_civil (YearFromTime x) (MonthFromTime x + 1) (DateFromTime x) (HourFromTime x)
     (MinFromTime x) (SecFromTime x) (msFromTime x)"
proof -
  have "HourFromTime x \<le> 23" "MinFromTime x \<le> 59" "SecFromTime x \<le> 59" "msFromTime x \<le> 999"
    unfolding HourFromTime_def MinFromTime_def SecFromTime_def msFromTime_def
    using pos_mod_bound[of 24 "x div 3600000"] pos_mod_bound[of 60 "x div 60000"]
      pos_mod_bound[of 60 "x div 1000"] pos_mod_bound[of 1000 x] by linarith+
  moreover have "0 \<le> HourFromTime x" "0 \<le> MinFromTime x" "0 \<le> SecFromTime x" "0 \<le> msFromTime x"
    by (simp_all add: HourFromTime_def MinFromTime_def SecFromTime_def msFromTime_def)
  ultimately show ?thesis
    using date_of_time_valid[of x] unfolding valid_civil_def by simp
qed


section \<open>Properties of parseDeadline\<close>

lemma iso_text_civil:
  assumes "valid_civil y mo d h mi s ms" "99 < y" "y \<le> 9999"
  shows "iso_text (Date_UTC y (mo - 1) d h mi s ms)
         = pad4 y @ ''-'' @ pad2 mo @ ''-'' @ pad2 d @ ''T'' @ pad2 h @ '':'' @ pad2 mi
           @ '':'' @ pad2 s @ ''.'' @ pad3 ms @ ''Z''"
proof -
  have y: "y < 0 \<or> 99 < y" using assms(2) by simp
  note f = fields_of_Date_UTC[OF assms(1) y]
  show ?thesis
    unfolding iso_text_def f Let_def using assms(2,3) by simp
qed

lemma setDate_getDate:
  "setDate e t (getDate e t + n) = host_utc e (LocalTime e t + n * msPerDay)"
proof -
  define lt where "lt = LocalTime e t"
  have m: "0 \<le> MonthFromTime lt" "MonthFromTime lt \<le> 11"
    using date_of_time_valid[of lt] by simp_all
  have "MakeDay (YearFromTime lt) (MonthFromTime lt) (DateFromTime lt + n) = Day lt + n"
    using MakeDay_fields[of lt] unfolding MakeDay_valid[OF m] by simp
  then have "MakeDate (MakeDay (YearFromTime lt) (MonthFromTime lt) (DateFromTime lt + n))
               (TimeWithinDay lt) = lt + n * msPerDay"
    by (simp add: MakeDate_def Day_def TimeWithinDay_def algebra_simps)
  then show ?thesis
    by (simp add: setDate_def getDate_def lt_def[symmetric] Let_def)
qed

lemma parseDeadline_days:
  assumes "0 < n"
  shows "parseDeadline e (Some (Days n)) tzopt
         = toISOString (host_utc e (LocalTime e (now e) + n * msPerDay))"
  using assms by (simp add: parseDeadline_def setDate_getDate)

text \<open>
  Claim C5 (as amended). For a positive number of days \<open>n\<close> the result is the text of the
  instant that the machine's own zone gives for the local time of the evaluation instant moved
  \<open>n\<close> calendar days ahead (\<^verbatim>\<open>setDate\<close> on the local day of the month, the local time of day
  kept). It is the evaluation instant plus exactly \<open>n\<close> times 24 hours when the machine's zone has
  one fixed offset, as on a UTC host.
\<close>

theorem relative_days_shift:
  assumes "0 < n"
  shows "parseDeadline e (Some (Days n)) tzopt
           = toISOString (host_utc e (now e + host_offset e (now e) + n * 86400000))
       \<and> ((\<forall>lt. host_utc e lt = lt - host_offset e (now e)) \<longrightarrow>
            parseDeadline e (Some (Days n)) tzopt = toISOString (now e + n * 86400000))"
  using parseDeadline_days[OF assms, of e tzopt]
  by (simp add: LocalTime_def msPerDay_def)

lemma Date_UTC_literals:
  "Date_UTC 2026 2 7 20 0 0 0 = 1772913600000"
  "Date_UTC 2026 2 8 19 0 0 0 = 1772996400000"
  "Date_UTC 2026 2 8 20 0 0 0 = 1773000000000"
  by (simp_all add: Date_UTC_def MakeDate_def MakeDay_def MakeTime_def DayFromYear_def
      days_before_month_def InLeapYear_def DaysInYear_def msPerDay_def)

lemma iso_literals:
  "toISOString 1772996400000 = Inr ''2026-03-08T19:00:00.000Z''"
  "toISOString 1773000000000 = Inr ''2026-03-08T20:00:00.000Z''"
proof -
  have v: "valid_civil 2026 3 8 19 0 0 0" "valid_civil 2026 3 8 20 0 0 0"
    by (simp_all add: valid_civil_def days_in_month_def)
  show "toISOString 1772996400000 = Inr ''2026-03-08T19:00:00.000Z''"
    using iso_text_civil[OF v(1)]
    by (simp add: Date_UTC_literals toISOString_def valid_time_def pad4_def pad2_def pad3_def
        digit_char_def)
  show "toISOString 1773000000000 = Inr ''2026-03-08T20:00:00.000Z''"
    using iso_text_civil[OF v(2)]
    by (simp add: Date_UTC_literals toISOString_def valid_time_def pad4_def pad2_def pad3_def
        digit_char_def)
qed

theorem relative_days_shift_witness:
  "parseDeadline utc_env (Some (Days 1)) None = Inr ''2026-03-08T20:00:00.000Z''"
proof -
  have "\<forall>lt. host_utc utc_env lt = lt - host_offset utc_env (now utc_env)"
    by (simp add: utc_env_def tz_UTC_def)
  with relative_days_shift[of 1 utc_env None]
  have "parseDeadline utc_env (Some (Days 1)) None = toISOString (now utc_env + 1 * 86400000)"
    by simp
  also have "now utc_env + 1 * 86400000 = 1773000000000"
    by (simp add: utc_env_def)
  finally show ?thesis by (simp add: iso_literals)
qed

text \<open>
  Claim C5 as stated fails on a machine in America/Los_Angeles: at 2026-03-07T20:00:00Z (noon,
  the day before the clocks go forward) one day ahead is 2026-03-08T19:00:00Z, noon again on the
  local clock and 23 hours later, while 24 hours later is 20:00:00Z.
\<close>

theorem relative_days_not_24h:
  "parseDeadline la_env (Some (Days 1)) None = Inr ''2026-03-08T19:00:00.000Z''
   \<and> toISOString (now la_env + 1 * 86400000) = Inr ''2026-03-08T20:00:00.000Z''"
proof -
  have "parseDeadline la_env (Some (Days 1)) None
        = toISOString (host_utc la_env (LocalTime la_env (now la_env) + 1 * msPerDay))"
    by (rule parseDeadline_days) simp
  also have "host_utc la_env (LocalTime la_env (now la_env) + 1 * msPerDay) = 1772996400000"
    by (simp add: la_env_def utc_env_def LocalTime_def msPerDay_def
        tz_Los_Angeles_def Los_Angeles_utc_def)
  finally have a: "parseDeadline la_env (Some (Days 1)) None = Inr ''2026-03-08T19:00:00.000Z''"
    by (simp add: iso_literals)
  have "now la_env + 1 * 86400000 = 1773000000000"
    by (simp add: la_env_def utc_env_def)
  then show ?thesis using a by (simp add: iso_literals)
qed


subsection \<open>Inputs that carry their own offset\<close>

lemma parseDeadline_absolute:
  assumes "HAS_TIMEZONE_REGEX_test (trim str)"
  shows "parseDeadline e (Some (DateStr str)) tzopt
         = (case Date_parse e (trim str) of
              None \<Rightarrow> Inl (InvalidDateFormat str)
            | Some t \<Rightarrow> toISOString t)"
  using assms by (simp add: parseDeadline_def parse_with_engine_def Let_def)

lemma digit_char_digit:
  "is_digit (digit_char n)" "digit_val (digit_char n) = n mod 10"
proof -
  define k where "k = nat (n mod 10)"
  have "k < 10" by (simp add: k_def nat_less_iff)
  then have "k \<in> {0, 1, 2, 3, 4, 5, 6, 7, 8, 9}" by auto
  moreover have "n mod 10 = int k" by (simp add: k_def)
  ultimately show "is_digit (digit_char n)" "digit_val (digit_char n) = n mod 10"
    unfolding digit_char_def k_def[symmetric]
    by (auto simp: is_digit_def digit_val_def)
qed

lemma digit_char_sign [simp]:
  "digit_char n \<noteq> CHR ''+''" "digit_char n \<noteq> CHR ''-''"
  using digit_char_digit(1)[of n] by (auto simp: is_digit_def)

lemma decimal_digits:
  fixes n :: int
  shows "n div 100 = n div 10 div 10" "n div 1000 = n div 10 div 10 div 10"
    "n div 10000 = n div 10 div 10 div 10 div 10"
    "n div 100000 = n div 10 div 10 div 10 div 10 div 10"
proof -
  have "n div (10 * 10) = n div 10 div 10" by (rule zdiv_zmult2_eq) simp
  then show a: "n div 100 = n div 10 div 10" by (simp only: mult_numeral_left_semiring_numeral
        numeral_times_numeral semiring_norm)
  have "n div (100 * 10) = n div 100 div 10" by (rule zdiv_zmult2_eq) simp
  then show b: "n div 1000 = n div 10 div 10 div 10"
    by (simp only: a numeral_times_numeral semiring_norm)
  have "n div (1000 * 10) = n div 1000 div 10" by (rule zdiv_zmult2_eq) simp
  then show c: "n div 10000 = n div 10 div 10 div 10 div 10"
    by (simp only: b numeral_times_numeral semiring_norm)
  have "n div (10000 * 10) = n div 10000 div 10" by (rule zdiv_zmult2_eq) simp
  then show "n div 100000 = n div 10 div 10 div 10 div 10 div 10"
    by (simp only: c numeral_times_numeral semiring_norm)
qed

lemma decimal_step: "(x::int) div 10 * 10 + x mod 10 = x"
  by simp

lemma digits_value_chars:
  "digits_value [digit_char a, digit_char b] = Some (a mod 10 * 10 + b mod 10)"
  "digits_value [digit_char a, digit_char b, digit_char c]
   = Some ((a mod 10 * 10 + b mod 10) * 10 + c mod 10)"
  "digits_value [digit_char a, digit_char b, digit_char c, digit_char d]
   = Some (((a mod 10 * 10 + b mod 10) * 10 + c mod 10) * 10 + d mod 10)"
  "digits_value [digit_char a, digit_char b, digit_char c, digit_char d, digit_char e,
     digit_char f]
   = Some (((((a mod 10 * 10 + b mod 10) * 10 + c mod 10) * 10 + d mod 10) * 10 + e mod 10) * 10
       + f mod 10)"
  by (simp_all add: digits_value_def digit_char_digit Number_of_def)

lemma leading_digit:
  fixes n :: int
  assumes "0 \<le> n" "n < k * 10" "0 < k"
  shows "n div k mod 10 = n div k"
proof -
  have "n div k < 10"
  proof (rule ccontr)
    assume "\<not> n div k < 10"
    then have "10 \<le> n div k" by simp
    then have "k * 10 \<le> k * (n div k)" using assms(3) by simp
    moreover have "k * (n div k) \<le> n"
      using mult_div_mod_eq[of k n] pos_mod_sign[of k n] assms(3) by linarith
    ultimately show False using assms(2) by linarith
  qed
  moreover have "0 \<le> n div k" using assms by (simp add: pos_imp_zdiv_nonneg_iff)
  ultimately show ?thesis by (simp add: mod_pos_pos_trivial)
qed

lemma digits_value_2:
  assumes "0 \<le> n" "n \<le> 99"
  shows "digits_value [digit_char (n div 10), digit_char n] = Some n"
proof -
  have l: "n div 10 mod 10 = n div 10" using assms by (intro leading_digit) simp_all
  have "n div 10 mod 10 * 10 + n mod 10 = n"
    by (simp only: l decimal_step)
  then show ?thesis by (simp only: digits_value_chars)
qed

lemma digits_value_3:
  assumes "0 \<le> n" "n \<le> 999"
  shows "digits_value [digit_char (n div 100), digit_char (n div 10), digit_char n] = Some n"
proof -
  have l: "n div 100 mod 10 = n div 100" using assms by (intro leading_digit) simp_all
  have "(n div 100 mod 10 * 10 + n div 10 mod 10) * 10 + n mod 10 = n"
    by (simp only: decimal_digits l[unfolded decimal_digits] decimal_step)
  then show ?thesis by (simp only: digits_value_chars)
qed

lemma digits_value_4:
  assumes "0 \<le> n" "n \<le> 9999"
  shows "digits_value [digit_char (n div 1000), digit_char (n div 100), digit_char (n div 10),
     digit_char n] = Some n"
proof -
  have l: "n div 1000 mod 10 = n div 1000" using assms by (intro leading_digit) simp_all
  have "((n div 1000 mod 10 * 10 + n div 100 mod 10) * 10 + n div 10 mod 10) * 10 + n mod 10
        = n"
    by (simp only: decimal_digits l[unfolded decimal_digits] decimal_step)
  then show ?thesis by (simp only: digits_value_chars)
qed

lemma digits_value_6:
  assumes "0 \<le> n" "n \<le> 999999"
  shows "digits_value [digit_char (n div 100000), digit_char (n div 10000),
     digit_char (n div 1000), digit_char (n div 100), digit_char (n div 10), digit_char n]
   = Some n"
proof -
  have l: "n div 100000 mod 10 = n div 100000" using assms by (intro leading_digit) simp_all
  have "((((n div 100000 mod 10 * 10 + n div 10000 mod 10) * 10 + n div 1000 mod 10) * 10
           + n div 100 mod 10) * 10 + n div 10 mod 10) * 10 + n mod 10 = n"
    by (simp only: decimal_digits l[unfolded decimal_digits] decimal_step)
  then show ?thesis by (simp only: digits_value_chars)
qed

lemma YearFromTime_range:
  assumes "valid_time t"
  shows "- 999999 \<le> YearFromTime t \<and> YearFromTime t \<le> 999999"
proof -
  have t: "- 8640000000000000 \<le> t" "t \<le> 8640000000000000"
    using assms by (simp_all add: valid_time_def)
  have "t div 86400000 \<le> 8640000000000000 div 86400000"
    using t(2) by (intro zdiv_mono1) simp_all
  then have u: "Day t \<le> 100000000" by (simp add: Day_def msPerDay_def)
  have "(- 8640000000000000) div 86400000 \<le> t div 86400000"
    using t(1) by (intro zdiv_mono1) simp_all
  then have l: "- 100000000 \<le> Day t" by (simp add: Day_def msPerDay_def)
  note b = YearFromDay_bounds[of "Day t"]
  have hi: "YearFromTime t \<le> 999999"
  proof (rule ccontr)
    assume "\<not> YearFromTime t \<le> 999999"
    then have "1000000 \<le> YearFromDay (Day t)" by (simp add: YearFromTime_def)
    then have "DayFromYear 1000000 \<le> DayFromYear (YearFromDay (Day t))"
      by (rule DayFromYear_mono)
    moreover have "DayFromYear 1000000 = 364522972" by (simp add: DayFromYear_def)
    ultimately show False using b u by linarith
  qed
  have lo: "- 999999 \<le> YearFromTime t"
  proof (rule ccontr)
    assume "\<not> - 999999 \<le> YearFromTime t"
    then have "YearFromDay (Day t) + 1 \<le> - 999999" by (simp add: YearFromTime_def)
    then have "DayFromYear (YearFromDay (Day t) + 1) \<le> DayFromYear (- 999999)"
      by (rule DayFromYear_mono)
    moreover have "DayFromYear (- 999999) = - 365961662" by (simp add: DayFromYear_def)
    ultimately show False using b l by linarith
  qed
  from lo hi show ?thesis by simp
qed

lemma iso_tail_fields_pads:
  assumes "0 \<le> mo" "mo \<le> 99" "0 \<le> d" "d \<le> 99" "0 \<le> h" "h \<le> 99" "0 \<le> mi" "mi \<le> 99"
    "0 \<le> s" "s \<le> 99" "0 \<le> ms" "ms \<le> 999"
  shows "iso_tail_fields (''-'' @ pad2 mo @ ''-'' @ pad2 d @ ''T'' @ pad2 h @ '':'' @ pad2 mi
           @ '':'' @ pad2 s @ ''.'' @ pad3 ms @ ''Z'') = Some (mo, d, h, mi, s, ms)"
  using assms
  by (simp add: iso_tail_fields_def pad2_def pad3_def digits_value_2 digits_value_3)

lemma fields_denote:
  "MakeDate (MakeDay (YearFromTime t) (MonthFromTime t) (DateFromTime t))
     (MakeTime (HourFromTime t) (MinFromTime t) (SecFromTime t) (msFromTime t)) = t"
  unfolding MakeDay_fields TimeWithinDay_fields
  by (simp add: MakeDate_def Day_def TimeWithinDay_def)

text \<open>The text \<^verbatim>\<open>toISOString\<close> gives for a valid time value denotes that time value.\<close>

lemma iso_text_denotes:
  assumes "valid_time t"
  shows "instant_of_iso_text (iso_text t) = Some t"
proof -
  define y where "y = YearFromTime t"
  define tail where "tail = ''-'' @ pad2 (MonthFromTime t + 1) @ ''-'' @ pad2 (DateFromTime t)
         @ ''T'' @ pad2 (HourFromTime t) @ '':'' @ pad2 (MinFromTime t)
         @ '':'' @ pad2 (SecFromTime t) @ ''.'' @ pad3 (msFromTime t) @ ''Z''"
  have v: "valid_civil y (MonthFromTime t + 1) (DateFromTime t) (HourFromTime t)
     (MinFromTime t) (SecFromTime t) (msFromTime t)"
    unfolding y_def by (rule valid_civil_fields)
  have d31: "DateFromTime t \<le> 31" using v InLeapYear_cases[of y]
    by (auto simp: valid_civil_def days_in_month_def split: if_splits)
  have tl: "iso_tail_fields tail
      = Some (MonthFromTime t + 1, DateFromTime t, HourFromTime t, MinFromTime t,
              SecFromTime t, msFromTime t)"
    unfolding tail_def using v d31
    by (intro iso_tail_fields_pads) (simp_all add: valid_civil_def)
  have den: "MakeDate (MakeDay y (MonthFromTime t + 1 - 1) (DateFromTime t))
     (MakeTime (HourFromTime t) (MinFromTime t) (SecFromTime t) (msFromTime t)) = t"
    unfolding y_def using fields_denote[of t] by simp
  note yr = YearFromTime_range[OF assms, folded y_def]
  have shape: "iso_text t
      = (if 0 \<le> y \<and> y \<le> 9999 then pad4 y
         else (if y < 0 then ''-'' else ''+'') @ pad6 \<bar>y\<bar>) @ tail"
    by (simp add: iso_text_def Let_def y_def tail_def)
  show ?thesis
  proof (cases "0 \<le> y \<and> y \<le> 9999")
    case True
    then have "iso_text t = pad4 y @ tail" unfolding shape by simp
    then show ?thesis using True v den
      by (simp add: instant_of_iso_text_def Let_def pad4_def digits_value_4 tl)
  next
    case False
    show ?thesis
    proof (cases "y < 0")
      case True
      define ay where "ay = \<bar>y\<bar>"
      have a: "0 \<le> ay" "ay \<le> 999999" "- ay = y" using yr True by (simp_all add: ay_def)
      have "iso_text t = ''-'' @ pad6 ay @ tail" unfolding shape ay_def using True by simp
      then show ?thesis using v den a(3)
        by (simp add: instant_of_iso_text_def Let_def pad6_def pad4_def
            digits_value_6[OF a(1,2)] tl)
    next
      case pos: False
      define ay where "ay = \<bar>y\<bar>"
      have a: "0 \<le> ay" "ay \<le> 999999" "y = ay" using yr pos by (simp_all add: ay_def)
      have "iso_text t = ''+'' @ pad6 ay @ tail" unfolding shape ay_def using False pos by simp
      then show ?thesis using v den a(3)
        by (simp add: instant_of_iso_text_def Let_def pad6_def pad4_def
            digits_value_6[OF a(1,2)] tl)
    qed
  qed
qed

text \<open>
  Claim C4. A string that, once trimmed, ends with \<^verbatim>\<open>Z\<close>, \<^verbatim>\<open>z\<close> or a signed \<^verbatim>\<open>hh:mm\<close> and that the
  engine parses to a valid instant resolves to the text \<^verbatim>\<open>toISOString\<close> gives for that instant;
  this text, read back as a date and time of day in UTC with its three digits of milliseconds,
  denotes exactly that instant; and the result is the same whatever time-zone argument, default
  zone, account zone, zone database, machine zone and clock are supplied.
\<close>

theorem absolute_input_ignores_context:
  assumes "HAS_TIMEZONE_REGEX_test (trim str)"
      and "Date_parse e (trim str) = Some t"
      and "valid_time t"
  shows "parseDeadline e (Some (DateStr str)) tzopt = Inr (iso_text t)
       \<and> instant_of_iso_text (iso_text t) = Some t
       \<and> (\<forall>tzopt' nw ho hu hn dflt acct db.
            parseDeadline
              (e\<lparr>now := nw, host_offset := ho, host_utc := hu, host_zone_name := hn,
                 MCP_DEFAULT_TIMEZONE := dflt, cachedAccountTimeZone := acct, tzdb := db\<rparr>)
              (Some (DateStr str)) tzopt' = Inr (iso_text t))"
  using assms iso_text_denotes[OF assms(3)]
  by (simp add: parseDeadline_absolute toISOString_def)

lemma Date_UTC_literal_jan5:
  "Date_UTC 2026 0 5 16 0 0 0 = 1767628800000"
  by (simp_all add: Date_UTC_def MakeDate_def MakeDay_def MakeTime_def DayFromYear_def
      days_before_month_def InLeapYear_def DaysInYear_def msPerDay_def)

lemma sample_absolute:
  "trim ''2026-01-05T08:00:00-08:00'' = ''2026-01-05T08:00:00-08:00''"
  "HAS_TIMEZONE_REGEX_test ''2026-01-05T08:00:00-08:00''"
  "Date_parse_iso ''2026-01-05T08:00:00-08:00'' = Some 1767628800000"
    apply (simp add: trim_def is_space_def)
   apply (simp add: HAS_TIMEZONE_REGEX_test_def is_digit_def)
  apply (simp add: Date_parse_iso_def iso_offset_def is_digit_def LOCAL_DATETIME_REGEX_match_def
      match_time_def match_minutes_def match_seconds_def match_fraction_def is_space_def
      Number_of_def digit_val_def Number_or_zero_def millisecond_of_def days_in_month_def
      MakeDate_def MakeDay_def MakeTime_def DayFromYear_def
      days_before_month_def InLeapYear_def DaysInYear_def msPerDay_def)
  done

lemma iso_literal_jan5:
  "iso_text 1767628800000 = ''2026-01-05T16:00:00.000Z''"
proof -
  have v: "valid_civil 2026 1 5 16 0 0 0"
    by (simp add: valid_civil_def days_in_month_def)
  show ?thesis
    using iso_text_civil[OF v]
    by (simp add: Date_UTC_literal_jan5 pad4_def pad2_def pad3_def digit_char_def)
qed

theorem absolute_input_witness:
  "parseDeadline utc_env (Some (DateStr ''2026-01-05T08:00:00-08:00'')) (Some ''America/New_York'')
     = Inr ''2026-01-05T16:00:00.000Z''
   \<and> instant_of_iso_text ''2026-01-05T16:00:00.000Z'' = Some 1767628800000
   \<and> parseDeadline (utc_env\<lparr>MCP_DEFAULT_TIMEZONE := Some ''Antarctica/Troll''\<rparr>)
       (Some (DateStr ''2026-01-05T08:00:00-08:00'')) None = Inr ''2026-01-05T16:00:00.000Z''"
proof -
  let ?s = "''2026-01-05T08:00:00-08:00''"
  have a: "HAS_TIMEZONE_REGEX_test (trim ?s)"
    by (simp only: sample_absolute)
  have b: "Date_parse utc_env (trim ?s) = Some 1767628800000"
    by (simp add: sample_absolute utc_env_def)
  have c: "valid_time 1767628800000" by (simp add: valid_time_def)
  note t = absolute_input_ignores_context[OF a b c, of "Some ''America/New_York''"]
  from t have 1: "parseDeadline utc_env (Some (DateStr ?s)) (Some ''America/New_York'')
     = Inr ''2026-01-05T16:00:00.000Z''"
    by (simp add: iso_literal_jan5)
  from t have 3: "instant_of_iso_text ''2026-01-05T16:00:00.000Z'' = Some 1767628800000"
    by (simp add: iso_literal_jan5)
  from t have "parseDeadline
      (utc_env\<lparr>now := now utc_env, host_offset := host_offset utc_env,
         host_utc := host_utc utc_env, host_zone_name := host_zone_name utc_env,
         MCP_DEFAULT_TIMEZONE := Some ''Antarctica/Troll'',
         cachedAccountTimeZone := cachedAccountTimeZone utc_env, tzdb := tzdb utc_env\<rparr>)
      (Some (DateStr ?s)) None = Inr (iso_text 1767628800000)"
    by blast
  then have 2: "parseDeadline (utc_env\<lparr>MCP_DEFAULT_TIMEZONE := Some ''Antarctica/Troll''\<rparr>)
       (Some (DateStr ?s)) None = Inr ''2026-01-05T16:00:00.000Z''"
    by (simp add: iso_literal_jan5)
  from 1 2 3 show ?thesis by simp
qed


subsection \<open>Local date-times that do not exist in the calendar\<close>

lemma assertValidLocalDateTime_invalid:
  assumes "\<not> valid_civil y mo d h mi s ms"
  shows "assertValidLocalDateTime
           \<lparr>year = y, month = mo, day = d, hour = h, minute = mi, second = s\<rparr> ms str
         = Inl (invalid_error mo d h mi s ms str)"
proof (cases "1 \<le> mo \<and> mo \<le> 12 \<and> 1 \<le> d \<and> d \<le> 31 \<and> 0 \<le> h \<and> h \<le> 23
      \<and> 0 \<le> mi \<and> mi \<le> 59 \<and> 0 \<le> s \<and> s \<le> 59 \<and> 0 \<le> ms \<and> ms \<le> 999")
  case False
  then show ?thesis
    by (auto simp: assertValidLocalDateTime_def invalid_error_def)
next
  case True
  with assms have big: "days_in_month y mo < d" by (simp add: valid_civil_def)
  define u where "u = Date_UTC y (mo - 1) d h mi s ms"
  have "\<not> (YearFromTime u = y \<and> MonthFromTime u + 1 = mo \<and> DateFromTime u = d)"
    using date_of_time_valid[of u] big by auto
  then show ?thesis
    using True by (auto simp: assertValidLocalDateTime_def invalid_error_def u_def Let_def)
qed

lemma assertValidLocalDateTime_valid:
  assumes "valid_civil y mo d h mi s ms" "99 < y"
  shows "assertValidLocalDateTime
           \<lparr>year = y, month = mo, day = d, hour = h, minute = mi, second = s\<rparr> ms str = Inr ()"
proof -
  have y: "y < 0 \<or> 99 < y" using assms(2) by simp
  note f = fields_of_Date_UTC[OF assms(1) y]
  have "d \<le> 31" using assms(1) InLeapYear_cases[of y]
    by (auto simp: valid_civil_def days_in_month_def split: if_splits)
  then show ?thesis
    using assms(1) by (simp add: assertValidLocalDateTime_def f valid_civil_def)
qed

lemma local_match_no_timezone:
  assumes "LOCAL_DATETIME_REGEX_match s = Some m"
  shows "\<not> HAS_TIMEZONE_REGEX_test s"
proof -
  have nd: "\<not> is_digit CHR ''.''" "\<not> is_digit CHR '':''" "\<not> is_digit CHR ''-''"
    by (simp_all add: is_digit_def)
  have sp: "\<And>c. is_space c \<Longrightarrow> c \<noteq> CHR ''+'' \<and> c \<noteq> CHR ''-'' \<and> c \<noteq> CHR '':''"
    by (auto simp: is_space_def)
  have dz: "\<And>c. is_digit c \<Longrightarrow> c \<noteq> CHR ''z'' \<and> c \<noteq> CHR ''Z'' \<and> c \<noteq> CHR '':''"
    by (auto simp: is_digit_def)
  from assms obtain y1 y2 y3 y4 m1 m2 d1 d2 rest where
    s: "s = y1 # y2 # y3 # y4 # CHR ''-'' # m1 # m2 # CHR ''-'' # d1 # d2 # rest"
    and dg: "is_digit d1" "is_digit d2"
    and mt: "match_time rest \<noteq> None"
    by (auto simp: LOCAL_DATETIME_REGEX_match_def split: list.splits if_splits)
  show ?thesis
  proof (cases rest)
    case Nil
    then show ?thesis using s dg dz nd by (simp add: HAS_TIMEZONE_REGEX_test_def)
  next
    case (Cons sep r1)
    with mt obtain h1 h2 r2 where r1: "r1 = h1 # h2 # r2" and sep: "sep = CHR ''T'' \<or> is_space sep"
      and hd: "is_digit h1" "is_digit h2" and mm: "match_minutes r2 \<noteq> None"
      by (auto simp: match_time_def split: list.splits if_splits)
    have sep': "sep \<noteq> CHR ''+''" "sep \<noteq> CHR ''-''" "sep \<noteq> CHR '':''"
      using sep sp by auto
    show ?thesis
    proof (cases r2)
      case Nil
      then show ?thesis using s Cons r1 hd dz sep'
        by (simp add: HAS_TIMEZONE_REGEX_test_def)
    next
      case c2: (Cons c r3)
      with mm obtain mi1 mi2 r4 where r3: "c = CHR '':''" "r3 = mi1 # mi2 # r4"
        and md: "is_digit mi1" "is_digit mi2" and ms: "match_seconds r4 \<noteq> None"
        by (auto simp: match_minutes_def split: list.splits if_splits)
      show ?thesis
      proof (cases r4)
        case Nil
        then show ?thesis using s Cons r1 c2 r3 md dz sep'
          by (simp add: HAS_TIMEZONE_REGEX_test_def)
      next
        case c4: (Cons c' r5)
        with ms obtain s1 s2 r6 where r5: "c' = CHR '':''" "r5 = s1 # s2 # r6"
          and sd: "is_digit s1" "is_digit s2" and mf: "match_fraction r6 \<noteq> None"
          by (auto simp: match_seconds_def split: list.splits if_splits)
        show ?thesis
        proof (cases r6)
          case Nil
          then show ?thesis using s Cons r1 c2 r3 c4 r5 sd dz
            by (simp add: HAS_TIMEZONE_REGEX_test_def)
        next
          case c6: (Cons dot fs)
          with mf have dot: "dot = CHR ''.''" and fl: "1 \<le> length fs" "length fs \<le> 3"
            and fd: "list_all is_digit fs"
            by (auto simp: match_fraction_def split: if_splits)
          from fl obtain f1 where "fs = [f1] \<or> (\<exists>f2. fs = [f1, f2]) \<or> (\<exists>f2 f3. fs = [f1, f2, f3])"
            by (cases fs; cases "tl fs"; cases "tl (tl fs)"; cases "tl (tl (tl fs))") auto
          then show ?thesis using s Cons r1 c2 r3 c4 r5 c6 dot fd dz nd
            by (auto simp: HAS_TIMEZONE_REGEX_test_def)
        qed
      qed
    qed
  qed
qed

lemma parseDeadline_local:
  assumes "LOCAL_DATETIME_REGEX_match (trim str) = Some m"
  shows "parseDeadline e (Some (DateStr str)) tzopt = parse_local e str m tzopt"
  using assms local_match_no_timezone[OF assms]
  by (simp add: parseDeadline_def Let_def)

text \<open>
  Claim C8. A string that matches the local date-time grammar and whose components do not name
  a real date and time (month outside 1..12, day outside 1..31 or beyond the end of its month,
  hour outside 0..23, minute or second outside 0..59, milliseconds outside 0..999) makes
  \<^verbatim>\<open>parseDeadline\<close> fail, with the error of the first range test that fails or, for a date that
  would roll over, with the invalid date/time error; no instant is returned.
\<close>

theorem invalid_local_datetime_rejected:
  assumes "LOCAL_DATETIME_REGEX_match (trim str) = Some m"
      and "\<not> valid_civil (Number_of (yearRaw m)) (Number_of (monthRaw m)) (Number_of (dayRaw m))
               (Number_or_zero (hourRaw m)) (Number_or_zero (minuteRaw m))
               (Number_or_zero (secondRaw m)) (millisecond_of (millisecondRaw m))"
  shows "parseDeadline e (Some (DateStr str)) tzopt
         = Inl (invalid_error (Number_of (monthRaw m)) (Number_of (dayRaw m))
                  (Number_or_zero (hourRaw m)) (Number_or_zero (minuteRaw m))
                  (Number_or_zero (secondRaw m)) (millisecond_of (millisecondRaw m)) str)"
  unfolding parseDeadline_local[OF assms(1)] parse_local_def Let_def
  by (simp add: assertValidLocalDateTime_invalid[OF assms(2)])

lemma sample_invalid_strings:
  "LOCAL_DATETIME_REGEX_match (trim ''2026-02-30T09:00:00'')
     = Some \<lparr>yearRaw = ''2026'', monthRaw = ''02'', dayRaw = ''30'', hourRaw = Some ''09'',
             minuteRaw = Some ''00'', secondRaw = Some ''00'', millisecondRaw = None\<rparr>"
  "LOCAL_DATETIME_REGEX_match (trim ''2026-01-05T25:00:00'')
     = Some \<lparr>yearRaw = ''2026'', monthRaw = ''01'', dayRaw = ''05'', hourRaw = Some ''25'',
             minuteRaw = Some ''00'', secondRaw = Some ''00'', millisecondRaw = None\<rparr>"
  by (simp_all add: trim_def is_space_def LOCAL_DATETIME_REGEX_match_def is_digit_def
      match_time_def match_minutes_def match_seconds_def match_fraction_def)

lemma sample_numbers:
  "Number_of ''2026'' = 2026" "Number_of ''02'' = 2" "Number_of ''30'' = 30"
  "Number_of ''01'' = 1" "Number_of ''05'' = 5" "Number_of ''09'' = 9" "Number_of ''25'' = 25"
  "Number_of ''00'' = 0"
  by (simp_all add: Number_of_def digit_val_def)

theorem invalid_local_datetime_witness:
  "parseDeadline utc_env (Some (DateStr ''2026-02-30T09:00:00'')) (Some ''America/Los_Angeles'')
     = Inl (InvalidDateTime ''2026-02-30T09:00:00'')
   \<and> parseDeadline utc_env (Some (DateStr ''2026-01-05T25:00:00'')) (Some ''America/Los_Angeles'')
     = Inl (InvalidHour ''2026-01-05T25:00:00'')"
proof -
  have a: "\<not> valid_civil 2026 2 30 9 0 0 0" "\<not> valid_civil 2026 1 5 25 0 0 0"
    by (simp_all add: valid_civil_def days_in_month_def InLeapYear_def DaysInYear_def)
  have 1: "parseDeadline utc_env (Some (DateStr ''2026-02-30T09:00:00''))
            (Some ''America/Los_Angeles'') = Inl (InvalidDateTime ''2026-02-30T09:00:00'')"
    using invalid_local_datetime_rejected[OF sample_invalid_strings(1), of utc_env
        "Some ''America/Los_Angeles''"] a
    by (simp add: sample_numbers Number_or_zero_def millisecond_of_def invalid_error_def)
  have 2: "parseDeadline utc_env (Some (DateStr ''2026-01-05T25:00:00''))
            (Some ''America/Los_Angeles'') = Inl (InvalidHour ''2026-01-05T25:00:00'')"
    using invalid_local_datetime_rejected[OF sample_invalid_strings(2), of utc_env
        "Some ''America/Los_Angeles''"] a
    by (simp add: sample_numbers Number_or_zero_def millisecond_of_def invalid_error_def)
  from 1 2 show ?thesis by simp
qed


section \<open>Properties of the create and update flows\<close>

lemma fails_with_conflict_simps [simp]:
  "fails_with_conflict (Inr x) = False"
  "fails_with_conflict (Inl (ChunkSizeConflict a b)) = True"
  "fails_with_conflict (Inl (NotMultipleOfChunk f v)) = False"
  "fails_with_conflict (Inl LockRequiresDuration) = False"
  "fails_with_conflict (Inl (InvalidDateTime s)) = False"
  "fails_with_conflict (Inl (InvalidMonth s)) = False"
  "fails_with_conflict (Inl (InvalidDay s)) = False"
  "fails_with_conflict (Inl (InvalidHour s)) = False"
  "fails_with_conflict (Inl (InvalidMinute s)) = False"
  "fails_with_conflict (Inl (InvalidSecond s)) = False"
  "fails_with_conflict (Inl (InvalidMilliseconds s)) = False"
  "fails_with_conflict (Inl (InvalidTimeZone s)) = False"
  "fails_with_conflict (Inl (InvalidDateFormat s)) = False"
  "fails_with_conflict (Inl RangeError) = False"
  "fails_with_conflict (Inl NothingToUpdate) = False"
  by (simp_all add: fails_with_conflict_def is_conflict_def)

lemma and_then_conflict:
  "fails_with_conflict (and_then m f)
   = (fails_with_conflict m \<or> (\<exists>x. m = Inr x \<and> fails_with_conflict (f x)))"
  by (cases m) (simp_all add: fails_with_conflict_def)

lemma toISOString_no_conflict [simp]: "\<not> fails_with_conflict (toISOString t)"
  by (simp add: toISOString_def)

lemma assertValid_no_conflict [simp]:
  "\<not> fails_with_conflict (assertValidLocalDateTime p ms str)"
  by (simp add: assertValidLocalDateTime_def Let_def)

lemma assertValidTimeZone_no_conflict [simp]:
  "\<not> fails_with_conflict (assertValidTimeZone e tz)"
  by (simp add: assertValidTimeZone_def split: option.splits)

lemma parse_with_engine_no_conflict [simp]:
  "\<not> fails_with_conflict (parse_with_engine e str trimmed)"
  by (simp add: parse_with_engine_def split: option.splits)

lemma parse_local_no_conflict [simp]:
  "\<not> fails_with_conflict (parse_local e str m tzopt)"
  by (simp add: parse_local_def Let_def and_then_conflict)

lemma parseDeadline_no_conflict [simp]:
  "\<not> fails_with_conflict (parseDeadline e v tzopt)"
  by (simp add: parseDeadline_def Let_def split: option.splits time_input.splits)

lemma normalizeChunkInputs_no_conflict [simp]:
  "\<not> fails_with_conflict (normalizeChunkInputs d)"
  by (simp add: normalizeChunkInputs_eq Let_def)

lemma validateChunkSizes_ordered:
  "validateChunkSizes p = (if bounds_ordered p then Inr ()
     else Inl (ChunkSizeConflict (the (minChunkSize p)) (the (maxChunkSize p))))"
  by (auto simp: validateChunkSizes_def bounds_ordered_def split: option.splits)

lemma clamp_chunks_ordered: "bounds_ordered (clamp_chunks p)"
  by (cases "timeChunksRequired p"; cases "minChunkSize p"; cases "maxChunkSize p")
     (auto simp: clamp_chunks_def bounds_ordered_def Let_def)

lemma date_steps_keep_bounds:
  "normalize_due e tz p = Inr q \<Longrightarrow> minChunkSize q = minChunkSize p \<and> maxChunkSize q = maxChunkSize p"
  "normalize_snooze e tz p = Inr q \<Longrightarrow> minChunkSize q = minChunkSize p \<and> maxChunkSize q = maxChunkSize p"
  "deadline_to_due e tz p v = Inr q \<Longrightarrow> minChunkSize q = minChunkSize p \<and> maxChunkSize q = maxChunkSize p"
  by (auto simp: normalize_due_def normalize_snooze_def deadline_to_due_def and_then_def
      split: option.splits sum.splits)

lemma date_steps_no_conflict [simp]:
  "\<not> fails_with_conflict (normalize_due e tz p)"
  "\<not> fails_with_conflict (normalize_snooze e tz p)"
  "\<not> fails_with_conflict (deadline_to_due e tz p v)"
  by (simp_all add: normalize_due_def normalize_snooze_def deadline_to_due_def and_then_conflict
      split: option.splits)

lemma validated_iff:
  "validated p = (if bounds_ordered p then Inr p
     else Inl (ChunkSizeConflict (the (minChunkSize p)) (the (maxChunkSize p))))"
  by (simp add: validated_def validateChunkSizes_ordered)

lemma and_then_Inr_iff: "and_then m f = Inr y \<longleftrightarrow> (\<exists>x. m = Inr x \<and> f x = Inr y)"
  by (cases m) simp_all

lemma middle_steps_keep_bounds:
  "ensure_due e tz defaults p = Inr q \<Longrightarrow> minChunkSize q = minChunkSize p \<and> maxChunkSize q = maxChunkSize p"
  "ensure_due_at_time e tz defaults st p = Inr q \<Longrightarrow> minChunkSize q = minChunkSize p \<and> maxChunkSize q = maxChunkSize p"
  "rename_deadline e tz p = Inr q \<Longrightarrow> minChunkSize q = minChunkSize p \<and> maxChunkSize q = maxChunkSize p"
  using date_steps_keep_bounds(3)[of e tz p _ q]
  by (auto simp: ensure_due_def ensure_due_at_time_def rename_deadline_def and_then_Inr_iff
      split: option.splits if_splits)

lemma middle_steps_no_conflict [simp]:
  "\<not> fails_with_conflict (ensure_due e tz defaults p)"
  "\<not> fails_with_conflict (ensure_due_at_time e tz defaults st p)"
  "\<not> fails_with_conflict (rename_deadline e tz p)"
  by (simp_all add: ensure_due_def ensure_due_at_time_def rename_deadline_def and_then_conflict
      split: option.splits)

lemma validated_after:
  assumes "bounds_ordered p0" "minChunkSize p = minChunkSize p0" "maxChunkSize p = maxChunkSize p0"
  shows "validated p = Inr p"
  using assms by (simp add: validated_iff bounds_ordered_def)

text \<open>The three date steps in a row, followed by the validation, as all three flows run them.\<close>

lemma date_pipeline:
  assumes o: "bounds_ordered p0"
      and s1: "\<And>p q. step1 p = Inr q \<Longrightarrow> minChunkSize q = minChunkSize p \<and> maxChunkSize q = maxChunkSize p"
      and s2: "\<And>p q. step2 p = Inr q \<Longrightarrow> minChunkSize q = minChunkSize p \<and> maxChunkSize q = maxChunkSize p"
      and s3: "\<And>p q. step3 p = Inr q \<Longrightarrow> minChunkSize q = minChunkSize p \<and> maxChunkSize q = maxChunkSize p"
      and n: "\<And>p. \<not> fails_with_conflict (step1 p)" "\<And>p. \<not> fails_with_conflict (step2 p)"
             "\<And>p. \<not> fails_with_conflict (step3 p)"
  shows "\<not> fails_with_conflict
            (and_then (step1 p0) (\<lambda>p1. and_then (step2 p1) (\<lambda>p2. and_then (step3 p2) validated)))"
    and "and_then (step1 p0) (\<lambda>p1. and_then (step2 p1) (\<lambda>p2. and_then (step3 p2) validated)) = Inr q
         \<Longrightarrow> minChunkSize q = minChunkSize p0 \<and> maxChunkSize q = maxChunkSize p0"
proof -
  have v: "validated p3 = Inr p3"
    if "step1 p0 = Inr p1" "step2 p1 = Inr p2" "step3 p2 = Inr p3" for p1 p2 p3
    using s1[OF that(1)] s2[OF that(2)] s3[OF that(3)] by (intro validated_after[OF o]) simp_all
  show "\<not> fails_with_conflict
            (and_then (step1 p0) (\<lambda>p1. and_then (step2 p1) (\<lambda>p2. and_then (step3 p2) validated)))"
    using n v by (auto simp: and_then_conflict)
  show "minChunkSize q = minChunkSize p0 \<and> maxChunkSize q = maxChunkSize p0"
    if "and_then (step1 p0) (\<lambda>p1. and_then (step2 p1) (\<lambda>p2. and_then (step3 p2) validated)) = Inr q"
  proof -
    from that obtain p1 p2 p3 where st: "step1 p0 = Inr p1" "step2 p1 = Inr p2" "step3 p2 = Inr p3"
      and "validated p3 = Inr q"
      by (auto simp: and_then_Inr_iff)
    with v[OF st] have "q = p3" by simp
    then show ?thesis using s1[OF st(1)] s2[OF st(2)] s3[OF st(3)] by simp
  qed
qed

lemma createTask_bounds:
  "\<not> fails_with_conflict (createTask e d tzarg defaults)"
  "createTask e d tzarg defaults = Inr q \<Longrightarrow>
     minChunkSize q = minChunkSize (applyTaskDefaultsForCreate d defaults)
     \<and> maxChunkSize q = maxChunkSize (applyTaskDefaultsForCreate d defaults)"
  unfolding createTask_def Let_def
  by (rule date_pipeline[where ?p0.0 = "applyTaskDefaultsForCreate d defaults"];
      (simp add: applyTaskDefaultsForCreate_def clamp_chunks_ordered
         date_steps_keep_bounds middle_steps_keep_bounds)?)+

lemma updateTask_bounds:
  "\<not> fails_with_conflict (updateTask e d tzarg defaults)"
  "updateTask e d tzarg defaults = Inr q \<Longrightarrow>
     minChunkSize q = minChunkSize (normalizeTaskPatch d defaults)
     \<and> maxChunkSize q = maxChunkSize (normalizeTaskPatch d defaults)"
  unfolding updateTask_def Let_def
  by (rule date_pipeline[where ?p0.0 = "normalizeTaskPatch d defaults"];
      (simp add: normalizeTaskPatch_def clamp_chunks_ordered
         date_steps_keep_bounds middle_steps_keep_bounds)?)+

lemma createTaskAtTime_bounds:
  "\<not> fails_with_conflict (createTaskAtTime e start d tzarg defaults)"
  "createTaskAtTime e start d tzarg defaults = Inr (st, q) \<Longrightarrow>
     minChunkSize q = minChunkSize (applyTaskDefaultsForCreate d defaults)
     \<and> maxChunkSize q = maxChunkSize (applyTaskDefaultsForCreate d defaults)"
proof -
  define p0 where "p0 = applyTaskDefaultsForCreate d defaults"
  define tz where "tz = resolvedTimeZone_of e tzarg"
  define rest where "rest = (\<lambda>iso. and_then (normalize_due e tz p0) (\<lambda>p1.
         and_then (ensure_due_at_time e tz defaults iso p1) (\<lambda>p2.
         and_then (normalize_snooze e tz p2) validated)))"
  have o: "bounds_ordered p0"
    by (simp add: p0_def applyTaskDefaultsForCreate_def clamp_chunks_ordered)
  have r: "\<not> fails_with_conflict (rest iso)"
     "rest iso = Inr q' \<Longrightarrow> minChunkSize q' = minChunkSize p0 \<and> maxChunkSize q' = maxChunkSize p0"
    for iso q'
    unfolding rest_def
    by (rule date_pipeline[where ?p0.0 = p0];
        (simp add: o date_steps_keep_bounds middle_steps_keep_bounds)?)+
  have c: "createTaskAtTime e start d tzarg defaults
        = and_then (parseDeadline e (Some (DateStr start)) tz)
            (\<lambda>iso. and_then (rest iso) (\<lambda>p4. Inr (iso, p4)))"
    unfolding createTaskAtTime_def Let_def p0_def[symmetric] tz_def[symmetric] rest_def
    by (auto simp: and_then_def split: sum.splits)
  show "\<not> fails_with_conflict (createTaskAtTime e start d tzarg defaults)"
    unfolding c using r(1) by (simp add: and_then_conflict)
  show "minChunkSize q = minChunkSize (applyTaskDefaultsForCreate d defaults)
     \<and> maxChunkSize q = maxChunkSize (applyTaskDefaultsForCreate d defaults)"
    if "createTaskAtTime e start d tzarg defaults = Inr (st, q)"
  proof -
    from that obtain iso p4 where "rest iso = Inr p4" "(iso, p4) = (st, q)"
      unfolding c by (auto simp: and_then_Inr_iff)
    then show ?thesis using r(2)[of iso q] by (simp add: p0_def)
  qed
qed

lemma reclaim_create_task_no_conflict:
  "\<not> fails_with_conflict (reclaim_create_task e params defaults)"
  unfolding reclaim_create_task_def Let_def
  by (simp add: and_then_conflict createTask_bounds(1) createTaskAtTime_bounds(1) split_def)

lemma reclaim_update_task_no_conflict:
  "\<not> fails_with_conflict (reclaim_update_task e params defaults)"
  unfolding reclaim_update_task_def Let_def
  by (simp add: and_then_conflict updateTask_bounds(1))

lemma date_steps_keep_total:
  "normalize_due e tz p = Inr q \<Longrightarrow> timeChunksRequired q = timeChunksRequired p"
  "normalize_snooze e tz p = Inr q \<Longrightarrow> timeChunksRequired q = timeChunksRequired p"
  "deadline_to_due e tz p v = Inr q \<Longrightarrow> timeChunksRequired q = timeChunksRequired p"
  by (auto simp: normalize_due_def normalize_snooze_def deadline_to_due_def and_then_def
      split: option.splits sum.splits)

lemma middle_steps_keep_total:
  "ensure_due e tz defaults p = Inr q \<Longrightarrow> timeChunksRequired q = timeChunksRequired p"
  "ensure_due_at_time e tz defaults st p = Inr q \<Longrightarrow> timeChunksRequired q = timeChunksRequired p"
  "rename_deadline e tz p = Inr q \<Longrightarrow> timeChunksRequired q = timeChunksRequired p"
  using date_steps_keep_total(3)[of e tz p _ q]
  by (auto simp: ensure_due_def ensure_due_at_time_def rename_deadline_def and_then_Inr_iff
      split: option.splits if_splits)

lemma validated_Inr: "validated p = Inr q \<Longrightarrow> q = p"
  by (simp add: validated_iff split: if_splits)

lemma date_pipeline_total:
  assumes s1: "\<And>p q. step1 p = Inr q \<Longrightarrow> timeChunksRequired q = timeChunksRequired p"
      and s2: "\<And>p q. step2 p = Inr q \<Longrightarrow> timeChunksRequired q = timeChunksRequired p"
      and s3: "\<And>p q. step3 p = Inr q \<Longrightarrow> timeChunksRequired q = timeChunksRequired p"
      and r: "and_then (step1 p0) (\<lambda>p1. and_then (step2 p1) (\<lambda>p2. and_then (step3 p2) validated))
              = Inr q"
  shows "timeChunksRequired q = timeChunksRequired p0"
proof -
  from r obtain p1 p2 p3 where st: "step1 p0 = Inr p1" "step2 p1 = Inr p2" "step3 p2 = Inr p3"
    and "validated p3 = Inr q"
    by (auto simp: and_then_Inr_iff)
  then have "q = p3" by (simp add: validated_Inr)
  then show ?thesis using s1[OF st(1)] s2[OF st(2)] s3[OF st(3)] by simp
qed

lemma createTask_total:
  "createTask e d tzarg defaults = Inr q \<Longrightarrow>
     timeChunksRequired q = timeChunksRequired (applyTaskDefaultsForCreate d defaults)"
  unfolding createTask_def Let_def
  by (erule date_pipeline_total[rotated 3])
     (simp_all add: date_steps_keep_total middle_steps_keep_total)

lemma updateTask_total:
  "updateTask e d tzarg defaults = Inr q \<Longrightarrow>
     timeChunksRequired q = timeChunksRequired (normalizeTaskPatch d defaults)"
  unfolding updateTask_def Let_def
  by (erule date_pipeline_total[rotated 3])
     (simp_all add: date_steps_keep_total middle_steps_keep_total)

lemma createTaskAtTime_total:
  assumes "createTaskAtTime e start d tzarg defaults = Inr (st, q)"
  shows "timeChunksRequired q = timeChunksRequired (applyTaskDefaultsForCreate d defaults)"
proof -
  define p0 where "p0 = applyTaskDefaultsForCreate d defaults"
  define tz where "tz = resolvedTimeZone_of e tzarg"
  define rest where "rest = (\<lambda>iso. and_then (normalize_due e tz p0) (\<lambda>p1.
         and_then (ensure_due_at_time e tz defaults iso p1) (\<lambda>p2.
         and_then (normalize_snooze e tz p2) validated)))"
  have r: "rest iso = Inr q' \<Longrightarrow> timeChunksRequired q' = timeChunksRequired p0" for iso q'
    unfolding rest_def
    by (erule date_pipeline_total[rotated 3])
       (simp_all add: date_steps_keep_total middle_steps_keep_total)
  have c: "createTaskAtTime e start d tzarg defaults
        = and_then (parseDeadline e (Some (DateStr start)) tz)
            (\<lambda>iso. and_then (rest iso) (\<lambda>p4. Inr (iso, p4)))"
    unfolding createTaskAtTime_def Let_def p0_def[symmetric] tz_def[symmetric] rest_def
    by (auto simp: and_then_def split: sum.splits)
  from assms obtain iso p4 where "rest iso = Inr p4" "(iso, p4) = (st, q)"
    unfolding c by (auto simp: and_then_Inr_iff)
  then show ?thesis using r[of iso q] by (simp add: p0_def)
qed

lemma clamp_chunks_total [simp]:
  "timeChunksRequired (clamp_chunks p) = timeChunksRequired p"
  by (cases "timeChunksRequired p"; cases "minChunkSize p"; cases "maxChunkSize p")
     (simp_all add: clamp_chunks_def Let_def)

text \<open>
  The clamp on bounds that are out of order, or equal: both end as the minimum, capped at the
  total when there is one. The maximum is the one that moves.
\<close>

lemma clamp_chunks_raises_maximum:
  assumes "minChunkSize p = Some mn" "maxChunkSize p = Some mx" "mx \<le> mn"
  shows "minChunkSize (clamp_chunks p)
           = Some (case timeChunksRequired (clamp_chunks p) of None \<Rightarrow> mn | Some t \<Rightarrow> min mn t)"
    and "maxChunkSize (clamp_chunks p) = minChunkSize (clamp_chunks p)"
  using assms by (cases "timeChunksRequired p"; auto simp: clamp_chunks_def Let_def)+

lemma applyTaskDefaultsForCreate_raises_maximum:
  assumes "minChunkSize d = Some mn" "maxChunkSize d = Some mx" "mx \<le> mn"
  shows "minChunkSize (applyTaskDefaultsForCreate d defaults)
           = Some (case timeChunksRequired (applyTaskDefaultsForCreate d defaults) of
                     None \<Rightarrow> mn | Some t \<Rightarrow> min mn t)"
    and "maxChunkSize (applyTaskDefaultsForCreate d defaults)
           = minChunkSize (applyTaskDefaultsForCreate d defaults)"
  unfolding applyTaskDefaultsForCreate_def
  by (rule clamp_chunks_raises_maximum[where mn = mn and mx = mx];
      simp add: assms fill_bounds_present)+

lemma normalizeTaskPatch_raises_maximum:
  assumes "minChunkSize d = Some mn" "maxChunkSize d = Some mx" "mx \<le> mn"
  shows "minChunkSize (normalizeTaskPatch d defaults)
           = Some (case timeChunksRequired (normalizeTaskPatch d defaults) of
                     None \<Rightarrow> mn | Some t \<Rightarrow> min mn t)"
    and "maxChunkSize (normalizeTaskPatch d defaults)
           = minChunkSize (normalizeTaskPatch d defaults)"
  unfolding normalizeTaskPatch_def
  by (rule clamp_chunks_raises_maximum[where mn = mn and mx = mx]; simp add: assms)+

text \<open>
  What \<^verbatim>\<open>normalizeChunkInputs\<close> leaves of minute bounds that are out of order: the two
  quotients, or the total in both when the lock is set.
\<close>

lemma normalized_conflicting_minutes:
  assumes "minDurationMinutes params = Some a" "maxDurationMinutes params = Some b"
      and "b div 15 < a div 15"
      and "normalizeChunkInputs (params\<lparr>startTime := x, timeZone := y, timezone := z\<rparr>) = Inr d
           \<or> normalizeChunkInputs (params\<lparr>timeZone := y, timezone := z\<rparr>) = Inr d"
  shows "if lockChunkSizeToDuration params = Some True
         then \<exists>t. timeChunksRequired d = Some t \<and> minChunkSize d = Some t
                \<and> maxChunkSize d = Some t
         else minChunkSize d = Some (a div 15) \<and> maxChunkSize d = Some (b div 15)"
  using assms by (auto simp: normalizeChunkInputs_eq Let_def chunks_of_def split: if_splits)

lemma applyTaskDefaultsForCreate_repaired:
  assumes n: "if lockChunkSizeToDuration params = Some True
         then \<exists>t. timeChunksRequired d = Some t \<and> minChunkSize d = Some t
                \<and> maxChunkSize d = Some t
         else minChunkSize d = Some (a div 15) \<and> maxChunkSize d = Some (b div 15)"
      and c: "b div 15 < a div 15"
      and p: "p = applyTaskDefaultsForCreate d defaults"
  shows "minChunkSize p
           = Some (case timeChunksRequired p of
                     None \<Rightarrow> a div 15
                   | Some t \<Rightarrow> if lockChunkSizeToDuration params = Some True then t
                              else min (a div 15) t)
       \<and> maxChunkSize p = minChunkSize p"
proof (cases "lockChunkSizeToDuration params = Some True")
  case True
  with n obtain t where "timeChunksRequired d = Some t" "minChunkSize d = Some t"
    "maxChunkSize d = Some t" by auto
  from applyTaskDefaultsForCreate_locked[OF this, of defaults] True show ?thesis
    by (simp add: p)
next
  case False
  with n have b: "minChunkSize d = Some (a div 15)" "maxChunkSize d = Some (b div 15)"
    "b div 15 \<le> a div 15" using c by simp_all
  from applyTaskDefaultsForCreate_raises_maximum[OF b, of defaults] False show ?thesis
    by (simp add: p split: option.splits)
qed

lemma normalizeTaskPatch_repaired:
  assumes n: "if lockChunkSizeToDuration params = Some True
         then \<exists>t. timeChunksRequired d = Some t \<and> minChunkSize d = Some t
                \<and> maxChunkSize d = Some t
         else minChunkSize d = Some (a div 15) \<and> maxChunkSize d = Some (b div 15)"
      and c: "b div 15 < a div 15"
      and p: "p = normalizeTaskPatch d defaults"
  shows "minChunkSize p
           = Some (case timeChunksRequired p of
                     None \<Rightarrow> a div 15
                   | Some t \<Rightarrow> if lockChunkSizeToDuration params = Some True then t
                              else min (a div 15) t)
       \<and> maxChunkSize p = minChunkSize p"
proof (cases "lockChunkSizeToDuration params = Some True")
  case True
  with n obtain t where t: "timeChunksRequired d = Some t" "minChunkSize d = Some t"
    "maxChunkSize d = Some t" by auto
  have "timeChunksRequired p = Some t \<and> minChunkSize p = Some t \<and> maxChunkSize p = Some t"
    unfolding p normalizeTaskPatch_def by (rule clamp_chunks_locked) (simp_all add: t)
  with True show ?thesis by simp
next
  case False
  with n have b: "minChunkSize d = Some (a div 15)" "maxChunkSize d = Some (b div 15)"
    "b div 15 \<le> a div 15" using c by simp_all
  from normalizeTaskPatch_raises_maximum[OF b, of defaults] False show ?thesis
    by (simp add: p split: option.splits)
qed

lemma reclaim_create_task_repaired:
  assumes "minDurationMinutes params = Some a" "maxDurationMinutes params = Some b"
      and "b div 15 < a div 15"
      and "reclaim_create_task e params defaults = Inr r"
  shows "minChunkSize (payload_of r)
           = Some (case timeChunksRequired (payload_of r) of
                     None \<Rightarrow> a div 15
                   | Some t \<Rightarrow> if lockChunkSizeToDuration params = Some True then t
                              else min (a div 15) t)
       \<and> maxChunkSize (payload_of r) = minChunkSize (payload_of r)"
proof -
  from assms(4) obtain d where
    d: "normalizeChunkInputs (params\<lparr>startTime := None, timeZone := None, timezone := None\<rparr>) = Inr d"
    and r: "(if truthy (startTime params)
           then and_then (createTaskAtTime e (the (startTime params)) d
                            (nullish (timeZone params) (timezone params)) defaults)
                  (\<lambda>(st, p). Inr (CreatedAtTime st p))
           else and_then (createTask e d (nullish (timeZone params) (timezone params)) defaults)
                  (\<lambda>p. Inr (Created p))) = Inr r"
    unfolding reclaim_create_task_def Let_def by (auto simp: and_then_Inr_iff)
  have n: "if lockChunkSizeToDuration params = Some True
         then \<exists>t. timeChunksRequired d = Some t \<and> minChunkSize d = Some t
                \<and> maxChunkSize d = Some t
         else minChunkSize d = Some (a div 15) \<and> maxChunkSize d = Some (b div 15)"
    by (rule normalized_conflicting_minutes[OF assms(1-3)]) (use d in blast)
  note c = applyTaskDefaultsForCreate_repaired[OF n assms(3) refl, of defaults]
  show ?thesis
  proof (cases "truthy (startTime params)")
    case True
    with r obtain st q where q: "createTaskAtTime e (the (startTime params)) d
        (nullish (timeZone params) (timezone params)) defaults = Inr (st, q)"
      and "r = CreatedAtTime st q"
      by (auto simp: and_then_Inr_iff)
    with createTaskAtTime_bounds(2)[OF q] createTaskAtTime_total[OF q] c show ?thesis
      by (simp add: payload_of_def)
  next
    case False
    with r obtain q where q: "createTask e d (nullish (timeZone params) (timezone params)) defaults
        = Inr q" and "r = Created q"
      by (auto simp: and_then_Inr_iff)
    with createTask_bounds(2)[OF q] createTask_total[OF q] c show ?thesis
      by (simp add: payload_of_def)
  qed
qed

lemma reclaim_update_task_repaired:
  assumes "minDurationMinutes params = Some a" "maxDurationMinutes params = Some b"
      and "b div 15 < a div 15"
      and "reclaim_update_task e params defaults = Inr r"
  shows "minChunkSize (payload_of r)
           = Some (case timeChunksRequired (payload_of r) of
                     None \<Rightarrow> a div 15
                   | Some t \<Rightarrow> if lockChunkSizeToDuration params = Some True then t
                              else min (a div 15) t)
       \<and> maxChunkSize (payload_of r) = minChunkSize (payload_of r)"
proof -
  from assms(4) obtain d q where
    d: "normalizeChunkInputs (params\<lparr>timeZone := None, timezone := None\<rparr>) = Inr d"
    and q: "updateTask e d (nullish (timeZone params) (timezone params)) defaults = Inr q"
    and r: "r = Updated q"
    unfolding reclaim_update_task_def Let_def
    by (auto simp: and_then_Inr_iff split: if_splits)
  have n: "if lockChunkSizeToDuration params = Some True
         then \<exists>t. timeChunksRequired d = Some t \<and> minChunkSize d = Some t
                \<and> maxChunkSize d = Some t
         else minChunkSize d = Some (a div 15) \<and> maxChunkSize d = Some (b div 15)"
    by (rule normalized_conflicting_minutes[OF assms(1-3), where x = None]) (use d in blast)
  from normalizeTaskPatch_repaired[OF n assms(3) refl, of defaults]
    updateTask_bounds(2)[OF q] updateTask_total[OF q] r
  show ?thesis by (simp add: payload_of_def)
qed

text \<open>
  Claim C1 (as amended). A create or update call whose minute bounds convert to a minimum chunk
  count above the maximum never fails with the error of \<^verbatim>\<open>validateChunkSizes\<close>. The normalizer
  caps both bounds at the total and then raises the maximum to the minimum, so in a payload
  that is built the maximum equals the minimum, and the minimum is the converted minimum
  \<open>a div 15\<close>, capped at the payload's total when it has one. When the lock flag is set the tool
  has replaced both bounds by the total before, and both are the total.
\<close>

theorem conflicting_minute_bounds_are_repaired:
  assumes "minDurationMinutes params = Some a" "maxDurationMinutes params = Some b"
      and "b div 15 < a div 15"
  shows "\<not> fails_with_conflict (reclaim_create_task e params defaults)
       \<and> \<not> fails_with_conflict (reclaim_update_task e params defaults)
       \<and> (\<forall>r. reclaim_create_task e params defaults = Inr r
                \<or> reclaim_update_task e params defaults = Inr r \<longrightarrow>
              minChunkSize (payload_of r)
                = Some (case timeChunksRequired (payload_of r) of
                          None \<Rightarrow> a div 15
                        | Some t \<Rightarrow> if lockChunkSizeToDuration params = Some True then t
                                   else min (a div 15) t)
              \<and> maxChunkSize (payload_of r) = minChunkSize (payload_of r))"
  using reclaim_create_task_no_conflict reclaim_update_task_no_conflict
    reclaim_create_task_repaired[OF assms] reclaim_update_task_repaired[OF assms]
  by blast

lemma parseDeadline_default:
  "parseDeadline e None tzopt = toISOString (host_utc e (LocalTime e (now e) + 1 * msPerDay))"
  by (simp add: parseDeadline_def setDate_getDate)

lemma conflictInput_normalized:
  "normalizeChunkInputs (conflictInput\<lparr>startTime := None, timeZone := None, timezone := None\<rparr>)
   = Inr (emptyInput\<lparr>title := Some ''Plan'', minChunkSize := Some 4, maxChunkSize := Some 2\<rparr>)"
  "normalizeChunkInputs (conflictInput\<lparr>timeZone := None, timezone := None\<rparr>)
   = Inr (emptyInput\<lparr>title := Some ''Plan'', minChunkSize := Some 4, maxChunkSize := Some 2\<rparr>)"
  by (simp_all add: normalizeChunkInputs_eq conflictInput_def emptyInput_def bad_minutes_def
      chunks_of_def delete_tool_fields_def Let_def)

lemma conflictInput_defaults:
  "applyTaskDefaultsForCreate
     (emptyInput\<lparr>title := Some ''Plan'', minChunkSize := Some 4, maxChunkSize := Some 2\<rparr>) None
   = emptyInput\<lparr>title := Some ''Plan'', notes_field := Some [], eventCategory := Some ''WORK'',
       eventSubType := Some ''FOCUS'', priority := Some ''P3'', timeChunksRequired := Some 4,
       minChunkSize := Some 4, maxChunkSize := Some 4\<rparr>"
  by (simp add: applyTaskDefaultsForCreate_def fill_enums_def fill_flags_def fill_total_def
      fill_bounds_def clamp_chunks_def emptyInput_def Let_def opt_field_def positive_number_def
      or_zero_def truthy_def normalizeEventCategory_def normalizeEventSubType_def
      normalizePriority_def normalizeEnumValue_def nullish_def inferCategoryFromSubType_def)

lemma conflictInput_patch:
  "normalizeTaskPatch
     (emptyInput\<lparr>title := Some ''Plan'', minChunkSize := Some 4, maxChunkSize := Some 2\<rparr>) None
   = emptyInput\<lparr>title := Some ''Plan'', minChunkSize := Some 4, maxChunkSize := Some 4\<rparr>"
  by (simp add: normalizeTaskPatch_def patch_enums_def clamp_chunks_def emptyInput_def Let_def
      truthy_def)

lemma conflictInput_results:
  "reclaim_create_task utc_env conflictInput None
     = Inr (Created (emptyInput\<lparr>title := Some ''Plan'', notes_field := Some [],
         eventCategory := Some ''WORK'', eventSubType := Some ''FOCUS'', priority := Some ''P3'',
         timeChunksRequired := Some 4, minChunkSize := Some 4, maxChunkSize := Some 4,
         due := Some (DateStr ''2026-03-08T20:00:00.000Z'')\<rparr>))
   \<and> reclaim_update_task utc_env conflictInput None
     = Inr (Updated (emptyInput\<lparr>title := Some ''Plan'', minChunkSize := Some 4,
         maxChunkSize := Some 4\<rparr>))"
proof -
  have due: "parseDeadline utc_env None None = Inr ''2026-03-08T20:00:00.000Z''"
    unfolding parseDeadline_default
    by (simp add: utc_env_def LocalTime_def tz_UTC_def msPerDay_def iso_literals)
  have tz: "resolvedTimeZone_of utc_env None = None"
    by (simp add: resolvedTimeZone_of_def nullish_def utc_env_def)
  have 1: "reclaim_create_task utc_env conflictInput None
     = Inr (Created (emptyInput\<lparr>title := Some ''Plan'', notes_field := Some [],
         eventCategory := Some ''WORK'', eventSubType := Some ''FOCUS'', priority := Some ''P3'',
         timeChunksRequired := Some 4, minChunkSize := Some 4, maxChunkSize := Some 4,
         due := Some (DateStr ''2026-03-08T20:00:00.000Z'')\<rparr>))"
    unfolding reclaim_create_task_def Let_def conflictInput_normalized
    apply (simp add: conflictInput_def emptyInput_def truthy_def nullish_def)
    apply (simp add: createTask_def tz conflictInput_defaults[unfolded emptyInput_def, simplified])
    apply (simp add: normalize_due_def ensure_due_def falsy_time_def positive_number_def
        opt_field_def due normalize_snooze_def validated_def validateChunkSizes_def)
    done
  have 2: "reclaim_update_task utc_env conflictInput None
     = Inr (Updated (emptyInput\<lparr>title := Some ''Plan'', minChunkSize := Some 4,
         maxChunkSize := Some 4\<rparr>))"
    unfolding reclaim_update_task_def Let_def conflictInput_normalized
    apply (simp add: conflictInput_def emptyInput_def truthy_def nullish_def no_keys_def)
    apply (simp add: updateTask_def tz conflictInput_patch[unfolded emptyInput_def, simplified])
    apply (simp add: normalize_due_def rename_deadline_def normalize_snooze_def validated_def
        validateChunkSizes_def)
    done
  from 1 2 show ?thesis by simp
qed

theorem conflicting_minute_bounds_witness:
  "\<not> fails_with_conflict (reclaim_create_task utc_env conflictInput None)
   \<and> \<not> fails_with_conflict (reclaim_update_task utc_env conflictInput None)
   \<and> (case reclaim_create_task utc_env conflictInput None of
         Inl err \<Rightarrow> False
       | Inr r \<Rightarrow> minChunkSize (payload_of r) = Some 4 \<and> maxChunkSize (payload_of r) = Some 4)
   \<and> (case reclaim_update_task utc_env conflictInput None of
         Inl err \<Rightarrow> False
       | Inr r \<Rightarrow> minChunkSize (payload_of r) = Some 4 \<and> maxChunkSize (payload_of r) = Some 4)"
proof -
  have h: "minDurationMinutes conflictInput = Some 60" "maxDurationMinutes conflictInput = Some 30"
    "(30::int) div 15 < 60 div 15"
    by (simp_all add: conflictInput_def)
  from conflicting_minute_bounds_are_repaired[OF h, of utc_env None] conflictInput_results
  show ?thesis by (simp add: payload_of_def emptyInput_def)
qed

text \<open>
  Claim C1 as stated fails: with \<^verbatim>\<open>minDurationMinutes = 60\<close> and \<^verbatim>\<open>maxDurationMinutes = 30\<close> (4 chunks
  against 2) the create tool builds a payload with both bounds 4, and so does the update tool;
  neither fails.
\<close>

theorem conflicting_minute_bounds_not_rejected:
  "reclaim_create_task utc_env conflictInput None
     = Inr (Created (emptyInput\<lparr>title := Some ''Plan'', notes_field := Some [],
         eventCategory := Some ''WORK'', eventSubType := Some ''FOCUS'', priority := Some ''P3'',
         timeChunksRequired := Some 4, minChunkSize := Some 4, maxChunkSize := Some 4,
         due := Some (DateStr ''2026-03-08T20:00:00.000Z'')\<rparr>))
   \<and> reclaim_update_task utc_env conflictInput None
     = Inr (Updated (emptyInput\<lparr>title := Some ''Plan'', minChunkSize := Some 4,
         maxChunkSize := Some 4\<rparr>))"
  by (rule conflictInput_results)


subsection \<open>The update normalizer adds nothing\<close>

lemma clamp_chunks_presence:
  "(timeChunksRequired (clamp_chunks p) = None) = (timeChunksRequired p = None)"
  "(minChunkSize (clamp_chunks p) = None) = (minChunkSize p = None)"
  "(maxChunkSize (clamp_chunks p) = None) = (maxChunkSize p = None)"
  by (cases "timeChunksRequired p"; cases "minChunkSize p"; cases "maxChunkSize p";
      simp add: clamp_chunks_def Let_def)+

lemma clamp_chunks_other:
  "title (clamp_chunks p) = title p" "notes_field (clamp_chunks p) = notes_field p"
  "eventCategory (clamp_chunks p) = eventCategory p" "eventSubType (clamp_chunks p) = eventSubType p"
  "priority (clamp_chunks p) = priority p" "timeChunksRequired (clamp_chunks p) = timeChunksRequired p"
  "onDeck (clamp_chunks p) = onDeck p" "alwaysPrivate (clamp_chunks p) = alwaysPrivate p"
  "timeSchemeId (clamp_chunks p) = timeSchemeId p" "status (clamp_chunks p) = status p"
  "deadline (clamp_chunks p) = deadline p" "snoozeUntil (clamp_chunks p) = snoozeUntil p"
  "eventColor (clamp_chunks p) = eventColor p" "due (clamp_chunks p) = due p"
  "TaskInputData.more (clamp_chunks p) = TaskInputData.more p"
  by (cases "timeChunksRequired p"; cases "minChunkSize p"; cases "maxChunkSize p";
      simp add: clamp_chunks_def Let_def)+

lemma patch_enums_presence:
  "(eventCategory (patch_enums defaults p) = None) = (eventCategory p = None)"
  "(eventSubType (patch_enums defaults p) = None) = (eventSubType p = None)"
  "(priority (patch_enums defaults p) = None) = (priority p = None)"
  "timeSchemeId (patch_enums defaults p) = (if timeSchemeId p = Some [] then None else timeSchemeId p)"
  by (auto simp: patch_enums_def Let_def truthy_def split: option.splits)

lemma patch_enums_other:
  "title (patch_enums defaults p) = title p" "notes_field (patch_enums defaults p) = notes_field p"
  "onDeck (patch_enums defaults p) = onDeck p" "alwaysPrivate (patch_enums defaults p) = alwaysPrivate p"
  "status (patch_enums defaults p) = status p"
  "deadline (patch_enums defaults p) = deadline p" "snoozeUntil (patch_enums defaults p) = snoozeUntil p"
  "eventColor (patch_enums defaults p) = eventColor p" "due (patch_enums defaults p) = due p"
  "TaskInputData.more (patch_enums defaults p) = TaskInputData.more p"
  by (simp_all add: patch_enums_def Let_def)

lemma in_flagged:
  "x \<in> set (map fst (filter snd xs)) \<longleftrightarrow> (x, True) \<in> set xs"
  by (induction xs) auto

lemma in_present_fields:
  "x \<in> set (present_fields p) \<longleftrightarrow>
     (x = ''title'' \<and> title p \<noteq> None) \<or> (x = ''notes'' \<and> notes_field p \<noteq> None)
     \<or> (x = ''eventCategory'' \<and> eventCategory p \<noteq> None)
     \<or> (x = ''eventSubType'' \<and> eventSubType p \<noteq> None)
     \<or> (x = ''priority'' \<and> priority p \<noteq> None)
     \<or> (x = ''timeChunksRequired'' \<and> timeChunksRequired p \<noteq> None)
     \<or> (x = ''minChunkSize'' \<and> minChunkSize p \<noteq> None)
     \<or> (x = ''maxChunkSize'' \<and> maxChunkSize p \<noteq> None)
     \<or> (x = ''onDeck'' \<and> onDeck p \<noteq> None)
     \<or> (x = ''alwaysPrivate'' \<and> alwaysPrivate p \<noteq> None)
     \<or> (x = ''timeSchemeId'' \<and> timeSchemeId p \<noteq> None)
     \<or> (x = ''status'' \<and> status p \<noteq> None)
     \<or> (x = ''deadline'' \<and> deadline p \<noteq> None)
     \<or> (x = ''snoozeUntil'' \<and> snoozeUntil p \<noteq> None)
     \<or> (x = ''eventColor'' \<and> eventColor p \<noteq> None)
     \<or> (x = ''due'' \<and> due p \<noteq> None)"
  unfolding present_fields_def in_flagged by simp

lemma normalizeTaskPatch_fields:
  "title (normalizeTaskPatch d defaults) = title d"
  "notes_field (normalizeTaskPatch d defaults) = notes_field d"
  "timeChunksRequired (normalizeTaskPatch d defaults) = timeChunksRequired d"
  "onDeck (normalizeTaskPatch d defaults) = onDeck d"
  "alwaysPrivate (normalizeTaskPatch d defaults) = alwaysPrivate d"
  "status (normalizeTaskPatch d defaults) = status d"
  "deadline (normalizeTaskPatch d defaults) = deadline d"
  "snoozeUntil (normalizeTaskPatch d defaults) = snoozeUntil d"
  "eventColor (normalizeTaskPatch d defaults) = eventColor d"
  "due (normalizeTaskPatch d defaults) = due d"
  "TaskInputData.more (normalizeTaskPatch d defaults) = TaskInputData.more d"
  "(eventCategory (normalizeTaskPatch d defaults) = None) = (eventCategory d = None)"
  "(eventSubType (normalizeTaskPatch d defaults) = None) = (eventSubType d = None)"
  "(priority (normalizeTaskPatch d defaults) = None) = (priority d = None)"
  "(minChunkSize (normalizeTaskPatch d defaults) = None) = (minChunkSize d = None)"
  "(maxChunkSize (normalizeTaskPatch d defaults) = None) = (maxChunkSize d = None)"
  "timeSchemeId (normalizeTaskPatch d defaults)
     = (if timeSchemeId d = Some [] then None else timeSchemeId d)"
  unfolding normalizeTaskPatch_def
  by (simp_all add: clamp_chunks_presence clamp_chunks_other patch_enums_presence
      patch_enums_other)

lemma patch_adds_no_field_aux:
  "set (present_fields (normalizeTaskPatch d defaults)) \<subseteq> set (present_fields d)
   \<and> due (normalizeTaskPatch d defaults) = due d
   \<and> deadline (normalizeTaskPatch d defaults) = deadline d"
proof -
  have "set (present_fields (normalizeTaskPatch d defaults)) \<subseteq> set (present_fields d)"
  proof
    fix x assume "x \<in> set (present_fields (normalizeTaskPatch d defaults))"
    then show "x \<in> set (present_fields d)"
      unfolding in_present_fields normalizeTaskPatch_fields
      by (elim disjE) (simp_all split: if_splits)
  qed
  then show ?thesis by (simp add: normalizeTaskPatch_fields)
qed

text \<open>
  Claim C9. The output of \<^verbatim>\<open>normalizeTaskPatch\<close> has no field that its input lacks, whatever the
  account defaults are: every field of the input is still there except possibly an empty
  \<^verbatim>\<open>timeSchemeId\<close>, and every field other than the three enumerated ones, the two chunk bounds
  and \<^verbatim>\<open>timeSchemeId\<close> is handed on unchanged.
\<close>

theorem patch_adds_no_field:
  "set (present_fields (normalizeTaskPatch d defaults)) \<subseteq> set (present_fields d)
   \<and> set (present_fields d) - {''timeSchemeId''}
       \<subseteq> set (present_fields (normalizeTaskPatch d defaults))
   \<and> title (normalizeTaskPatch d defaults) = title d
   \<and> notes_field (normalizeTaskPatch d defaults) = notes_field d
   \<and> timeChunksRequired (normalizeTaskPatch d defaults) = timeChunksRequired d
   \<and> onDeck (normalizeTaskPatch d defaults) = onDeck d
   \<and> alwaysPrivate (normalizeTaskPatch d defaults) = alwaysPrivate d
   \<and> status (normalizeTaskPatch d defaults) = status d
   \<and> deadline (normalizeTaskPatch d defaults) = deadline d
   \<and> snoozeUntil (normalizeTaskPatch d defaults) = snoozeUntil d
   \<and> eventColor (normalizeTaskPatch d defaults) = eventColor d
   \<and> due (normalizeTaskPatch d defaults) = due d
   \<and> TaskInputData.more (normalizeTaskPatch d defaults) = TaskInputData.more d"
proof -
  have a: "set (present_fields (normalizeTaskPatch d defaults)) \<subseteq> set (present_fields d)"
    using patch_adds_no_field_aux by blast
  have b: "set (present_fields d) - {''timeSchemeId''}
       \<subseteq> set (present_fields (normalizeTaskPatch d defaults))"
  proof
    fix x assume "x \<in> set (present_fields d) - {''timeSchemeId''}"
    then have "x \<in> set (present_fields d)" "x \<noteq> ''timeSchemeId''" by simp_all
    then show "x \<in> set (present_fields (normalizeTaskPatch d defaults))"
      unfolding in_present_fields normalizeTaskPatch_fields
      by (elim disjE) simp_all
  qed
  from a b show ?thesis by (simp add: normalizeTaskPatch_fields)
qed


section \<open>Daylight-saving transitions in zonedTimeToUtc\<close>


lemma YearFromTime_safe:
  assumes "- 59011459200000 \<le> x"
  shows "99 < YearFromTime x"
proof (rule ccontr)
  assume "\<not> 99 < YearFromTime x"
  then have "YearFromDay (Day x) + 1 \<le> 100" by (simp add: YearFromTime_def)
  then have "DayFromYear (YearFromDay (Day x) + 1) \<le> DayFromYear 100"
    by (rule DayFromYear_mono)
  moreover have "DayFromYear 100 = - 683003" by (simp add: DayFromYear_def)
  moreover have "- 683003 \<le> Day x"
  proof -
    have "(- 59011459200000) div 86400000 \<le> x div 86400000"
      using assms by (intro zdiv_mono1) simp_all
    then show ?thesis by (simp add: Day_def msPerDay_def)
  qed
  ultimately show False using YearFromDay_bounds[of "Day x"] by linarith
qed

lemma Date_UTC_lower:
  assumes "valid_civil y mo d h mi s ms" "101 \<le> y"
  shows "- 58979923200000 \<le> Date_UTC y (mo - 1) d h mi s ms"
proof -
  have m: "0 \<le> mo - 1" "mo - 1 \<le> 11" "1 \<le> d" "d \<le> days_in_month y (mo - 1 + 1)"
    using assms(1) by (simp_all add: valid_civil_def)
  have k: "0 \<le> days_before_month (InLeapYear y) (mo - 1) + d - 1"
    using days_before_month_valid[OF refl m] by simp
  have "DayFromYear 101 \<le> DayFromYear y" using assms(2) by (rule DayFromYear_mono)
  moreover have "DayFromYear 101 = - 682638" by (simp add: DayFromYear_def)
  ultimately have dy: "- 682638 \<le> MakeDay y (mo - 1) d"
    using k unfolding MakeDay_valid[OF m(1,2)] by linarith
  have tm: "0 \<le> MakeTime h mi s ms"
    using assms(1) by (simp add: MakeTime_def valid_civil_def)
  have "- 682638 * 86400000 \<le> MakeDay y (mo - 1) d * 86400000"
    using dy by simp
  then show ?thesis
    using tm assms(2) by (simp add: Date_UTC_def MakeDate_def msPerDay_def)
qed

lemma partsToUtcMillis_getZonedParts:
  assumes "99 < YearFromTime (t + tz t)"
  shows "partsToUtcMillis (getZonedParts t tz) = (t + tz t) - (t + tz t) mod 1000"
proof -
  define x where "x = t + tz t"
  have "Date_UTC (YearFromTime x) (MonthFromTime x) (DateFromTime x) (HourFromTime x)
           (MinFromTime x) (SecFromTime x) 0 = x - msFromTime x"
    using Date_UTC_of_fields[of x] assms
      Date_UTC_ms[of "YearFromTime x" "MonthFromTime x" "DateFromTime x" "HourFromTime x"
        "MinFromTime x" "SecFromTime x" "msFromTime x"]
    by (simp add: x_def)
  then show ?thesis
    by (simp add: partsToUtcMillis_def getZonedParts_def Let_def x_def msFromTime_def)
qed

lemma getTimeZoneOffset_eq:
  assumes "99 < YearFromTime (t + tz t)"
  shows "getTimeZoneOffset t tz = tz t - (t + tz t) mod 1000"
  using partsToUtcMillis_getZonedParts[of t tz] assms by (simp add: getTimeZoneOffset_def)

lemma getZonedParts_civil:
  assumes "valid_civil y mo d h mi s ms" "99 < y"
      and "t + tz t = Date_UTC y (mo - 1) d h mi s ms"
  shows "getZonedParts t tz = \<lparr>year = y, month = mo, day = d, hour = h, minute = mi, second = s\<rparr>"
proof -
  have y: "y < 0 \<or> 99 < y" using assms(2) by simp
  note f = fields_of_Date_UTC[OF assms(1) y]
  show ?thesis by (simp add: getZonedParts_def Let_def assms(3) f)
qed

lemma partsMatch_naive:
  "partsMatch a b \<Longrightarrow> partsToUtcMillis a = partsToUtcMillis b"
  by (simp add: partsMatch_def partsToUtcMillis_def)

lemma partsMatch_refl [simp]: "partsMatch a a"
  by (simp add: partsMatch_def)

lemma set_set_add [simp]: "set (set_add xs x) = insert x (set xs)"
  by (auto simp: set_add_def)

lemma set_candidate_offsets:
  "set (candidate_offsets g tz)
   = {getTimeZoneOffset g tz,
      getTimeZoneOffset (g - getTimeZoneOffset g tz) tz,
      getTimeZoneOffset (g - getTimeZoneOffset g tz + 3600000) tz,
      getTimeZoneOffset (g - getTimeZoneOffset g tz - 3600000) tz}"
  by (auto simp: candidate_offsets_def probe_offsets_def Let_def set_add_def)

lemma sort_key_hd_min:
  fixes f :: "'a \<Rightarrow> 'b::linorder"
  assumes "xs \<noteq> []"
  shows "\<exists>c cs. sort_key f xs = c # cs \<and> c \<in> set xs \<and> (\<forall>x \<in> set xs. f c \<le> f x)"
proof -
  have ne: "sort_key f xs \<noteq> []" using assms by (metis length_0_conv length_sort)
  then obtain c cs where s: "sort_key f xs = c # cs" by (cases "sort_key f xs") auto
  have "sorted (map f (sort_key f xs))" by (rule sorted_sort_key)
  then have "\<forall>x \<in> set cs. f c \<le> f x" unfolding s by simp
  moreover have "set (c # cs) = set xs" using s by (metis set_sort)
  ultimately show ?thesis using s by auto
qed

lemma window_safe:
  assumes "valid_civil y mo d h mi s ms" "101 \<le> y"
      and "Date_UTC y (mo - 1) d h mi s 0 - 259200000 \<le> x"
  shows "99 < YearFromTime x"
proof -
  have "valid_civil y mo d h mi s 0" using assms(1) by (simp add: valid_civil_def)
  from Date_UTC_lower[OF this assms(2)] assms(3) show ?thesis
    by (intro YearFromTime_safe) linarith
qed

lemma Date_UTC_whole_second: "1000 dvd Date_UTC y m d h mi s 0"
proof -
  have "Date_UTC y m d h mi s 0
        = 1000 * (MakeDay (if 0 \<le> y \<and> y \<le> 99 then 1900 + y else y) m d * 86400
                  + h * 3600 + mi * 60 + s)"
    by (simp add: Date_UTC_def MakeDate_def MakeTime_def msPerDay_def Let_def algebra_simps)
  then show ?thesis by simp
qed

lemma zonedTimeToUtc_no_match:
  assumes c: "cands = candidates_of (Date_UTC y (mo - 1) d h mi s ms) tz"
      and p: "P = \<lparr>year = y, month = mo, day = d, hour = h, minute = mi, second = s\<rparr>"
      and none: "\<forall>c\<in>set cands. \<not> partsMatch (snd c) P"
      and some: "\<exists>c\<in>set cands. partsToUtcMillis P \<le> partsToUtcMillis (snd c)"
  shows "\<exists>c\<in>set cands. zonedTimeToUtc y mo d h mi s ms tz = fst c
           \<and> partsToUtcMillis P \<le> partsToUtcMillis (snd c)
           \<and> (\<forall>c'\<in>set cands. partsToUtcMillis P \<le> partsToUtcMillis (snd c')
                 \<longrightarrow> partsToUtcMillis (snd c) \<le> partsToUtcMillis (snd c'))"
proof -
  define key where "key = (\<lambda>c :: int \<times> TimeParts. (partsToUtcMillis (snd c) - partsToUtcMillis P, fst c))"
  define later where "later = filter (\<lambda>c. partsToUtcMillis P \<le> partsToUtcMillis (snd c)) cands"
  have m: "filter (\<lambda>c. partsMatch (snd c) P) cands = []"
    using none by (simp add: filter_empty_conv)
  have ne: "later \<noteq> []" using some by (auto simp: later_def filter_empty_conv)
  from sort_key_hd_min[OF ne, of key]
  obtain c cs where s: "sort_key key later = c # cs" and cin: "c \<in> set later"
    and cmin: "\<forall>x\<in>set later. key c \<le> key x" by blast
  have r: "zonedTimeToUtc y mo d h mi s ms tz = fst c"
    unfolding zonedTimeToUtc_def Let_def candidates_of_def[symmetric] c[symmetric] p[symmetric] m
    using s by (simp add: key_def later_def)
  have "partsToUtcMillis (snd c) \<le> partsToUtcMillis (snd c')"
    if "c' \<in> set cands" "partsToUtcMillis P \<le> partsToUtcMillis (snd c')" for c'
  proof -
    have "c' \<in> set later" using that by (simp add: later_def)
    then have "key c \<le> key c'" using cmin by blast
    then show ?thesis by (auto simp: key_def less_eq_prod_def)
  qed
  moreover have "c \<in> set cands" "partsToUtcMillis P \<le> partsToUtcMillis (snd c)"
    using cin by (simp_all add: later_def)
  ultimately show ?thesis using r by blast
qed

lemma zonedTimeToUtc_match:
  assumes c: "cands = candidates_of (Date_UTC y (mo - 1) d h mi s ms) tz"
      and p: "P = \<lparr>year = y, month = mo, day = d, hour = h, minute = mi, second = s\<rparr>"
      and some: "\<exists>c\<in>set cands. partsMatch (snd c) P"
  shows "\<exists>c\<in>set cands. zonedTimeToUtc y mo d h mi s ms tz = fst c
           \<and> partsMatch (snd c) P
           \<and> (\<forall>c'\<in>set cands. partsMatch (snd c') P \<longrightarrow> fst c \<le> fst c')"
proof -
  define hits where "hits = filter (\<lambda>c. partsMatch (snd c) P) cands"
  have ne: "hits \<noteq> []" using some by (auto simp: hits_def filter_empty_conv)
  from sort_key_hd_min[OF ne, of fst]
  obtain c cs where s: "sort_key fst hits = c # cs" and cin: "c \<in> set hits"
    and cmin: "\<forall>x\<in>set hits. fst c \<le> fst x" by blast
  have r: "zonedTimeToUtc y mo d h mi s ms tz = fst c"
    unfolding zonedTimeToUtc_def Let_def candidates_of_def[symmetric] c[symmetric] p[symmetric]
    using s by (simp add: hits_def)
  have "c \<in> set cands" "partsMatch (snd c) P" using cin by (simp_all add: hits_def)
  moreover have "\<forall>c'\<in>set cands. partsMatch (snd c') P \<longrightarrow> fst c \<le> fst c'"
  proof (intro ballI impI)
    fix c' assume "c' \<in> set cands" "partsMatch (snd c') P"
    then have "c' \<in> set hits" by (simp add: hits_def)
    then show "fst c \<le> fst c'" by (rule bspec[OF cmin])
  qed
  ultimately show ?thesis using r by blast
qed

lemma offset_in_window:
  assumes civil: "valid_civil y mo d h mi s ms" and yr: "101 \<le> y"
      and L: "L = Date_UTC y (mo - 1) d h mi s 0"
      and t: "L - 172800000 \<le> t" and z: "- 86400000 \<le> tz t"
  shows "getTimeZoneOffset t tz = tz t - (t + tz t) mod 1000"
    and "partsToUtcMillis (getZonedParts t tz) = t + tz t - (t + tz t) mod 1000"
proof -
  have "Date_UTC y (mo - 1) d h mi s 0 - 259200000 \<le> t + tz t"
    using t z L by linarith
  then have s: "99 < YearFromTime (t + tz t)" by (rule window_safe[OF civil yr])
  show "getTimeZoneOffset t tz = tz t - (t + tz t) mod 1000"
    using s by (rule getTimeZoneOffset_eq)
  show "partsToUtcMillis (getZonedParts t tz) = t + tz t - (t + tz t) mod 1000"
    using s by (rule partsToUtcMillis_getZonedParts)
qed

lemma candidates_step_zone:
  fixes tz :: zone
  assumes civil: "valid_civil y mo d h mi s ms" and yr: "101 \<le> y"
      and L: "L = Date_UTC y (mo - 1) d h mi s 0"
      and zone: "\<forall>t. \<bar>t - L\<bar> \<le> 172800000 \<longrightarrow> tz t = (if t < T then o1 else o2)"
      and o1: "\<bar>o1\<bar> \<le> 86400000" and o2: "\<bar>o2\<bar> \<le> 86400000"
      and g: "g = Date_UTC y (mo - 1) d h mi s ms"
      and x0: "x0 = g - (tz g - (g + tz g) mod 1000)"
      and c: "c \<in> set (candidates_of g tz)"
  shows "\<exists>t \<in> {g, x0, x0 + 3600000, x0 - 3600000}.
           \<bar>t - L\<bar> \<le> 172800000
           \<and> fst c = g - (tz t - (t + tz t) mod 1000)
           \<and> snd c = getZonedParts (fst c) tz
           \<and> \<bar>fst c - L\<bar> \<le> 172800000"
proof -
  have ms: "0 \<le> ms" "ms \<le> 999" using civil by (simp_all add: valid_civil_def)
  have gL: "g = L + ms" unfolding g L by (rule Date_UTC_ms)
  have R: "0 \<le> (u + tz u) mod 1000" "(u + tz u) mod 1000 < 1000" for u by simp_all
  have tzb: "\<bar>tz u\<bar> \<le> 86400000" if "\<bar>u - L\<bar> \<le> 172800000" for u
    using zone that o1 o2 by simp
  have off: "getTimeZoneOffset u tz = tz u - (u + tz u) mod 1000" if "\<bar>u - L\<bar> \<le> 172800000" for u
    using offset_in_window(1)[OF civil yr L, of u tz] that tzb[OF that] by linarith
  have wg: "\<bar>g - L\<bar> \<le> 172800000" using gL ms by simp
  have x0': "x0 = g - getTimeZoneOffset g tz" using off[OF wg] x0 by simp
  have wx: "\<bar>x0 - L\<bar> \<le> 86400000 + 1998"
    using x0 gL ms tzb[OF wg] R[of g] by linarith
  have w0: "\<bar>x0 - L\<bar> \<le> 172800000" using wx by linarith
  have wp: "\<bar>x0 + 3600000 - L\<bar> \<le> 172800000" using wx by linarith
  have wm: "\<bar>x0 - 3600000 - L\<bar> \<le> 172800000" using wx by linarith
  have cw: "\<bar>g - (tz u - (u + tz u) mod 1000) - L\<bar> \<le> 172800000" if "\<bar>u - L\<bar> \<le> 172800000" for u
    using gL ms tzb[OF that] R[of u] by linarith
  from c obtain f where f: "f \<in> set (candidate_offsets g tz)" and cf: "c = candidate_of g tz f"
    by (auto simp: candidates_of_def)
  from f have "f = getTimeZoneOffset g tz \<or> f = getTimeZoneOffset x0 tz
      \<or> f = getTimeZoneOffset (x0 + 3600000) tz \<or> f = getTimeZoneOffset (x0 - 3600000) tz"
    unfolding set_candidate_offsets x0' by blast
  then have "\<exists>t \<in> {g, x0, x0 + 3600000, x0 - 3600000}.
      \<bar>t - L\<bar> \<le> 172800000 \<and> f = tz t - (t + tz t) mod 1000"
    using off[OF wg] off[OF w0] off[OF wp] off[OF wm] wg w0 wp wm by blast
  then obtain t where t: "t \<in> {g, x0, x0 + 3600000, x0 - 3600000}" "\<bar>t - L\<bar> \<le> 172800000"
    "f = tz t - (t + tz t) mod 1000" by blast
  have "fst c = g - (tz t - (t + tz t) mod 1000)" "snd c = getZonedParts (fst c) tz"
    using cf t(3) by (simp_all add: candidate_of_def)
  moreover have "\<bar>fst c - L\<bar> \<le> 172800000" using cw[OF t(2)] calculation(1) by simp
  ultimately show ?thesis using t(1,2) by blast
qed

lemma candidates_probe:
  fixes tz :: zone
  assumes civil: "valid_civil y mo d h mi s ms" and yr: "101 \<le> y"
      and L: "L = Date_UTC y (mo - 1) d h mi s 0"
      and zone: "\<forall>t. \<bar>t - L\<bar> \<le> 172800000 \<longrightarrow> tz t = (if t < T then o1 else o2)"
      and o1: "\<bar>o1\<bar> \<le> 86400000" and o2: "\<bar>o2\<bar> \<le> 86400000"
      and g: "g = Date_UTC y (mo - 1) d h mi s ms"
      and x0: "x0 = g - (tz g - (g + tz g) mod 1000)"
      and t: "t \<in> {g, x0, x0 + 3600000, x0 - 3600000}"
  shows "candidate_of g tz (tz t - (t + tz t) mod 1000) \<in> set (candidates_of g tz)"
proof -
  have ms: "0 \<le> ms" "ms \<le> 999" using civil by (simp_all add: valid_civil_def)
  have gL: "g = L + ms" unfolding g L by (rule Date_UTC_ms)
  have R: "0 \<le> (u + tz u) mod 1000" "(u + tz u) mod 1000 < 1000" for u by simp_all
  have tzb: "\<bar>tz u\<bar> \<le> 86400000" if "\<bar>u - L\<bar> \<le> 172800000" for u
    using zone that o1 o2 by simp
  have off: "getTimeZoneOffset u tz = tz u - (u + tz u) mod 1000" if "\<bar>u - L\<bar> \<le> 172800000" for u
    using offset_in_window(1)[OF civil yr L, of u tz] that tzb[OF that] by linarith
  have wg: "\<bar>g - L\<bar> \<le> 172800000" using gL ms by simp
  have x0': "x0 = g - getTimeZoneOffset g tz" using off[OF wg] x0 by simp
  have wx: "\<bar>x0 - L\<bar> \<le> 86400000 + 1998"
    using x0 gL ms tzb[OF wg] R[of g] by linarith
  have w: "\<bar>t - L\<bar> \<le> 172800000" using t wx wg by auto
  have "getTimeZoneOffset t tz \<in> set (candidate_offsets g tz)"
    using t unfolding set_candidate_offsets x0' by auto
  then show ?thesis unfolding off[OF w] by (simp add: candidates_of_def)
qed

lemma desired_naive:
  "partsToUtcMillis \<lparr>year = y, month = mo, day = d, hour = h, minute = mi, second = s\<rparr>
   = Date_UTC y (mo - 1) d h mi s 0"
  by (simp add: partsToUtcMillis_def)

lemma gap_rendering:
  fixes tz :: zone
  assumes civil: "valid_civil y mo d h mi s ms" and yr: "101 \<le> y"
      and L: "L = Date_UTC y (mo - 1) d h mi s 0"
      and zone: "\<forall>t. \<bar>t - L\<bar> \<le> 172800000 \<longrightarrow> tz t = (if t < T then o1 else o2)"
      and o1: "\<bar>o1\<bar> \<le> 86400000" and o2: "\<bar>o2\<bar> \<le> 86400000"
      and gap: "T + o1 \<le> L" "L + 1000 \<le> T + o2"
      and u: "\<bar>u - L\<bar> \<le> 172800000"
  shows "(u < T \<longrightarrow> partsToUtcMillis (getZonedParts u tz) < L)
       \<and> (T \<le> u \<longrightarrow> L < partsToUtcMillis (getZonedParts u tz))"
proof -
  have tzu: "tz u = (if u < T then o1 else o2)" using zone u by simp
  have "\<bar>tz u\<bar> \<le> 86400000" using tzu o1 o2 by simp
  then have b: "- 86400000 \<le> tz u" by linarith
  have n: "partsToUtcMillis (getZonedParts u tz) = u + tz u - (u + tz u) mod 1000"
    using offset_in_window(2)[OF civil yr L, of u tz] u b by linarith
  have R: "0 \<le> (u + tz u) mod 1000" "(u + tz u) mod 1000 < 1000" by simp_all
  show ?thesis
    unfolding n using tzu R gap by (simp split: if_splits)
qed

text \<open>
  Claim C3. Take a zone that, within two days of the requested wall-clock time, has the offset
  \<open>o1\<close> before the instant \<open>T\<close> and \<open>o2\<close> from \<open>T\<close> on, and a valid local date-time (any
  milliseconds) whose naive timestamp \<open>L\<close> lies in the gap: the clock at \<open>T\<close> has already
  passed \<open>L\<close> going by \<open>o1\<close> and shows at least a second more going by \<open>o2\<close>. Then no
  instant of the window renders the requested components, and \<^verbatim>\<open>zonedTimeToUtc\<close> returns the
  date of a candidate whose rendered wall clock, read as a naive timestamp, is at or after \<open>L\<close>
  and the least among the candidates for which this holds. With no milliseconds and offsets
  of whole seconds the result is \<open>L - o1\<close>, whose wall clock is \<open>L\<close> moved forward by the
  width of the gap.
\<close>

theorem spring_forward_gap_snaps_forward:
  fixes tz :: zone
  assumes civil: "valid_civil y mo d h mi s ms" and yr: "101 \<le> y"
      and L: "L = Date_UTC y (mo - 1) d h mi s 0"
      and zone: "\<forall>t. \<bar>t - L\<bar> \<le> 172800000 \<longrightarrow> tz t = (if t < T then o1 else o2)"
      and o1: "\<bar>o1\<bar> \<le> 86400000" and o2: "\<bar>o2\<bar> \<le> 86400000"
      and gap: "T + o1 \<le> L" "L + 1000 \<le> T + o2"
  shows "(\<forall>t. \<bar>t - L\<bar> \<le> 172800000 \<longrightarrow>
            \<not> partsMatch (getZonedParts t tz)
                \<lparr>year = y, month = mo, day = d, hour = h, minute = mi, second = s\<rparr>)
       \<and> (\<exists>c\<in>set (candidates_of (Date_UTC y (mo - 1) d h mi s ms) tz).
            zonedTimeToUtc y mo d h mi s ms tz = fst c
            \<and> L \<le> partsToUtcMillis (snd c)
            \<and> (\<forall>c'\<in>set (candidates_of (Date_UTC y (mo - 1) d h mi s ms) tz).
                  L \<le> partsToUtcMillis (snd c')
                  \<longrightarrow> partsToUtcMillis (snd c) \<le> partsToUtcMillis (snd c')))
       \<and> (ms = 0 \<and> 1000 dvd o1 \<and> 1000 dvd o2 \<longrightarrow>
            zonedTimeToUtc y mo d h mi s ms tz = L - o1
            \<and> partsToUtcMillis (getZonedParts (L - o1) tz) = L + (o2 - o1))"
proof -
  define P where "P = \<lparr>year = y, month = mo, day = d, hour = h, minute = mi, second = s\<rparr>"
  define g where "g = Date_UTC y (mo - 1) d h mi s ms"
  define x0 where "x0 = g - (tz g - (g + tz g) mod 1000)"
  define cands where "cands = candidates_of g tz"
  have ms: "0 \<le> ms" "ms \<le> 999" using civil by (simp_all add: valid_civil_def)
  have gL: "g = L + ms" unfolding g_def L by (rule Date_UTC_ms)
  have PL: "partsToUtcMillis P = L" unfolding P_def L by (rule desired_naive)
  have R: "0 \<le> (u + tz u) mod 1000" "(u + tz u) mod 1000 < 1000" for u by simp_all
  have tzw: "tz u = (if u < T then o1 else o2)" if "\<bar>u - L\<bar> \<le> 172800000" for u
    using zone that by simp
  note rend = gap_rendering[OF civil yr L zone o1 o2 gap]
  note cchar = candidates_step_zone[OF civil yr L zone o1 o2 g_def x0_def]
  note cprobe = candidates_probe[OF civil yr L zone o1 o2 g_def x0_def]
  have wg: "\<bar>g - L\<bar> \<le> 172800000" using gL ms by simp
  have wx: "\<bar>x0 - L\<bar> \<le> 86400000 + 1998"
    using x0_def gL ms tzw[OF wg] o1 o2 R[of g] by (simp split: if_splits)
  have wm: "\<bar>x0 - 3600000 - L\<bar> \<le> 172800000" using wx by linarith

  have never: "\<not> partsMatch (getZonedParts u tz) P" if "\<bar>u - L\<bar> \<le> 172800000" for u
  proof
    assume "partsMatch (getZonedParts u tz) P"
    then have "partsToUtcMillis (getZonedParts u tz) = L"
      using partsMatch_naive PL by metis
    then show False using rend[OF that] by linarith
  qed

  have cin: "\<bar>fst c - L\<bar> \<le> 172800000 \<and> snd c = getZonedParts (fst c) tz"
    if "c \<in> set cands" for c
    using cchar[of c] that by (auto simp: cands_def)
  have none: "\<forall>c\<in>set cands. \<not> partsMatch (snd c) P"
    using cin never by metis
  have later: "L \<le> partsToUtcMillis (snd c) \<longleftrightarrow> T \<le> fst c" if "c \<in> set cands" for c
    using cin[OF that] rend[of "fst c"] by (cases "fst c < T") auto

  have ex: "\<exists>c\<in>set cands. T \<le> fst c"
  proof (cases "g < T")
    case True
    then have "tz g = o1" using tzw[OF wg] by simp
    then have "T \<le> fst (candidate_of g tz (tz g - (g + tz g) mod 1000))"
      using gL ms R[of g] gap by (simp add: candidate_of_def)
    moreover have "candidate_of g tz (tz g - (g + tz g) mod 1000) \<in> set cands"
      unfolding cands_def by (rule cprobe) simp
    ultimately show ?thesis by blast
  next
    case False
    then have "tz g = o2" using tzw[OF wg] by simp
    then have "x0 - 3600000 < T" using x0_def gL ms R[of g] gap by simp
    then have "tz (x0 - 3600000) = o1" using tzw[OF wm] by simp
    then have "T \<le> fst (candidate_of g tz
        (tz (x0 - 3600000) - (x0 - 3600000 + tz (x0 - 3600000)) mod 1000))"
      using gL ms R[of "x0 - 3600000"] gap by (simp add: candidate_of_def)
    moreover have "candidate_of g tz
        (tz (x0 - 3600000) - (x0 - 3600000 + tz (x0 - 3600000)) mod 1000) \<in> set cands"
      unfolding cands_def by (rule cprobe) simp
    ultimately show ?thesis by blast
  qed
  then have some: "\<exists>c\<in>set cands. partsToUtcMillis P \<le> partsToUtcMillis (snd c)"
    unfolding PL using later by blast

  from zonedTimeToUtc_no_match[OF cands_def[unfolded g_def] P_def none some]
  have sel: "\<exists>c\<in>set cands. zonedTimeToUtc y mo d h mi s ms tz = fst c
           \<and> L \<le> partsToUtcMillis (snd c)
           \<and> (\<forall>c'\<in>set cands. L \<le> partsToUtcMillis (snd c')
                 \<longrightarrow> partsToUtcMillis (snd c) \<le> partsToUtcMillis (snd c'))"
    unfolding PL .

  have exact: "zonedTimeToUtc y mo d h mi s ms tz = L - o1
        \<and> partsToUtcMillis (getZonedParts (L - o1) tz) = L + (o2 - o1)"
    if whole: "ms = 0" "1000 dvd o1" "1000 dvd o2"
  proof -
    have Ld: "1000 dvd L" unfolding L by (rule Date_UTC_whole_second)
    have g0: "g = L" using gL whole(1) by simp
    have zd: "(u + tz u) mod 1000 = 0" if "\<bar>u - L\<bar> \<le> 172800000" "1000 dvd u" for u
    proof -
      have "1000 dvd tz u" using tzw[OF that(1)] whole by simp
      with that(2) have "1000 dvd u + tz u" by (rule dvd_add)
      then show ?thesis by presburger
    qed
    have tzg: "1000 dvd tz g" using tzw[OF wg] whole by simp
    have x0L: "x0 = L - tz g" unfolding x0_def using zd[OF wg] Ld g0 by simp
    have xd: "1000 dvd x0" unfolding x0L using Ld tzg by (rule dvd_diff)
    have pd: "1000 dvd t" if "t \<in> {g, x0, x0 + 3600000, x0 - 3600000}" for t
    proof -
      have "1000 dvd x0 + 3600000" using xd by (rule dvd_add) simp
      moreover have "1000 dvd x0 - 3600000" using xd by (rule dvd_diff) simp
      ultimately show ?thesis using that xd Ld g0 by auto
    qed
    have dates: "fst c = L - o1 \<or> fst c = L - o2" if "c \<in> set cands" for c
    proof -
      from cchar[of c] that obtain t where t: "t \<in> {g, x0, x0 + 3600000, x0 - 3600000}"
        "\<bar>t - L\<bar> \<le> 172800000" "fst c = g - (tz t - (t + tz t) mod 1000)"
        unfolding cands_def by blast
      have "fst c = L - tz t" using t(3) zd[OF t(2) pd[OF t(1)]] g0 by simp
      then show ?thesis using tzw[OF t(2)] by (simp split: if_splits)
    qed
    from sel obtain c where c: "c \<in> set cands" "zonedTimeToUtc y mo d h mi s ms tz = fst c"
      "L \<le> partsToUtcMillis (snd c)" by blast
    have "T \<le> fst c" using later[OF c(1)] c(3) by simp
    then have "fst c = L - o1" using dates[OF c(1)] gap by linarith
    then have r: "zonedTimeToUtc y mo d h mi s ms tz = L - o1" using c(2) by simp
    have w1: "\<bar>L - o1 - L\<bar> \<le> 172800000" using o1 by simp
    have t1: "tz (L - o1) = o2" using tzw[OF w1] gap by simp
    have "1000 dvd L - o1" using Ld whole(2) by (rule dvd_diff)
    then have "(L - o1 + tz (L - o1)) mod 1000 = 0" using zd[OF w1] by simp
    moreover have "partsToUtcMillis (getZonedParts (L - o1) tz)
        = L - o1 + tz (L - o1) - (L - o1 + tz (L - o1)) mod 1000"
      using offset_in_window(2)[OF civil yr L, of "L - o1" tz] o1 o2 t1 by linarith
    ultimately have "partsToUtcMillis (getZonedParts (L - o1) tz) = L + (o2 - o1)"
      using t1 by simp
    with r show ?thesis by simp
  qed
  show ?thesis
    using never sel exact unfolding P_def cands_def g_def by blast
qed

lemma parseDeadline_zoned:
  assumes m: "LOCAL_DATETIME_REGEX_match (trim str) = Some m"
      and civil: "valid_civil (Number_of (yearRaw m)) (Number_of (monthRaw m))
                    (Number_of (dayRaw m)) (Number_or_zero (hourRaw m))
                    (Number_or_zero (minuteRaw m)) (Number_or_zero (secondRaw m))
                    (millisecond_of (millisecondRaw m))"
      and yr: "99 < Number_of (yearRaw m)"
      and name: "resolveTimeZone e tzopt \<noteq> []"
      and tz: "tzdb e (resolveTimeZone e tzopt) = Some tz"
  shows "parseDeadline e (Some (DateStr str)) tzopt
         = toISOString (zonedTimeToUtc (Number_of (yearRaw m)) (Number_of (monthRaw m))
                          (Number_of (dayRaw m)) (Number_or_zero (hourRaw m))
                          (Number_or_zero (minuteRaw m)) (Number_or_zero (secondRaw m))
                          (millisecond_of (millisecondRaw m)) tz)"
  unfolding parseDeadline_local[OF m] parse_local_def Let_def
  using name tz
  by (simp add: assertValidLocalDateTime_valid[OF civil yr] assertValidTimeZone_def)

lemma sample_dst_strings:
  "LOCAL_DATETIME_REGEX_match (trim ''2026-03-08T02:30:00'')
     = Some \<lparr>yearRaw = ''2026'', monthRaw = ''03'', dayRaw = ''08'', hourRaw = Some ''02'',
             minuteRaw = Some ''30'', secondRaw = Some ''00'', millisecondRaw = None\<rparr>"
  "LOCAL_DATETIME_REGEX_match (trim ''2026-11-01T01:30:00'')
     = Some \<lparr>yearRaw = ''2026'', monthRaw = ''11'', dayRaw = ''01'', hourRaw = Some ''01'',
             minuteRaw = Some ''30'', secondRaw = Some ''00'', millisecondRaw = None\<rparr>"
  "LOCAL_DATETIME_REGEX_match (trim ''2026-10-25T02:30:00'')
     = Some \<lparr>yearRaw = ''2026'', monthRaw = ''10'', dayRaw = ''25'', hourRaw = Some ''02'',
             minuteRaw = Some ''30'', secondRaw = Some ''00'', millisecondRaw = None\<rparr>"
  by (simp_all add: trim_def is_space_def LOCAL_DATETIME_REGEX_match_def is_digit_def
      match_time_def match_minutes_def match_seconds_def match_fraction_def)

lemma sample_dst_numbers:
  "Number_of ''2026'' = 2026" "Number_of ''03'' = 3" "Number_of ''08'' = 8"
  "Number_of ''02'' = 2" "Number_of ''30'' = 30" "Number_of ''00'' = 0"
  "Number_of ''11'' = 11" "Number_of ''01'' = 1" "Number_of ''10'' = 10"
  "Number_of ''25'' = 25"
  by (simp_all add: Number_of_def digit_val_def)

lemma sample_zone_names:
  "resolveTimeZone utc_env (Some ''America/Los_Angeles'') = ''America/Los_Angeles''"
  "resolveTimeZone utc_env (Some ''Antarctica/Troll'') = ''Antarctica/Troll''"
  "tzdb utc_env ''America/Los_Angeles'' = Some tz_Los_Angeles"
  "tzdb utc_env ''Antarctica/Troll'' = Some tz_Troll"
  by (simp_all add: resolveTimeZone_def truthy_def trim_def is_space_def utc_env_def
      sample_tzdb_def)

lemma Date_UTC_dst_literals:
  "Date_UTC 2026 2 8 2 30 0 0 = 1772937000000"
  "Date_UTC 2026 2 8 10 30 0 0 = 1772965800000"
  "Date_UTC 2026 10 1 1 30 0 0 = 1793496600000"
  "Date_UTC 2026 10 1 8 30 0 0 = 1793521800000"
  "Date_UTC 2026 9 25 2 30 0 0 = 1792895400000"
  by (simp_all add: Date_UTC_def MakeDate_def MakeDay_def MakeTime_def DayFromYear_def
      days_before_month_def InLeapYear_def DaysInYear_def msPerDay_def)

lemma sample_dst_civil:
  "valid_civil 2026 3 8 2 30 0 0" "valid_civil 2026 3 8 10 30 0 0"
  "valid_civil 2026 11 1 1 30 0 0" "valid_civil 2026 11 1 8 30 0 0"
  "valid_civil 2026 10 25 2 30 0 0"
  by (simp_all add: valid_civil_def days_in_month_def)

lemma iso_dst_literals:
  "toISOString 1772965800000 = Inr ''2026-03-08T10:30:00.000Z''"
  "toISOString 1793521800000 = Inr ''2026-11-01T08:30:00.000Z''"
  "toISOString 1792895400000 = Inr ''2026-10-25T02:30:00.000Z''"
proof -
  show "toISOString 1772965800000 = Inr ''2026-03-08T10:30:00.000Z''"
    using iso_text_civil[OF sample_dst_civil(2)]
    by (simp add: Date_UTC_dst_literals toISOString_def valid_time_def pad4_def pad2_def
        pad3_def digit_char_def)
  show "toISOString 1793521800000 = Inr ''2026-11-01T08:30:00.000Z''"
    using iso_text_civil[OF sample_dst_civil(4)]
    by (simp add: Date_UTC_dst_literals toISOString_def valid_time_def pad4_def pad2_def
        pad3_def digit_char_def)
  show "toISOString 1792895400000 = Inr ''2026-10-25T02:30:00.000Z''"
    using iso_text_civil[OF sample_dst_civil(5)]
    by (simp add: Date_UTC_dst_literals toISOString_def valid_time_def pad4_def pad2_def
        pad3_def digit_char_def)
qed

lemma parse_dst_samples:
  "parseDeadline utc_env (Some (DateStr ''2026-03-08T02:30:00'')) (Some ''America/Los_Angeles'')
   = toISOString (zonedTimeToUtc 2026 3 8 2 30 0 0 tz_Los_Angeles)"
  "parseDeadline utc_env (Some (DateStr ''2026-11-01T01:30:00'')) (Some ''America/Los_Angeles'')
   = toISOString (zonedTimeToUtc 2026 11 1 1 30 0 0 tz_Los_Angeles)"
  "parseDeadline utc_env (Some (DateStr ''2026-10-25T02:30:00'')) (Some ''Antarctica/Troll'')
   = toISOString (zonedTimeToUtc 2026 10 25 2 30 0 0 tz_Troll)"
proof -
  show "parseDeadline utc_env (Some (DateStr ''2026-03-08T02:30:00''))
          (Some ''America/Los_Angeles'')
        = toISOString (zonedTimeToUtc 2026 3 8 2 30 0 0 tz_Los_Angeles)"
    using parseDeadline_zoned[OF sample_dst_strings(1), of utc_env
        "Some ''America/Los_Angeles''" tz_Los_Angeles]
    by (simp add: sample_dst_numbers Number_or_zero_def millisecond_of_def sample_dst_civil
        sample_zone_names)
  show "parseDeadline utc_env (Some (DateStr ''2026-11-01T01:30:00''))
          (Some ''America/Los_Angeles'')
        = toISOString (zonedTimeToUtc 2026 11 1 1 30 0 0 tz_Los_Angeles)"
    using parseDeadline_zoned[OF sample_dst_strings(2), of utc_env
        "Some ''America/Los_Angeles''" tz_Los_Angeles]
    by (simp add: sample_dst_numbers Number_or_zero_def millisecond_of_def sample_dst_civil
        sample_zone_names)
  show "parseDeadline utc_env (Some (DateStr ''2026-10-25T02:30:00''))
          (Some ''Antarctica/Troll'')
        = toISOString (zonedTimeToUtc 2026 10 25 2 30 0 0 tz_Troll)"
    using parseDeadline_zoned[OF sample_dst_strings(3), of utc_env
        "Some ''Antarctica/Troll''" tz_Troll]
    by (simp add: sample_dst_numbers Number_or_zero_def millisecond_of_def sample_dst_civil
        sample_zone_names)
qed

theorem spring_forward_gap_witness:
  "zonedTimeToUtc 2026 3 8 2 30 0 0 tz_Los_Angeles = 1772965800000
   \<and> parseDeadline utc_env (Some (DateStr ''2026-03-08T02:30:00''))
       (Some ''America/Los_Angeles'') = Inr ''2026-03-08T10:30:00.000Z''"
proof -
  have z: "\<forall>t. \<bar>t - 1772937000000\<bar> \<le> 172800000 \<longrightarrow>
             tz_Los_Angeles t = (if t < 1772964000000 then - 28800000 else - 25200000)"
    by (simp add: tz_Los_Angeles_def)
  have L: "(1772937000000 :: int) = Date_UTC 2026 (3 - 1) 8 2 30 0 0"
    by (simp add: Date_UTC_dst_literals)
  have r: "zonedTimeToUtc 2026 3 8 2 30 0 0 tz_Los_Angeles = 1772965800000"
    using spring_forward_gap_snaps_forward[OF sample_dst_civil(1) _ L z]
    by simp
  then show ?thesis by (simp add: parse_dst_samples iso_dst_literals)
qed






text \<open>
  The millisecond part of a local input is counted twice. It is added to the guess, and the
  offset computed for the guess is too small by the same milliseconds, since the rendering it
  is computed from has whole seconds only. For 01:30:00.400 in America/Los_Angeles on
  2026-11-01 the result is 08:30:00.800Z, which is neither 08:30:00.400Z nor 09:30:00.400Z.
\<close>

lemma millisecond_part_counted_twice:
  "zonedTimeToUtc 2026 11 1 1 30 0 400 tz_Los_Angeles = 1793521800800"
proof -
  define P where "P = \<lparr>year = 2026, month = 11, day = 1, hour = 1, minute = 30, second = 0 :: int\<rparr>"
  define g where "g = Date_UTC 2026 (11 - 1) 1 1 30 0 400"
  define x0 where "x0 = g - (tz_Los_Angeles g - (g + tz_Los_Angeles g) mod 1000)"
  define cands where "cands = candidates_of g tz_Los_Angeles"
  have z: "\<forall>t. \<bar>t - 1793496600000\<bar> \<le> 172800000 \<longrightarrow>
             tz_Los_Angeles t = (if t < 1793523600000 then - 25200000 else - 28800000)"
    by (simp add: tz_Los_Angeles_def)
  have L: "(1793496600000 :: int) = Date_UTC 2026 (11 - 1) 1 1 30 0 0"
    by (simp add: Date_UTC_dst_literals)
  have yr: "(101 :: int) \<le> 2026" by simp
  have civil: "valid_civil 2026 11 1 1 30 0 400" "valid_civil 2026 11 1 1 30 0 800"
    by (simp_all add: valid_civil_def days_in_month_def)
  have gv: "g = 1793496600400"
    unfolding g_def using Date_UTC_ms[of 2026 "11 - 1" 1 1 30 0 400] L by simp
  have tzv: "tz_Los_Angeles 1793496600400 = - 25200000"
    "tz_Los_Angeles 1793521800800 = - 25200000"
    "tz_Los_Angeles 1793525400800 = - 28800000"
    "tz_Los_Angeles 1793518200800 = - 25200000"
    "tz_Los_Angeles 1793521801200 = - 25200000"
    "tz_Los_Angeles 1793525401200 = - 28800000"
    by (simp_all add: tz_Los_Angeles_def)
  have xv: "x0 = 1793521800800" unfolding x0_def gv by (simp add: tzv)
  have o: "\<bar>- 25200000 :: int\<bar> \<le> 86400000" "\<bar>- 28800000 :: int\<bar> \<le> 86400000" by simp_all
  note cchar = candidates_step_zone[OF civil(1) yr L z o g_def x0_def]
  note cprobe = candidates_probe[OF civil(1) yr L z o g_def x0_def]
  have dates: "fst c = 1793521800800 \<or> fst c = 1793521801200 \<or> fst c = 1793525401200"
    if "c \<in> set cands" for c
  proof -
    from cchar[of c] that obtain t where t: "t \<in> {g, x0, x0 + 3600000, x0 - 3600000}"
      "fst c = g - (tz_Los_Angeles t - (t + tz_Los_Angeles t) mod 1000)"
      unfolding cands_def by blast
    from t(1) have "t = 1793496600400 \<or> t = 1793521800800 \<or> t = 1793525400800
        \<or> t = 1793518200800" unfolding gv xv by simp
    then show ?thesis using t(2) unfolding gv by (auto simp: tzv)
  qed
  have rend: "snd c = getZonedParts (fst c) tz_Los_Angeles" if "c \<in> set cands" for c
    using cchar[of c] that unfolding cands_def by blast
  have naive: "partsToUtcMillis (getZonedParts 1793521801200 tz_Los_Angeles) = 1793496601000"
    "partsToUtcMillis (getZonedParts 1793525401200 tz_Los_Angeles) = 1793496601000"
    using offset_in_window(2)[OF civil(1) yr L, of 1793521801200 tz_Los_Angeles]
      offset_in_window(2)[OF civil(1) yr L, of 1793525401200 tz_Los_Angeles]
    by (simp_all add: tzv)
  have PL: "partsToUtcMillis P = 1793496600000" unfolding P_def L by (rule desired_naive)
  have no: "\<not> partsMatch (getZonedParts 1793521801200 tz_Los_Angeles) P"
    "\<not> partsMatch (getZonedParts 1793525401200 tz_Los_Angeles) P"
    using partsMatch_naive[of "getZonedParts 1793521801200 tz_Los_Angeles" P]
      partsMatch_naive[of "getZonedParts 1793525401200 tz_Los_Angeles" P] naive PL
    by auto
  have hit: "getZonedParts 1793521800800 tz_Los_Angeles = P" unfolding P_def
    using getZonedParts_civil[OF civil(2), of 1793521800800 tz_Los_Angeles]
      Date_UTC_ms[of 2026 "11 - 1" 1 1 30 0 800] L by (simp add: tzv)
  have "candidate_of g tz_Los_Angeles
          (tz_Los_Angeles g - (g + tz_Los_Angeles g) mod 1000) \<in> set cands"
    unfolding cands_def by (rule cprobe) simp
  then have "(1793521800800, P) \<in> set cands"
    unfolding gv by (simp add: tzv candidate_of_def hit)
  then have some: "\<exists>c\<in>set cands. partsMatch (snd c) P" by force
  from zonedTimeToUtc_match[OF cands_def[unfolded g_def] P_def some]
  obtain c where c: "c \<in> set cands" "zonedTimeToUtc 2026 11 1 1 30 0 400 tz_Los_Angeles = fst c"
    "partsMatch (snd c) P" by blast
  have "fst c = 1793521800800"
    using dates[OF c(1)] c(3) no unfolding rend[OF c(1)] by auto
  then show ?thesis using c(2) by simp
qed


end
